(* ===== verification/Prelude.thy ===== *)
theory Prelude
  imports Main "HOL-Library.Word"
begin

text \<open>
  Shared vocabulary of the development: the byte and machine-integer types of the Go
  program and of the btcd library it calls, the error taxonomy of the specification, the
  error-threading bind of Go's \<open>if err != nil { return err }\<close>, little-endian byte
  encodings (Go's \<open>binary.LittleEndian\<close>), a byte-reader type with the remaining input
  (Go's \<open>io.Reader\<close> consumed by btcd's decoders) and hexadecimal text (Go's
  \<open>encoding/hex\<close>). Each encoder comes with its round-trip lemma, collected in
  \<open>codec_simps\<close>, which the serializer proofs of \<open>Wire\<close> use.
\<close>

named_theorems codec_simps "round-trip facts of the byte encoders"

section \<open>Types\<close>

type_synonym byte = "8 word"

type_synonym bytes = "byte list"

type_synonym u16 = "16 word"

type_synonym u32 = "32 word"

type_synonym u64 = "64 word"

text \<open>
  The error taxonomy of the specification (section 7) refined by the failures the code
  paths actually raise: btcd's \<open>ErrScriptNotCanonical\<close> is split into the two causes the
  builder distinguishes, \<open>ErrMalformedPush\<close> and \<open>ErrUnsupportedAddress\<close> are the
  script tokenizer's and \<open>PayToAddrScript\<close>'s failures, the decoder's \<open>io.ErrUnexpectedEOF\<close> and
  \<open>errNonCanonicalVarInt\<close> are the \<open>SerializationError\<close> family, and
  \<open>ErrHashStrSize\<close> / \<open>hex.InvalidByteError\<close> are the failures of
  \<open>chainhash.NewHashFromStr\<close>. The last group are the script engine's failures
  (\<open>txscript.ErrEvalFalse\<close> and the others of its error codes); \<open>ErrUnmodelledOpcode\<close>
  marks an opcode outside the subset the engine model executes.
\<close>

datatype error =
    InvalidAddress
  | InvalidKeyFormat
  | ScriptTooLarge
  | InvalidPush
  | MalformedPush
  | UnsupportedAddress
  | SigningError
  | UnexpectedEOF
  | NonCanonicalVarInt
  | TooManyItems
  | ErrHashStrSize
  | InvalidHex
  | ErrEvalFalse
  | ErrEqualVerify
  | ErrInvalidStackOperation
  | ErrNotPushOnly
  | ErrNumberTooBig
  | ErrMinimalData
  | ErrInvalidPubKeyCount
  | ErrInvalidSignatureCount
  | ErrSigNullDummy
  | ErrNullFail
  | ErrCleanStack
  | ErrUnmodelledOpcode

section \<open>Error threading\<close>

text \<open>\<open>ebind m f\<close> is Go's \<open>v, err := m; if err != nil { return err }; f v\<close>.\<close>

definition ebind :: "error + 'a \<Rightarrow> ('a \<Rightarrow> error + 'b) \<Rightarrow> error + 'b" where
  "ebind m f = (case m of Inl e \<Rightarrow> Inl e | Inr a \<Rightarrow> f a)"

text \<open>Collect the results of a list of fallible computations, stopping at the first error.\<close>

fun all_ok :: "(error + 'a) list \<Rightarrow> error + 'a list" where
  "all_ok [] = Inr []"
| "all_ok (x # xs) = ebind x (\<lambda>a. ebind (all_ok xs) (\<lambda>as. Inr (a # as)))"

text \<open>Go's \<open>for i, x := range xs\<close>: a map that also sees the index.\<close>

definition map_idx :: "(nat \<Rightarrow> 'a \<Rightarrow> 'b) \<Rightarrow> 'a list \<Rightarrow> 'b list" where
  "map_idx f xs = map (\<lambda>(i, x). f i x) (zip [0..<length xs] xs)"

section \<open>Little-endian encodings\<close>

text \<open>\<open>le_enc k n\<close>: the low \<open>k\<close> bytes of \<open>n\<close>, least significant first
  (\<open>binary.LittleEndian.PutUintN\<close>); \<open>le_dec\<close> reads them back.\<close>

fun le_enc :: "nat \<Rightarrow> nat \<Rightarrow> bytes" where
  "le_enc 0 n = []"
| "le_enc (Suc k) n = word_of_nat n # le_enc k (n div 256)"

fun le_dec :: "bytes \<Rightarrow> nat" where
  "le_dec [] = 0"
| "le_dec (b # bs) = unat b + 256 * le_dec bs"

text \<open>Fixed-width words: the byte count is the word's length divided by eight.\<close>

definition put_word :: "'a::len word \<Rightarrow> bytes" where
  "put_word w = le_enc (LENGTH('a) div 8) (unat w)"

section \<open>Readers\<close>

text \<open>A reader consumes a prefix of its input and returns the value and the rest, or fails
  (\<open>io.ReadFull\<close> and the btcd decoders built on it).\<close>

type_synonym 'a reader = "bytes \<Rightarrow> error + ('a \<times> bytes)"

definition rbind :: "'a reader \<Rightarrow> ('a \<Rightarrow> 'b reader) \<Rightarrow> 'b reader" where
  "rbind r f bs = (case r bs of Inl e \<Rightarrow> Inl e | Inr (a, rest) \<Rightarrow> f a rest)"

definition rreturn :: "'a \<Rightarrow> 'a reader" where
  "rreturn a bs = Inr (a, bs)"

definition rfail :: "error \<Rightarrow> 'a reader" where
  "rfail e bs = Inl e"

text \<open>\<open>io.ReadFull\<close> of \<open>n\<close> bytes: \<open>ErrUnexpectedEOF\<close> when the input is short.\<close>

definition read_bytes :: "nat \<Rightarrow> bytes reader" where
  "read_bytes n bs = (if n \<le> length bs then Inr (take n bs, drop n bs) else Inl UnexpectedEOF)"

definition read_word :: "'a::len word reader" where
  "read_word = rbind (read_bytes (LENGTH('a) div 8)) (\<lambda>bs. rreturn (word_of_nat (le_dec bs)))"

text \<open>A loop reading \<open>n\<close> items with the same reader (the \<open>for i := 0; i < count\<close>
  loops of btcd's \<open>BtcDecode\<close>).\<close>

fun read_list :: "nat \<Rightarrow> 'a reader \<Rightarrow> 'a list reader" where
  "read_list 0 r bs = Inr ([], bs)"
| "read_list (Suc n) r bs =
     (case r bs of Inl e \<Rightarrow> Inl e
      | Inr (x, rest) \<Rightarrow> (case read_list n r rest of Inl e \<Rightarrow> Inl e
                         | Inr (xs, rest') \<Rightarrow> Inr (x # xs, rest')))"

section \<open>Hexadecimal text\<close>

text \<open>\<open>encoding/hex\<close>: lower-case digits on output; \<open>DecodeString\<close> accepts both cases,
  fails on an odd length (\<open>ErrLength\<close>) or a non-hex character (\<open>InvalidByteError\<close>).\<close>

definition hex_digit :: "nat \<Rightarrow> char" where
  "hex_digit n = ''0123456789abcdef'' ! n"

fun hex_val :: "char \<Rightarrow> nat option" where
  "hex_val c =
     (let n = of_char c :: nat in
      if 48 \<le> n \<and> n \<le> 57 then Some (n - 48)
      else if 97 \<le> n \<and> n \<le> 102 then Some (n - 87)
      else if 65 \<le> n \<and> n \<le> 70 then Some (n - 55)
      else None)"

definition hex_byte :: "byte \<Rightarrow> string" where
  "hex_byte b = [hex_digit (unat b div 16), hex_digit (unat b mod 16)]"

definition hex_encode :: "bytes \<Rightarrow> string" where
  "hex_encode bs = concat (map hex_byte bs)"

fun hex_decode_pairs :: "string \<Rightarrow> bytes option" where
  "hex_decode_pairs [] = Some []"
| "hex_decode_pairs [c] = None"
| "hex_decode_pairs (c1 # c2 # cs) =
     (case (hex_val c1, hex_val c2, hex_decode_pairs cs) of
        (Some h, Some l, Some rest) \<Rightarrow> Some (word_of_nat (16 * h + l) # rest)
      | _ \<Rightarrow> None)"

definition hex_decode :: "string \<Rightarrow> error + bytes" where
  "hex_decode s = (case hex_decode_pairs s of None \<Rightarrow> Inl InvalidHex | Some bs \<Rightarrow> Inr bs)"

text \<open>The bytes \<open>hex.DecodeString\<close> returns alongside an error: the pairs decoded before
  the first invalid one (what a caller that discards the error, \<open>b, _ := ...\<close>, keeps).\<close>

fun hex_decode_prefix :: "string \<Rightarrow> bytes" where
  "hex_decode_prefix [] = []"
| "hex_decode_prefix [c] = []"
| "hex_decode_prefix (c1 # c2 # cs) =
     (case (hex_val c1, hex_val c2) of
        (Some h, Some l) \<Rightarrow> word_of_nat (16 * h + l) # hex_decode_prefix cs
      | _ \<Rightarrow> [])"

section \<open>Lemmas\<close>

lemma ebind_Inl [simp]: "ebind (Inl e) f = Inl e"
  by (simp add: ebind_def)

lemma ebind_Inr [simp]: "ebind (Inr a) f = f a"
  by (simp add: ebind_def)

lemma ebind_eq_Inr:
  "ebind m f = Inr b \<longleftrightarrow> (\<exists>a. m = Inr a \<and> f a = Inr b)"
  by (cases m) auto

lemma length_le_enc [simp]: "length (le_enc k n) = k"
  by (induction k arbitrary: n) auto

lemma le_dec_le_enc: "le_dec (le_enc k n) = n mod 256 ^ k"
proof (induction k arbitrary: n)
  case 0
  then show ?case by simp
next
  case (Suc k)
  have "unat (word_of_nat n :: byte) = n mod 256"
    by (simp add: unat_of_nat)
  then have "le_dec (le_enc (Suc k) n) = n mod 256 + 256 * (n div 256 mod 256 ^ k)"
    by (simp add: Suc.IH)
  also have "\<dots> = n mod 256 ^ Suc k"
    by (simp add: mod_mult2_eq)
  finally show ?case .
qed

lemma le_dec_bound: "le_dec bs < 256 ^ length bs"
proof (induction bs)
  case Nil
  then show ?case by simp
next
  case (Cons b bs)
  have "unat b < 256"
    using unsigned_less [of b] by simp
  then have "unat b + 256 * le_dec bs < 256 + 256 * le_dec bs" by simp
  also have "\<dots> \<le> 256 * 256 ^ length bs"
    using Cons.IH by simp
  finally show ?case by simp
qed

lemma word_of_nat_low_byte: "(word_of_nat (unat b + 256 * k) :: byte) = b"
proof -
  have z: "(256::byte) = 0" by simp
  have "(word_of_nat (unat b + 256 * k) :: byte) = word_of_nat (unat b) + 256 * word_of_nat k"
    by simp
  also have "\<dots> = b"
    by (simp only: z mult_zero_left add_0_right) simp
  finally show ?thesis .
qed

lemma le_enc_le_dec: "le_enc (length bs) (le_dec bs) = bs"
proof (induction bs)
  case Nil
  then show ?case by simp
next
  case (Cons b bs)
  have "unat b < 256"
    using unsigned_less [of b] by simp
  then have "(unat b + 256 * le_dec bs) div 256 = le_dec bs" by simp
  moreover have "(word_of_nat (unat b + 256 * le_dec bs) :: byte) = b"
    by (rule word_of_nat_low_byte)
  ultimately show ?case using Cons.IH by simp
qed

lemma length_put_word [simp]: "length (put_word (w :: 'a::len word)) = LENGTH('a) div 8"
  by (simp add: put_word_def)

text \<open>Narrowing casts (Go's \<open>uint16(v)\<close>, \<open>uint32(v)\<close>) are lossless on values that fit.\<close>

lemma unat_ucast_small:
  "unat (v::'a::len word) < 2 ^ LENGTH('b::len) \<Longrightarrow> unat (ucast v :: 'b word) = unat v"
  by (simp add: unsigned_ucast_eq take_bit_nat_eq_self)

lemma ucast_ucast_small:
  "unat (v::'a::len word) < 2 ^ LENGTH('b::len) \<Longrightarrow> (ucast (ucast v :: 'b word) :: 'a word) = v"
  by (metis unat_ucast_small unsigned_ucast_eq take_bit_nat_eq_self unsigned_less word_unat_eq_iff)

lemma rbind_Inr [simp]: "r bs = Inr (a, rest) \<Longrightarrow> rbind r f bs = f a rest"
  by (simp add: rbind_def)

lemma rbind_Inl [simp]: "r bs = Inl e \<Longrightarrow> rbind r f bs = Inl e"
  by (simp add: rbind_def)

lemma rreturn_apply [simp]: "rreturn a bs = Inr (a, bs)"
  by (simp add: rreturn_def)

lemma rfail_apply [simp]: "rfail e bs = Inl e"
  by (simp add: rfail_def)

lemma read_bytes_append [simp, codec_simps]:
  "length xs = n \<Longrightarrow> read_bytes n (xs @ rest) = Inr (xs, rest)"
  by (simp add: read_bytes_def)

lemma pow256_word_bytes:
  assumes "LENGTH('a::len) mod 8 = 0"
  shows "(256::nat) ^ (LENGTH('a) div 8) = 2 ^ LENGTH('a)"
proof -
  have "(256::nat) ^ (LENGTH('a) div 8) = 2 ^ (8 * (LENGTH('a) div 8))"
    by (simp add: power_mult)
  also have "8 * (LENGTH('a) div 8) = LENGTH('a)"
    using mult_div_mod_eq [of 8 "LENGTH('a)"] assms by simp
  finally show ?thesis .
qed

lemma read_word_put_word [simp, codec_simps]:
  assumes "LENGTH('a::len) mod 8 = 0"
  shows "read_word (put_word (w :: 'a word) @ rest) = Inr (w, rest)"
proof -
  have "le_dec (put_word w) = unat w"
    using pow256_word_bytes [OF assms]
    by (simp add: put_word_def le_dec_le_enc)
  then show ?thesis
    by (simp add: read_word_def)
qed

lemma rbind_Inr_iff:
  "rbind r f bs = Inr y \<longleftrightarrow> (\<exists>a rest. r bs = Inr (a, rest) \<and> f a rest = Inr y)"
  by (auto simp: rbind_def split: sum.splits)

lemma read_bytes_Inr:
  "read_bytes n bs = Inr (d, rest) \<Longrightarrow> length d = n \<and> bs = d @ rest"
  by (auto simp: read_bytes_def split: if_splits)

text \<open>The reader inverts the writer: what a word reader consumed is the encoding of the
  word it returned.\<close>

lemma read_word_Inr:
  assumes "LENGTH('a::len) mod 8 = 0" "read_word bs = Inr (w :: 'a word, rest)"
  shows "bs = put_word w @ rest"
proof -
  let ?n = "LENGTH('a) div 8"
  obtain b where b: "take ?n bs = b" "?n \<le> length bs" "rest = drop ?n bs" "w = word_of_nat (le_dec b)"
    using assms(2) by (auto simp: read_word_def rbind_def read_bytes_def split: if_splits)
  have lb: "length b = ?n" using b(1)[symmetric] b(2) by simp
  have "le_dec b < 2 ^ LENGTH('a)"
    using le_dec_bound [of b] lb pow256_word_bytes [OF assms(1)] by simp
  then have "unat w = le_dec b" using b(4) by (simp add: unat_of_nat take_bit_nat_eq_self)
  then have "put_word w = b" using lb le_enc_le_dec [of b] by (simp add: put_word_def)
  then show ?thesis using b(1)[symmetric] b(3) by simp
qed

lemma read_list_concat [codec_simps]:
  assumes "\<And>x rest. x \<in> set xs \<Longrightarrow> r (enc x @ rest) = Inr (x, rest)"
  shows "read_list (length xs) r (concat (map enc xs) @ rest) = Inr (xs, rest)"
  using assms by (induction xs) auto

lemma hex_val_hex_digit: "n < 16 \<Longrightarrow> hex_val (hex_digit n) = Some n"
  by (auto simp: hex_digit_def numeral_eq_Suc less_Suc_eq)

lemma hex_decode_pairs_hex_byte [simp]:
  "hex_decode_pairs (hex_byte b @ cs) = map_option (Cons b) (hex_decode_pairs cs)"
proof -
  have u: "unat b < 256"
    using unsigned_less [of b] by simp
  then have "16 * (unat b div 16) + unat b mod 16 = unat b" by simp
  moreover have "unat b div 16 < 16" and "unat b mod 16 < 16"
    using u by simp_all
  ultimately show ?thesis
    by (simp add: hex_byte_def hex_val_hex_digit del: hex_val.simps split: option.splits)
qed

lemma hex_decode_hex_encode [codec_simps]: "hex_decode (hex_encode bs) = Inr bs"
proof -
  have "hex_decode_pairs (concat (map hex_byte bs)) = Some bs"
    by (induction bs) simp_all
  then show ?thesis
    by (simp add: hex_decode_def hex_encode_def)
qed

lemma length_hex_encode [simp]: "length (hex_encode bs) = 2 * length bs"
  by (induction bs) (simp_all add: hex_encode_def hex_byte_def)

lemma unat_of_nat_small: "n < 2 ^ LENGTH('a::len) \<Longrightarrow> unat (of_nat n :: 'a word) = n"
  by (simp add: unat_of_nat)

lemma read_byte_Cons [simp, codec_simps]: "(read_word :: byte reader) (b # rest) = Inr (b, rest)"
  by (simp add: read_word_def rbind_def read_bytes_def)

lemma ebind_assoc: "ebind (ebind m f) g = ebind m (\<lambda>x. ebind (f x) g)"
  by (cases m) simp_all

lemma map_idx_map: "map_idx f (map g xs) = map_idx (\<lambda>i x. f i (g x)) xs"
  by (simp add: map_idx_def zip_map2 comp_def case_prod_beta)

lemma length_map_idx [simp]: "length (map_idx f xs) = length xs"
  by (simp add: map_idx_def)

lemma map_map_idx: "map g (map_idx f xs) = map_idx (\<lambda>i x. g (f i x)) xs"
  by (auto simp: map_idx_def)

lemma map_idx_const: "map_idx (\<lambda>i x. f x) xs = map f xs"
  by (induction xs rule: rev_induct) (simp_all add: map_idx_def)

lemma hex_decode_pairs_length: "hex_decode_pairs s = Some bs \<Longrightarrow> length s = 2 * length bs"
  by (induction s arbitrary: bs rule: hex_decode_pairs.induct) (auto split: option.splits)

lemma le_enc_numeral [codec_simps]:
  "le_enc (numeral k) n = word_of_nat n # le_enc (pred_numeral k) (n div 256)"
  by (subst numeral_eq_Suc) (rule le_enc.simps(2))

lemma ebind_Inr_right [simp]: "ebind m Inr = m"
  by (cases m) simp_all

end
