(* ===== verification/Wire.thy ===== *)
theory Wire
  imports Prelude
begin

text \<open>
  The transaction data structures and the wire format of btcd's \<open>wire\<close> package, which
  \<open>src/main.go\<close> uses for \<open>wire.MsgTx\<close>, \<open>wire.TxIn\<close>, \<open>wire.TxOut\<close>,
  \<open>wire.NewOutPoint\<close> and \<open>tx.Serialize\<close> (spec sections 3 and 4.4). Go structs are
  records; \<open>int32\<close>/\<open>int64\<close> fields are kept as the 32/64-bit patterns that are written to
  the wire. The serializer \<open>serialize\<close> is \<open>MsgTx.Serialize\<close> for transactions without
  witness data (the only ones the program builds); \<open>deserialize_no_witness\<close> is the
  matching decoder \<open>MsgTx.DeserializeNoWitness\<close>, with btcd's canonical-varint check and
  its size limits. The main results are the round trip of every encoder and decoder and
  the agreement of \<open>serialize_size\<close> with the length of the encoding.
\<close>

section \<open>Data\<close>

record outpoint =
  op_hash :: bytes
  op_index :: u32

record txin =
  previous_out_point :: outpoint
  signature_script :: bytes
  sequence :: u32

record txout =
  out_value :: u64
  pk_script :: bytes

record msgtx =
  version :: u32
  tx_in :: "txin list"
  tx_out :: "txout list"
  lock_time :: u32

definition HashSize :: nat where
  "HashSize = 32"

definition MaxMessagePayload :: nat where
  "MaxMessagePayload = 1024 * 1024 * 32"

definition maxTxInPerMessage :: nat where
  "maxTxInPerMessage = MaxMessagePayload div (9 + HashSize) + 1"

definition maxTxOutPerMessage :: nat where
  "maxTxOutPerMessage = MaxMessagePayload div 9 + 1"

text \<open>\<open>wire.NewOutPoint\<close>.\<close>

definition new_out_point :: "bytes \<Rightarrow> u32 \<Rightarrow> outpoint" where
  "new_out_point h i = \<lparr>op_hash = h, op_index = i\<rparr>"

section \<open>Compact integers\<close>

definition write_var_int :: "u64 \<Rightarrow> bytes" where
  "write_var_int v =
     (if v < 0xfd then [ucast v]
      else if v \<le> 0xffff then 0xfd # put_word (ucast v :: u16)
      else if v \<le> 0xffffffff then 0xfe # put_word (ucast v :: u32)
      else 0xff # put_word v)"

definition read_var_int :: "u64 reader" where
  "read_var_int =
     rbind (read_word :: byte reader) (\<lambda>d.
       if d = 0xff then
         rbind (read_word :: u64 reader) (\<lambda>sv.
           if sv < 0x100000000 then rfail NonCanonicalVarInt else rreturn sv)
       else if d = 0xfe then
         rbind (read_word :: u32 reader) (\<lambda>sv.
           if ucast sv < (0x10000 :: u64) then rfail NonCanonicalVarInt else rreturn (ucast sv))
       else if d = 0xfd then
         rbind (read_word :: u16 reader) (\<lambda>sv.
           if ucast sv < (0xfd :: u64) then rfail NonCanonicalVarInt else rreturn (ucast sv))
       else rreturn (ucast d))"

definition var_int_serialize_size :: "u64 \<Rightarrow> nat" where
  "var_int_serialize_size v =
     (if v < 0xfd then 1 else if v \<le> 0xffff then 3 else if v \<le> 0xffffffff then 5 else 9)"

section \<open>Variable-length byte strings\<close>

definition write_var_bytes :: "bytes \<Rightarrow> bytes" where
  "write_var_bytes bs = write_var_int (of_nat (length bs)) @ bs"

text \<open>\<open>readScript\<close>: a length prefix larger than \<open>maxAllowed\<close> is refused before any
  allocation.\<close>

definition read_script :: "nat \<Rightarrow> bytes reader" where
  "read_script maxAllowed =
     rbind read_var_int (\<lambda>count.
       if unat count > maxAllowed then rfail TooManyItems else read_bytes (unat count))"

section \<open>Transactions\<close>

definition write_out_point :: "outpoint \<Rightarrow> bytes" where
  "write_out_point op = op_hash op @ put_word (op_index op)"

definition read_out_point :: "outpoint reader" where
  "read_out_point =
     rbind (read_bytes HashSize) (\<lambda>h. rbind read_word (\<lambda>i. rreturn (new_out_point h i)))"

definition write_tx_in :: "txin \<Rightarrow> bytes" where
  "write_tx_in ti =
     write_out_point (previous_out_point ti) @ write_var_bytes (signature_script ti)
     @ put_word (sequence ti)"

definition read_tx_in :: "txin reader" where
  "read_tx_in =
     rbind read_out_point (\<lambda>op.
     rbind (read_script MaxMessagePayload) (\<lambda>sig.
     rbind read_word (\<lambda>sq.
       rreturn \<lparr>previous_out_point = op, signature_script = sig, sequence = sq\<rparr>)))"

definition write_tx_out :: "txout \<Rightarrow> bytes" where
  "write_tx_out to = put_word (out_value to) @ write_var_bytes (pk_script to)"

definition read_tx_out :: "txout reader" where
  "read_tx_out =
     rbind read_word (\<lambda>v.
     rbind (read_script MaxMessagePayload) (\<lambda>pk.
       rreturn \<lparr>out_value = v, pk_script = pk\<rparr>))"

definition serialize :: "msgtx \<Rightarrow> bytes" where
  "serialize tx =
     put_word (version tx)
     @ write_var_int (of_nat (length (tx_in tx))) @ concat (map write_tx_in (tx_in tx))
     @ write_var_int (of_nat (length (tx_out tx))) @ concat (map write_tx_out (tx_out tx))
     @ put_word (lock_time tx)"

definition deserialize_no_witness :: "msgtx reader" where
  "deserialize_no_witness =
     rbind read_word (\<lambda>v.
     rbind read_var_int (\<lambda>cin.
       if unat cin > maxTxInPerMessage then rfail TooManyItems else
     rbind (read_list (unat cin) read_tx_in) (\<lambda>ins.
     rbind read_var_int (\<lambda>cout.
       if unat cout > maxTxOutPerMessage then rfail TooManyItems else
     rbind (read_list (unat cout) read_tx_out) (\<lambda>outs.
     rbind read_word (\<lambda>lt.
       rreturn \<lparr>version = v, tx_in = ins, tx_out = outs, lock_time = lt\<rparr>))))))"

text \<open>\<open>MsgTx.SerializeSize\<close> (no witness): computed without encoding.\<close>

definition tx_in_serialize_size :: "txin \<Rightarrow> nat" where
  "tx_in_serialize_size ti =
     40 + var_int_serialize_size (of_nat (length (signature_script ti)))
        + length (signature_script ti)"

definition tx_out_serialize_size :: "txout \<Rightarrow> nat" where
  "tx_out_serialize_size to =
     8 + var_int_serialize_size (of_nat (length (pk_script to))) + length (pk_script to)"

definition serialize_size :: "msgtx \<Rightarrow> nat" where
  "serialize_size tx =
     8 + var_int_serialize_size (of_nat (length (tx_in tx)))
       + var_int_serialize_size (of_nat (length (tx_out tx)))
       + sum_list (map tx_in_serialize_size (tx_in tx))
       + sum_list (map tx_out_serialize_size (tx_out tx))"

text \<open>The transactions the decoder accepts back: 32-byte hashes and the size limits of
  \<open>BtcDecode\<close>.\<close>

definition wf_tx :: "msgtx \<Rightarrow> bool" where
  "wf_tx tx \<longleftrightarrow>
     length (tx_in tx) \<le> maxTxInPerMessage \<and> length (tx_out tx) \<le> maxTxOutPerMessage
     \<and> list_all (\<lambda>ti. length (op_hash (previous_out_point ti)) = HashSize
                      \<and> length (signature_script ti) \<le> MaxMessagePayload) (tx_in tx)
     \<and> list_all (\<lambda>to. length (pk_script to) \<le> MaxMessagePayload) (tx_out tx)"

section \<open>Transaction hash and its display\<close>

text \<open>\<open>MsgTx.TxHash\<close> is \<open>chainhash.DoubleHashH\<close> of the encoding; the double SHA-256
  is a parameter of the model. \<open>Hash.String\<close> prints the bytes reversed, in hex.\<close>

definition tx_hash :: "(bytes \<Rightarrow> bytes) \<Rightarrow> msgtx \<Rightarrow> bytes" where
  "tx_hash sha256d tx = sha256d (serialize tx)"

definition hash_string :: "bytes \<Rightarrow> string" where
  "hash_string h = hex_encode (rev h)"

text \<open>\<open>chainhash.NewHashFromStr\<close> (\<open>Decode\<close>): at most 64 digits, an odd count is
  padded with a leading zero, the decoded bytes are right-aligned in 32 zero bytes and the
  whole is reversed.\<close>

definition new_hash_from_str :: "string \<Rightarrow> error + bytes" where
  "new_hash_from_str s =
     (if length s > 2 * HashSize then Inl ErrHashStrSize
      else ebind (hex_decode (if even (length s) then s else CHR ''0'' # s)) (\<lambda>bs.
        Inr (rev (replicate (HashSize - length bs) 0 @ bs))))"

section \<open>Round trips and sizes\<close>
lemma read_var_int_write_var_int [codec_simps]:
  "read_var_int (write_var_int v @ rest) = Inr (v, rest)"
proof -
  consider (a) "v < 0xfd" | (b) "\<not> v < 0xfd" "v \<le> 0xffff"
    | (c) "\<not> v \<le> 0xffff" "v \<le> 0xffffffff" | (d) "\<not> v \<le> 0xffffffff"
    by fastforce
  then show ?thesis
  proof cases
    case a
    then have "unat v < 2 ^ LENGTH(8)" by (simp add: word_less_nat_alt)
    then have u: "unat (ucast v :: byte) = unat v"
      by (rule unat_ucast_small)
    then have "(ucast v :: byte) \<noteq> 0xff \<and> (ucast v :: byte) \<noteq> 0xfe \<and> (ucast v :: byte) \<noteq> 0xfd"
      using a by (auto simp: word_less_nat_alt)
    moreover have "(ucast (ucast v :: byte) :: u64) = v"
      using \<open>unat v < _\<close> by (rule ucast_ucast_small)
    ultimately show ?thesis using a
      by (simp add: write_var_int_def read_var_int_def rbind_def)
  next
    case b
    then have s: "unat v < 2 ^ LENGTH(16)" by (simp add: word_le_nat_alt)
    have "\<not> (ucast (ucast v :: u16) :: u64) < 0xfd" using b ucast_ucast_small [OF s] by simp
    then show ?thesis using b ucast_ucast_small [OF s]
      by (simp add: write_var_int_def read_var_int_def rbind_def)
  next
    case c
    then have s: "unat v < 2 ^ LENGTH(32)" by (simp add: word_le_nat_alt)
    have "\<not> (ucast (ucast v :: u32) :: u64) < 0x10000"
      using c ucast_ucast_small [OF s] by (simp add: word_less_nat_alt word_le_nat_alt)
    moreover have "\<not> v < 0xfd" "\<not> v \<le> 0xffff" using c by (simp_all add: word_less_nat_alt word_le_nat_alt)
    ultimately show ?thesis using c ucast_ucast_small [OF s]
      by (simp add: write_var_int_def read_var_int_def rbind_def)
  next
    case d
    then have "\<not> v < 0x100000000" by (simp add: not_le) unat_arith
    moreover have "\<not> v < 0xfd" "\<not> v \<le> 0xffff" using d by (simp_all add: word_less_nat_alt word_le_nat_alt)
    ultimately show ?thesis using d
      by (simp add: write_var_int_def read_var_int_def rbind_def)
  qed
qed

lemma MaxMessagePayload_small: "MaxMessagePayload < 2 ^ LENGTH(64)"
  by (simp add: MaxMessagePayload_def)

lemma unat_length_small:
  "n \<le> MaxMessagePayload \<Longrightarrow> unat (of_nat n :: u64) = n"
  using MaxMessagePayload_small by (simp add: unat_of_nat_small)

lemma read_script_write_var_bytes [codec_simps]:
  "length bs \<le> maxAllowed \<Longrightarrow> maxAllowed \<le> MaxMessagePayload \<Longrightarrow>
   read_script maxAllowed (write_var_bytes bs @ rest) = Inr (bs, rest)"
  by (simp add: read_script_def write_var_bytes_def rbind_def read_var_int_write_var_int
      unat_length_small)

lemma read_out_point_write [codec_simps]:
  "length (op_hash op) = HashSize \<Longrightarrow> read_out_point (write_out_point op @ rest) = Inr (op, rest)"
  by (simp add: read_out_point_def write_out_point_def rbind_def new_out_point_def)

lemma read_tx_in_write [codec_simps]:
  "length (op_hash (previous_out_point ti)) = HashSize \<Longrightarrow>
   length (signature_script ti) \<le> MaxMessagePayload \<Longrightarrow>
   read_tx_in (write_tx_in ti @ rest) = Inr (ti, rest)"
  by (simp add: read_tx_in_def write_tx_in_def rbind_def read_out_point_write
      read_script_write_var_bytes)

lemma read_tx_out_write [codec_simps]:
  "length (pk_script to) \<le> MaxMessagePayload \<Longrightarrow>
   read_tx_out (write_tx_out to @ rest) = Inr (to, rest)"
  by (simp add: read_tx_out_def write_tx_out_def rbind_def read_script_write_var_bytes)

theorem deserialize_serialize:
  assumes "wf_tx tx"
  shows "deserialize_no_witness (serialize tx @ rest) = Inr (tx, rest)"
proof -
  have ins: "read_list (length (tx_in tx)) read_tx_in (concat (map write_tx_in (tx_in tx)) @ r)
             = Inr (tx_in tx, r)" for r
    using assms by (intro read_list_concat read_tx_in_write) (auto simp: wf_tx_def list_all_iff)
  have outs: "read_list (length (tx_out tx)) read_tx_out (concat (map write_tx_out (tx_out tx)) @ r)
             = Inr (tx_out tx, r)" for r
    using assms by (intro read_list_concat read_tx_out_write) (auto simp: wf_tx_def list_all_iff)
  have lin: "unat (of_nat (length (tx_in tx)) :: u64) = length (tx_in tx)"
   and lout: "unat (of_nat (length (tx_out tx)) :: u64) = length (tx_out tx)"
    using assms by (auto simp: wf_tx_def maxTxInPerMessage_def maxTxOutPerMessage_def
        HashSize_def intro!: unat_length_small) (simp_all add: MaxMessagePayload_def)
  show ?thesis
    using assms
    by (simp add: deserialize_no_witness_def serialize_def rbind_def read_var_int_write_var_int
        lin lout ins outs wf_tx_def)
qed

lemma length_write_var_int [simp]: "length (write_var_int v) = var_int_serialize_size v"
  by (simp add: write_var_int_def var_int_serialize_size_def)

lemma length_write_tx_in:
  "length (op_hash (previous_out_point ti)) = HashSize \<Longrightarrow>
   length (write_tx_in ti) = tx_in_serialize_size ti"
  by (simp add: write_tx_in_def tx_in_serialize_size_def write_out_point_def write_var_bytes_def)
    (simp add: HashSize_def)

lemma length_write_tx_out: "length (write_tx_out to) = tx_out_serialize_size to"
  by (simp add: write_tx_out_def tx_out_serialize_size_def write_var_bytes_def)

theorem serialize_size_correct:
  assumes "wf_tx tx"
  shows "serialize_size tx = length (serialize tx)"
proof -
  have "map (length \<circ> write_tx_in) (tx_in tx) = map tx_in_serialize_size (tx_in tx)"
    using assms by (auto simp: wf_tx_def list_all_iff length_write_tx_in)
  then have "length (concat (map write_tx_in (tx_in tx))) = sum_list (map tx_in_serialize_size (tx_in tx))"
    by (metis length_concat map_map)
  moreover have "length (concat (map write_tx_out (tx_out tx))) = sum_list (map tx_out_serialize_size (tx_out tx))"
    by (simp add: length_concat comp_def length_write_tx_out)
  ultimately show ?thesis
    by (simp add: serialize_def serialize_size_def)
qed

theorem new_hash_from_str_hash_string:
  assumes "length h = HashSize"
  shows "new_hash_from_str (hash_string h) = Inr h"
  using assms by (simp add: new_hash_from_str_def hash_string_def hex_decode_hex_encode HashSize_def)

theorem read_var_int_non_canonical:
  assumes "ucast w < (0xfd :: u64)"
  shows "read_var_int (0xfd # put_word (w :: u16) @ rest) = Inl NonCanonicalVarInt"
  using assms by (simp add: read_var_int_def rbind_def)

lemma read_var_int_non_canonical_witness:
  "ucast (0x10 :: u16) < (0xfd :: u64) \<and> read_var_int (0xfd # put_word (0x10 :: u16) @ []) = Inl NonCanonicalVarInt"
  using read_var_int_non_canonical [of "0x10 :: u16" "[]"] by simp

lemma length_new_hash_from_str:
  assumes "new_hash_from_str s = Inr h" shows "length h = HashSize"
proof -
  obtain bs where bs: "hex_decode_pairs (if even (length s) then s else CHR ''0'' # s) = Some bs"
    and h: "h = rev (replicate (HashSize - length bs) 0 @ bs)" and l: "length s \<le> 2 * HashSize"
    using assms by (auto simp: new_hash_from_str_def hex_decode_def split: if_splits option.splits)
  have "length bs \<le> HashSize"
    using hex_decode_pairs_length [OF bs] l by (simp split: if_splits)
  then show ?thesis using h by simp
qed

lemma var_int_serialize_size_small:
  assumes "n < 0xfd" shows "var_int_serialize_size (of_nat n) = 1"
proof -
  have "(of_nat n :: u64) < 0xfd"
    using assms by (simp add: word_less_nat_alt unat_of_nat)
  then show ?thesis by (simp add: var_int_serialize_size_def)
qed

end
