(* ===== verification/Script.thy ===== *)
theory Script
  imports Prelude "HOL-Library.Sublist"
begin

text \<open>
  Locking and unlocking scripts (spec section 4.1): btcd's \<open>txscript.ScriptBuilder\<close>
  (\<open>NewScriptBuilder\<close>, \<open>AddOp\<close>, \<open>AddData\<close>, \<open>Script\<close>), its script tokenizer (the
  \<open>parseScript\<close> that \<open>CalcSignatureHash\<close> runs first) with its inverse \<open>unparseScript\<close>
  and the edits the signature hash and the engine make to a parsed script
  (\<open>removeOpcode\<close>, \<open>removeOpcodeByData\<close>), \<open>PayToAddrScript\<close> behind
  \<open>getPkScript\<close> of \<open>src/main.go\<close> and the 2-of-3 multisig script that \<open>main\<close> builds
  at lines 67-74. The builder is a state machine over a record holding the script so far and
  the first error; a run of builder calls is a fold of \<open>builder_step\<close> over a list of
  \<open>builder_op\<close>s. The lemmas show the size invariant, that an error is sticky, that a
  built script tokenizes back into exactly the operations that built it (so data pushes
  keep their order), that unparsing inverts parsing and each parsing step consumes input,
  that every script \<open>getPkScript\<close> returns is signed as it is, and the concrete shape of
  the scripts the program builds.
\<close>

section \<open>Opcodes and limits\<close>

abbreviation OP_0 :: byte where "OP_0 \<equiv> 0x00"
abbreviation OP_DATA_1 :: byte where "OP_DATA_1 \<equiv> 0x01"
abbreviation OP_DATA_75 :: byte where "OP_DATA_75 \<equiv> 0x4b"
abbreviation OP_PUSHDATA1 :: byte where "OP_PUSHDATA1 \<equiv> 0x4c"
abbreviation OP_PUSHDATA2 :: byte where "OP_PUSHDATA2 \<equiv> 0x4d"
abbreviation OP_PUSHDATA4 :: byte where "OP_PUSHDATA4 \<equiv> 0x4e"
abbreviation OP_1NEGATE :: byte where "OP_1NEGATE \<equiv> 0x4f"
abbreviation OP_1 :: byte where "OP_1 \<equiv> 0x51"
abbreviation OP_2 :: byte where "OP_2 \<equiv> 0x52"
abbreviation OP_3 :: byte where "OP_3 \<equiv> 0x53"
abbreviation OP_16 :: byte where "OP_16 \<equiv> 0x60"
abbreviation OP_DUP :: byte where "OP_DUP \<equiv> 0x76"
abbreviation OP_EQUAL :: byte where "OP_EQUAL \<equiv> 0x87"
abbreviation OP_EQUALVERIFY :: byte where "OP_EQUALVERIFY \<equiv> 0x88"
abbreviation OP_HASH160 :: byte where "OP_HASH160 \<equiv> 0xa9"
abbreviation OP_CHECKSIG :: byte where "OP_CHECKSIG \<equiv> 0xac"
abbreviation OP_CHECKMULTISIG :: byte where "OP_CHECKMULTISIG \<equiv> 0xae"

definition MaxScriptSize :: nat where
  "MaxScriptSize = 10000"

definition MaxScriptElementSize :: nat where
  "MaxScriptElementSize = 520"

section \<open>The script builder\<close>

record script_builder =
  sb_script :: bytes
  sb_err :: "error option"

definition new_script_builder :: script_builder where
  "new_script_builder = \<lparr>sb_script = [], sb_err = None\<rparr>"

definition add_op :: "byte \<Rightarrow> script_builder \<Rightarrow> script_builder" where
  "add_op opcode b =
     (if sb_err b \<noteq> None then b
      else if length (sb_script b) + 1 > MaxScriptSize then b\<lparr>sb_err := Some ScriptTooLarge\<rparr>
      else b\<lparr>sb_script := sb_script b @ [opcode]\<rparr>)"

text \<open>\<open>canonicalDataSize\<close>: the bytes a push of \<open>data\<close> takes.\<close>

definition canonical_data_size :: "bytes \<Rightarrow> nat" where
  "canonical_data_size data =
     (let n = length data in
      if n = 0 then 1
      else if n = 1 \<and> data ! 0 \<le> 16 then 1
      else if n = 1 \<and> data ! 0 = 0x81 then 1
      else if n < unat OP_PUSHDATA1 then 1 + n
      else if n \<le> 0xff then 2 + n
      else if n \<le> 0xffff then 3 + n
      else 5 + n)"

text \<open>\<open>addData\<close>: the canonical (minimal) push of \<open>data\<close>; small numbers become the
  small-integer opcodes.\<close>

definition push_encoding :: "bytes \<Rightarrow> bytes" where
  "push_encoding data =
     (let n = length data in
      if n = 0 \<or> (n = 1 \<and> data ! 0 = 0) then [OP_0]
      else if n = 1 \<and> data ! 0 \<le> 16 then [(OP_1 - 1) + data ! 0]
      else if n = 1 \<and> data ! 0 = 0x81 then [OP_1NEGATE]
      else (if n < unat OP_PUSHDATA1 then [(OP_DATA_1 - 1) + of_nat n]
            else if n \<le> 0xff then [OP_PUSHDATA1, of_nat n]
            else if n \<le> 0xffff then OP_PUSHDATA2 # put_word (of_nat n :: u16)
            else OP_PUSHDATA4 # put_word (of_nat n :: u32)) @ data)"

definition add_data :: "bytes \<Rightarrow> script_builder \<Rightarrow> script_builder" where
  "add_data data b =
     (if sb_err b \<noteq> None then b
      else if length (sb_script b) + canonical_data_size data > MaxScriptSize
        then b\<lparr>sb_err := Some ScriptTooLarge\<rparr>
      else if length data > MaxScriptElementSize then b\<lparr>sb_err := Some InvalidPush\<rparr>
      else b\<lparr>sb_script := sb_script b @ push_encoding data\<rparr>)"

definition script :: "script_builder \<Rightarrow> error + bytes" where
  "script b = (case sb_err b of None \<Rightarrow> Inr (sb_script b) | Some e \<Rightarrow> Inl e)"

text \<open>A chain of builder calls, as a list of operations run in order.\<close>

datatype builder_op = AddOp byte | AddData bytes

fun builder_step :: "script_builder \<Rightarrow> builder_op \<Rightarrow> script_builder" where
  "builder_step b (AddOp opcode) = add_op opcode b"
| "builder_step b (AddData data) = add_data data b"

text \<open>The bytes one successful builder operation appends.\<close>

fun op_encoding :: "builder_op \<Rightarrow> bytes" where
  "op_encoding (AddOp opcode) = [opcode]"
| "op_encoding (AddData data) = push_encoding data"

text \<open>The builder's invariant: the script never exceeds \<open>MaxScriptSize\<close>, and the
  only errors it records are the two of its contract.\<close>

definition sb_inv :: "script_builder \<Rightarrow> bool" where
  "sb_inv b \<longleftrightarrow> length (sb_script b) \<le> MaxScriptSize
     \<and> sb_err b \<in> {None, Some ScriptTooLarge, Some InvalidPush}"

definition build :: "builder_op list \<Rightarrow> error + bytes" where
  "build ops = script (foldl builder_step new_script_builder ops)"

section \<open>The script tokenizer\<close>

text \<open>btcd's \<open>parsedOpcode\<close>: an opcode and the data it pushes.\<close>

datatype parsed_op = ParsedOp byte bytes

definition malformed :: "'a reader \<Rightarrow> 'a reader" where
  "malformed r bs = (case r bs of Inl e \<Rightarrow> Inl MalformedPush | Inr x \<Rightarrow> Inr x)"

definition parse_one :: "parsed_op reader" where
  "parse_one =
     rbind (read_word :: byte reader) (\<lambda>opcode.
       if OP_DATA_1 \<le> opcode \<and> opcode \<le> OP_DATA_75 then
         rbind (malformed (read_bytes (unat opcode))) (\<lambda>d. rreturn (ParsedOp opcode d))
       else if opcode = OP_PUSHDATA1 then
         rbind (malformed (read_word :: byte reader)) (\<lambda>n.
         rbind (malformed (read_bytes (unat n))) (\<lambda>d. rreturn (ParsedOp opcode d)))
       else if opcode = OP_PUSHDATA2 then
         rbind (malformed (read_word :: u16 reader)) (\<lambda>n.
         rbind (malformed (read_bytes (unat n))) (\<lambda>d. rreturn (ParsedOp opcode d)))
       else if opcode = OP_PUSHDATA4 then
         rbind (malformed (read_word :: u32 reader)) (\<lambda>n.
         rbind (malformed (read_bytes (unat n))) (\<lambda>d. rreturn (ParsedOp opcode d)))
       else rreturn (ParsedOp opcode []))"

function parse_script :: "bytes \<Rightarrow> error + parsed_op list" where
  "parse_script bs =
     (if bs = [] then Inr []
      else (case parse_one bs of
              Inl e \<Rightarrow> Inl e
            | Inr (p, rest) \<Rightarrow>
                (case parse_script rest of Inl e \<Rightarrow> Inl e | Inr ps \<Rightarrow> Inr (p # ps))))"
  by pat_completeness auto
termination
  by (relation "measure length")
    (auto simp: parse_one_def rbind_def read_word_def read_bytes_def malformed_def
      split: if_splits sum.splits prod.splits)

declare parse_script.simps [simp del]

text \<open>The value a parsed push leaves on the stack (\<open>None\<close> for a non-push opcode).\<close>

fun push_value :: "parsed_op \<Rightarrow> bytes option" where
  "push_value (ParsedOp opcode d) =
     (if opcode = OP_0 then Some []
      else if opcode \<le> OP_PUSHDATA4 then Some d
      else if opcode = OP_1NEGATE then Some [0x81]
      else if OP_1 \<le> opcode \<and> opcode \<le> OP_16 then Some [opcode - (OP_1 - 1)]
      else None)"

text \<open>The token a builder operation is expected to produce; data pushes of a single small
  number collapse to the number's opcode, and a push of \<open>[0]\<close> to \<open>OP_0\<close>.\<close>

definition minimal_data :: "bytes \<Rightarrow> bytes" where
  "minimal_data d = (if d = [0] then [] else d)"

fun builder_token :: "builder_op \<Rightarrow> parsed_op" where
  "builder_token (AddOp opcode) = ParsedOp opcode []"
| "builder_token (AddData d) =
     (let n = length d in
      if n = 0 \<or> (n = 1 \<and> d ! 0 = 0) then ParsedOp OP_0 []
      else if n = 1 \<and> d ! 0 \<le> 16 then ParsedOp ((OP_1 - 1) + d ! 0) []
      else if n = 1 \<and> d ! 0 = 0x81 then ParsedOp OP_1NEGATE []
      else if n < unat OP_PUSHDATA1 then ParsedOp ((OP_DATA_1 - 1) + of_nat n) d
      else if n \<le> 0xff then ParsedOp OP_PUSHDATA1 d
      else if n \<le> 0xffff then ParsedOp OP_PUSHDATA2 d
      else ParsedOp OP_PUSHDATA4 d)"

text \<open>An \<open>AddOp\<close> the tokenizer reads back as itself: not a data-push opcode.\<close>

fun plain_op :: "builder_op \<Rightarrow> bool" where
  "plain_op (AddOp opcode) = (opcode = OP_0 \<or> OP_PUSHDATA4 < opcode)"
| "plain_op (AddData d) = True"

section \<open>Unparsing and signature removal\<close>

abbreviation OP_CODESEPARATOR :: byte where "OP_CODESEPARATOR \<equiv> 0xab"

text \<open>\<open>parsedOpcode.bytes\<close>: the opcode, the length prefix of a \<open>PUSHDATA\<close> opcode, the
  data. An operation whose data does not fit its opcode is \<open>ErrInternal\<close> (\<open>None\<close>); a
  length that does not fit the prefix is caught by the final length comparison, since the
  prefix is written truncated.\<close>

fun unparse_op :: "parsed_op \<Rightarrow> bytes option" where
  "unparse_op (ParsedOp opcode d) =
     (if OP_DATA_1 \<le> opcode \<and> opcode \<le> OP_DATA_75 then
        (if length d = unat opcode then Some (opcode # d) else None)
      else if opcode = OP_PUSHDATA1 then
        (if length d < 2 ^ 8 then Some (opcode # put_word (of_nat (length d) :: byte) @ d) else None)
      else if opcode = OP_PUSHDATA2 then
        (if length d < 2 ^ 16 then Some (opcode # put_word (of_nat (length d) :: u16) @ d) else None)
      else if opcode = OP_PUSHDATA4 then
        (if length d < 2 ^ 32 then Some (opcode # put_word (of_nat (length d) :: u32) @ d) else None)
      else if d = [] then Some [opcode] else None)"

text \<open>\<open>unparseScript\<close>: the concatenation, or \<open>nil\<close> with the first error. The only caller
  modelled, \<open>calcSignatureHash\<close>, discards the error and uses the \<open>nil\<close> script.\<close>

definition unparse_script :: "parsed_op list \<Rightarrow> bytes" where
  "unparse_script ops = (case those (map unparse_op ops) of None \<Rightarrow> [] | Some bss \<Rightarrow> concat bss)"

text \<open>\<open>removeOpcode\<close>: drop every operation with the given opcode.\<close>

definition remove_opcode :: "parsed_op list \<Rightarrow> byte \<Rightarrow> parsed_op list" where
  "remove_opcode pkscript opcode = filter (\<lambda>p. case p of ParsedOp v _ \<Rightarrow> v \<noteq> opcode) pkscript"

text \<open>\<open>canonicalPush\<close>: a push made with the smallest opcode for its data (non-push opcodes
  count as canonical).\<close>

fun canonical_push :: "parsed_op \<Rightarrow> bool" where
  "canonical_push (ParsedOp opcode d) =
     (let dataLen = length d in
      if opcode > OP_16 then True
      else if opcode < OP_PUSHDATA1 \<and> opcode > OP_0 \<and> (dataLen = 1 \<and> d ! 0 \<le> 16) then False
      else if opcode = OP_PUSHDATA1 \<and> dataLen < unat OP_PUSHDATA1 then False
      else if opcode = OP_PUSHDATA2 \<and> dataLen \<le> 0xff then False
      else if opcode = OP_PUSHDATA4 \<and> dataLen \<le> 0xffff then False
      else True)"

text \<open>\<open>removeOpcodeByData\<close>: drop every canonical push whose data contains the given bytes
  (\<open>bytes.Contains\<close>, a contiguous occurrence: \<open>sublist\<close> of \<open>HOL-Library.Sublist\<close>).\<close>

fun pop_data :: "parsed_op \<Rightarrow> bytes" where
  "pop_data (ParsedOp _ d) = d"

definition remove_opcode_by_data :: "parsed_op list \<Rightarrow> bytes \<Rightarrow> parsed_op list" where
  "remove_opcode_by_data pkscript data =
     filter (\<lambda>p. \<not> canonical_push p \<or> \<not> sublist data (pop_data p)) pkscript"

section \<open>Payment scripts\<close>

text \<open>The decoded address kinds of \<open>btcutil\<close> that \<open>PayToAddrScript\<close> distinguishes.\<close>

datatype address =
    AddressPubKeyHash bytes
  | AddressScriptHash bytes
  | AddressPubKey bytes
  | AddressWitnessPubKeyHash bytes
  | AddressWitnessScriptHash bytes
  | AddressOther

fun pay_to_addr_script :: "address \<Rightarrow> error + bytes" where
  "pay_to_addr_script (AddressPubKeyHash h) =
     build [AddOp OP_DUP, AddOp OP_HASH160, AddData h, AddOp OP_EQUALVERIFY, AddOp OP_CHECKSIG]"
| "pay_to_addr_script (AddressScriptHash h) = build [AddOp OP_HASH160, AddData h, AddOp OP_EQUAL]"
| "pay_to_addr_script (AddressPubKey pk) = build [AddData pk, AddOp OP_CHECKSIG]"
| "pay_to_addr_script (AddressWitnessPubKeyHash h) = build [AddOp OP_0, AddData h]"
| "pay_to_addr_script (AddressWitnessScriptHash h) = build [AddOp OP_0, AddData h]"
| "pay_to_addr_script AddressOther = Inl UnsupportedAddress"

text \<open>\<open>getPkScript\<close> (main.go lines 93-100): decode the address (an external
  collaborator, a parameter here) and build its payment script.\<close>

definition get_pk_script :: "(string \<Rightarrow> error + address) \<Rightarrow> string \<Rightarrow> error + bytes" where
  "get_pk_script decode_address addr = ebind (decode_address addr) pay_to_addr_script"

text \<open>main.go lines 70-71: \<open>builder.AddOp(OP_2).AddData(pk1).AddData(pk2).AddData(pk3)
  .AddOp(OP_3).AddOp(OP_CHECKMULTISIG).Script()\<close>.\<close>

definition multisig_script :: "bytes \<Rightarrow> bytes \<Rightarrow> bytes \<Rightarrow> error + bytes" where
  "multisig_script pk1 pk2 pk3 =
     script (add_op OP_CHECKMULTISIG (add_op OP_3 (add_data pk3 (add_data pk2
       (add_data pk1 (add_op OP_2 new_script_builder))))))"

section \<open>Lemmas\<close>

lemma parse_script_Nil: "parse_script [] = Inr []"
  by (simp add: parse_script.simps)

lemma parse_script_Cons:
  "parse_script (b # bs) =
     (case parse_one (b # bs) of
        Inl e \<Rightarrow> Inl e
      | Inr (p, rest) \<Rightarrow> (case parse_script rest of Inl e \<Rightarrow> Inl e | Inr ps \<Rightarrow> Inr (p # ps)))"
  by (simp add: parse_script.simps [of "b # bs"])

lemma length_push_encoding: "length (push_encoding d) = canonical_data_size d"
  by (simp add: push_encoding_def canonical_data_size_def Let_def)

lemma builder_step_inv: "sb_inv b \<Longrightarrow> sb_inv (builder_step b x)"
  by (cases x) (auto simp: sb_inv_def add_op_def add_data_def length_push_encoding)

lemma foldl_builder_inv: "sb_inv b \<Longrightarrow> sb_inv (foldl builder_step b ops)"
  by (induction ops arbitrary: b) (auto intro: builder_step_inv)

lemma builder_step_err: "sb_err b \<noteq> None \<Longrightarrow> builder_step b x = b"
  by (cases x) (auto simp: add_op_def add_data_def)

lemma foldl_builder_err: "sb_err b \<noteq> None \<Longrightarrow> foldl builder_step b ops = b"
  by (induction ops) (auto simp: builder_step_err)

lemma builder_step_ok:
  "sb_err (builder_step b x) = None \<Longrightarrow>
   sb_err b = None \<and> sb_script (builder_step b x) = sb_script b @ op_encoding x
   \<and> (\<forall>d. x = AddData d \<longrightarrow> length d \<le> MaxScriptElementSize)"
  by (cases x) (auto simp: add_op_def add_data_def split: if_splits)

lemma foldl_builder_ok:
  "sb_err (foldl builder_step b ops) = None \<Longrightarrow>
   sb_err b = None \<and> sb_script (foldl builder_step b ops) = sb_script b @ concat (map op_encoding ops)
   \<and> (\<forall>d. AddData d \<in> set ops \<longrightarrow> length d \<le> MaxScriptElementSize)"
proof (induction ops arbitrary: b)
  case Nil
  then show ?case by simp
next
  case (Cons x ops)
  from Cons.prems have "sb_err (foldl builder_step (builder_step b x) ops) = None" by simp
  with Cons.IH have ih: "sb_err (builder_step b x) = None"
      "sb_script (foldl builder_step (builder_step b x) ops)
         = sb_script (builder_step b x) @ concat (map op_encoding ops)"
      "\<forall>d. AddData d \<in> set ops \<longrightarrow> length d \<le> MaxScriptElementSize" by blast+
  from builder_step_ok [OF ih(1)] ih(2,3) show ?case by auto
qed

lemma malformed_Inr [simp]: "r bs = Inr x \<Longrightarrow> malformed r bs = Inr x"
  by (simp add: malformed_def)

lemma parse_one_plain:
  assumes "opcode = OP_0 \<or> OP_PUSHDATA4 < opcode"
  shows "parse_one (opcode # rest) = Inr (ParsedOp opcode [], rest)"
proof -
  have "\<not> (OP_DATA_1 \<le> opcode \<and> opcode \<le> OP_DATA_75)"
    and "opcode \<noteq> OP_PUSHDATA1" "opcode \<noteq> OP_PUSHDATA2" "opcode \<noteq> OP_PUSHDATA4"
    using assms by (auto simp: word_le_nat_alt word_less_nat_alt)
  then show ?thesis by (auto simp: parse_one_def rbind_def)
qed

lemma parse_one_short:
  assumes "0 < length d" "length d < 76"
  shows "parse_one (((OP_DATA_1 - 1) + of_nat (length d)) # d @ rest)
         = Inr (ParsedOp ((OP_DATA_1 - 1) + of_nat (length d)) d, rest)"
proof -
  have u: "unat (of_nat (length d) :: byte) = length d" using assms by (simp add: unat_of_nat)
  have "OP_DATA_1 \<le> (of_nat (length d) :: byte) \<and> (of_nat (length d) :: byte) \<le> OP_DATA_75"
    using u assms by (simp add: word_le_nat_alt Suc_le_eq)
  then show ?thesis using u by (simp add: parse_one_def rbind_def)
qed

lemma parse_one_push:
  assumes "length d \<le> MaxScriptElementSize"
  shows "parse_one (push_encoding d @ rest) = Inr (builder_token (AddData d), rest)"
proof (cases "length d \<le> 1")
  case True
  then consider "d = []" | b where "d = [b]"
    by (cases d) auto
  then show ?thesis
  proof cases
    case 1
    then show ?thesis by (simp add: push_encoding_def parse_one_plain)
  next
    case (2 b)
    consider "b = 0" | "b \<noteq> 0" "b \<le> 16" | "b = 0x81" | "16 < b" "b \<noteq> 0x81"
      by fastforce
    then show ?thesis
    proof cases
      case 1
      then show ?thesis using 2 by (simp add: push_encoding_def parse_one_plain)
    next
      case 2: 2
      have "unat b \<le> 16" using 2 by (simp add: word_le_nat_alt)
      then have "unat ((OP_1 - 1) + b) = 80 + unat b" by (simp add: unat_word_ariths)
      then have "OP_PUSHDATA4 < (OP_1 - 1) + b" by (simp add: word_less_nat_alt)
      then show ?thesis using \<open>d = [b]\<close> 2 by (simp add: push_encoding_def parse_one_plain)
    next
      case 3
      then show ?thesis using 2 by (simp add: push_encoding_def parse_one_plain)
    next
      case 4
      then have "\<not> b \<le> 16" "b \<noteq> 0" by (auto simp: word_le_nat_alt word_less_nat_alt)
      then show ?thesis using 2 4 parse_one_short [of "[b]" rest] by (simp add: push_encoding_def)
    qed
  qed
next
  case False
  consider "length d < 76" | "76 \<le> length d" "length d \<le> 255" | "255 < length d"
    by linarith
  then show ?thesis
  proof cases
    case 1
    have "d \<noteq> []" using False by auto
    then show ?thesis using 1 False parse_one_short [of d rest]
      by (simp add: push_encoding_def Let_def)
  next
    case 2
    have u: "unat (of_nat (length d) :: byte) = length d" using 2 by (simp add: unat_of_nat)
    then show ?thesis using 2 by (simp add: push_encoding_def parse_one_def rbind_def Let_def)
  next
    case 3
    have l: "length d \<le> 520" using assms by (simp add: MaxScriptElementSize_def)
    have u: "unat (of_nat (length d) :: u16) = length d" using l by (simp add: unat_of_nat)
    then show ?thesis using 3 l by (simp add: push_encoding_def parse_one_def rbind_def Let_def)
  qed
qed

lemma push_encoding_nonempty [simp]: "push_encoding d \<noteq> []"
  by (simp add: push_encoding_def Let_def)

lemma parse_one_op_encoding:
  assumes "plain_op x" "\<And>d. x = AddData d \<Longrightarrow> length d \<le> MaxScriptElementSize"
  shows "parse_one (op_encoding x @ rest) = Inr (builder_token x, rest)"
  using assms by (cases x) (auto simp: parse_one_plain parse_one_push)

lemma parse_script_concat:
  assumes "list_all plain_op ops" "\<forall>d. AddData d \<in> set ops \<longrightarrow> length d \<le> MaxScriptElementSize"
  shows "parse_script (concat (map op_encoding ops)) = Inr (map builder_token ops)"
  using assms
proof (induction ops)
  case Nil
  then show ?case by (simp add: parse_script.simps)
next
  case (Cons x ops)
  have ne: "op_encoding x \<noteq> []" by (cases x) simp_all
  have "parse_one (op_encoding x @ concat (map op_encoding ops))
        = Inr (builder_token x, concat (map op_encoding ops))"
    using Cons.prems by (intro parse_one_op_encoding) auto
  with ne Cons show ?case by (subst parse_script.simps) simp
qed

lemma build_Inr:
  assumes "build ops = Inr s"
  shows "s = concat (map op_encoding ops)"
    and "\<forall>d. AddData d \<in> set ops \<longrightarrow> length d \<le> MaxScriptElementSize"
proof -
  have "sb_err (foldl builder_step new_script_builder ops) = None"
   and "s = sb_script (foldl builder_step new_script_builder ops)"
    using assms by (auto simp: build_def script_def split: option.splits)
  then show "s = concat (map op_encoding ops)"
    and "\<forall>d. AddData d \<in> set ops \<longrightarrow> length d \<le> MaxScriptElementSize"
    using foldl_builder_ok by (fastforce simp: new_script_builder_def)+
qed

lemma build_tokenizes:
  assumes "build ops = Inr s" and "list_all plain_op ops"
  shows "parse_script s = Inr (map builder_token ops)"
  using build_Inr [OF assms(1)] assms(2) parse_script_concat by simp

lemma malformed_Inr_iff [simp]: "malformed r bs = Inr x \<longleftrightarrow> r bs = Inr x"
  by (simp add: malformed_def split: sum.splits)

lemma parse_one_Inr:
  assumes "parse_one bs = Inr (p, rest)"
  shows "\<exists>u. unparse_op p = Some u \<and> bs = u @ rest"
proof -
  obtain opcode r where o: "read_word bs = Inr (opcode :: byte, r)"
    and k: "(if OP_DATA_1 \<le> opcode \<and> opcode \<le> OP_DATA_75 then
         rbind (malformed (read_bytes (unat opcode))) (\<lambda>d. rreturn (ParsedOp opcode d))
       else if opcode = OP_PUSHDATA1 then
         rbind (malformed (read_word :: byte reader)) (\<lambda>n.
         rbind (malformed (read_bytes (unat n))) (\<lambda>d. rreturn (ParsedOp opcode d)))
       else if opcode = OP_PUSHDATA2 then
         rbind (malformed (read_word :: u16 reader)) (\<lambda>n.
         rbind (malformed (read_bytes (unat n))) (\<lambda>d. rreturn (ParsedOp opcode d)))
       else if opcode = OP_PUSHDATA4 then
         rbind (malformed (read_word :: u32 reader)) (\<lambda>n.
         rbind (malformed (read_bytes (unat n))) (\<lambda>d. rreturn (ParsedOp opcode d)))
       else rreturn (ParsedOp opcode [])) r = Inr (p, rest)"
    using assms unfolding parse_one_def rbind_Inr_iff by blast
  have bs: "bs = opcode # r" using read_word_Inr [OF _ o] by (simp add: put_word_def)
  show ?thesis
    using k bs unsigned_less [where 'b = 8 and 'a = nat] unsigned_less [where 'b = 16 and 'a = nat]
      unsigned_less [where 'b = 32 and 'a = nat]
    by (auto simp: rbind_Inr_iff dest!: read_bytes_Inr read_word_Inr [rotated] split: if_splits)
qed

lemma parse_script_those:
  "parse_script s = Inr ops \<Longrightarrow> \<exists>bss. those (map unparse_op ops) = Some bss \<and> concat bss = s"
proof (induction s arbitrary: ops rule: parse_script.induct)
  case (1 bs)
  show ?case
  proof (cases "bs = []")
    case True
    then show ?thesis using "1.prems" by (simp add: parse_script_Nil)
  next
    case False
    then obtain p rest ps where p1: "parse_one bs = Inr (p, rest)"
      and ps: "parse_script rest = Inr ps" and ops: "ops = p # ps"
      using "1.prems" by (auto simp: parse_script.simps [of bs] split: sum.splits)
    obtain u where u: "unparse_op p = Some u" "bs = u @ rest" using parse_one_Inr [OF p1] by blast
    obtain bss where "those (map unparse_op ps) = Some bss" "concat bss = rest"
      using "1.IH" [OF False p1 refl ps] by blast
    then show ?thesis using ops u by simp
  qed
qed

lemma unparse_op_nonempty: "unparse_op p = Some u \<Longrightarrow> u \<noteq> []"
  by (cases p) (auto split: if_splits)

lemma builder_token_data_opcode:
  "builder_token (AddData d) = ParsedOp v x \<Longrightarrow> v \<le> OP_16"
proof -
  have "(OP_1 - 1) + b \<le> OP_16" if "b \<le> 16" for b :: byte
  proof -
    have "unat b \<le> 16" using that by (simp add: word_le_nat_alt)
    then have "unat ((OP_1 - 1) + b) = 80 + unat b" by (simp add: unat_word_ariths)
    then show ?thesis using \<open>unat b \<le> 16\<close> by (simp add: word_le_nat_alt)
  qed
  moreover have "(OP_DATA_1 - 1) + of_nat n \<le> OP_16" if "n < 76" for n
  proof -
    have "unat ((OP_DATA_1 - 1) + (of_nat n :: byte)) = n" using that by (simp add: unat_word_ariths unat_of_nat)
    then show ?thesis using that by (simp add: word_le_nat_alt)
  qed
  ultimately show "builder_token (AddData d) = ParsedOp v x \<Longrightarrow> v \<le> OP_16"
    by (auto simp: Let_def split: if_splits)
qed

lemma remove_codesep_builder:
  "AddOp OP_CODESEPARATOR \<notin> set ops
   \<Longrightarrow> remove_opcode (map builder_token ops) OP_CODESEPARATOR = map builder_token ops"
proof (induction ops)
  case (Cons x ops)
  have "v \<noteq> OP_CODESEPARATOR" if b: "builder_token x = ParsedOp v d" for v d
  proof (cases x)
    case (AddOp o)
    then show ?thesis using b Cons.prems by auto
  next
    case (AddData e)
    then have "v \<le> OP_16" using b builder_token_data_opcode by blast
    then show ?thesis by auto
  qed
  then have "case builder_token x of ParsedOp v _ \<Rightarrow> v \<noteq> OP_CODESEPARATOR"
    by (cases "builder_token x") simp
  then show ?case using Cons by (simp add: remove_opcode_def)
qed (simp add: remove_opcode_def)

lemma pop_data_builder_token:
  "pop_data (builder_token (AddData d)) = [] \<or> pop_data (builder_token (AddData d)) = d"
  by (simp add: Let_def)

lemma remove_opcode_by_data_short:
  "(\<forall>p\<in>set ops. length (pop_data p) < length data) \<Longrightarrow> remove_opcode_by_data ops data = ops"
  unfolding remove_opcode_by_data_def by (rule filter_True) (force dest: sublist_length_le)

lemma build_unparse:
  "build ops = Inr s \<Longrightarrow> list_all plain_op ops \<Longrightarrow> unparse_script (map builder_token ops) = s"
  using parse_script_those [of s "map builder_token ops"] build_tokenizes [of ops s]
  by (auto simp: unparse_script_def)

lemma builder_script_signed:
  assumes "build ops = Inr s" "list_all plain_op ops" "AddOp OP_CODESEPARATOR \<notin> set ops"
  shows "\<exists>toks. parse_script s = Inr toks \<and> unparse_script (remove_opcode toks OP_CODESEPARATOR) = s"
  using build_tokenizes [OF assms(1,2)] build_unparse [OF assms(1,2)] remove_codesep_builder [OF assms(3)]
  by simp

lemma pay_to_addr_script_ops:
  "pay_to_addr_script a = Inr s
   \<Longrightarrow> \<exists>ops. build ops = Inr s \<and> list_all plain_op ops \<and> AddOp OP_CODESEPARATOR \<notin> set ops"
  by (cases a) (auto intro!: exI)

lemma push_value_builder_token:
  assumes "length d \<le> MaxScriptElementSize"
  shows "push_value (builder_token (AddData d)) = Some (minimal_data d)"
proof (cases "length d \<le> 1")
  case True
  then consider "d = []" | b where "d = [b]"
    by (cases d) auto
  then show ?thesis
  proof cases
    case 1
    then show ?thesis by (simp add: minimal_data_def)
  next
    case (2 b)
    consider "b = 0" | "b \<noteq> 0" "b \<le> 16" | "b = 0x81" | "16 < b" "b \<noteq> 0x81"
      by fastforce
    then show ?thesis
    proof cases
      case 1
      then show ?thesis using 2 by (simp add: minimal_data_def)
    next
      case 2: 2
      have "unat b \<le> 16" "0 < unat b" using 2 by (simp_all add: word_le_nat_alt unat_gt_0)
      then have u: "unat ((OP_1 - 1) + b) = 80 + unat b" by (simp add: unat_word_ariths)
      have "\<not> (OP_1 - 1) + b \<le> OP_PUSHDATA4" "OP_1 \<le> (OP_1 - 1) + b" "(OP_1 - 1) + b \<le> OP_16"
        using u \<open>unat b \<le> 16\<close> \<open>0 < unat b\<close> by (simp_all add: word_le_nat_alt)
      moreover have "(OP_1 - 1) + b \<noteq> OP_0" "(OP_1 - 1) + b \<noteq> OP_1NEGATE"
        using u \<open>0 < unat b\<close> by (simp_all only: word_unat_eq_iff) simp_all
      ultimately show ?thesis using \<open>d = [b]\<close> 2 by (simp add: minimal_data_def)
    next
      case 3
      then show ?thesis using 2 by (simp add: minimal_data_def)
    next
      case 4
      then have "\<not> b \<le> 16" "b \<noteq> 0" by (auto simp: word_le_nat_alt word_less_nat_alt)
      then show ?thesis using 2 4 by (simp add: minimal_data_def)
    qed
  qed
next
  case False
  then have "d \<noteq> [0]" "d \<noteq> []" by auto
  have l: "length d \<le> 520" using assms by (simp add: MaxScriptElementSize_def)
  have "(of_nat (length d) :: byte) \<noteq> 0 \<and> (of_nat (length d) :: byte) \<le> OP_PUSHDATA4"
    if "length d < 76"
  proof -
    have u: "unat (of_nat (length d) :: byte) = length d" using that by (simp add: unat_of_nat)
    then have "(of_nat (length d) :: byte) \<noteq> 0" using False
      by (simp only: word_unat_eq_iff) auto
    moreover have "(of_nat (length d) :: byte) \<le> OP_PUSHDATA4"
      using u that by (simp add: word_le_nat_alt)
    ultimately show ?thesis ..
  qed
  then show ?thesis using False l \<open>d \<noteq> [0]\<close>
    by (auto simp: minimal_data_def Let_def)
qed

lemma multisig_script_build:
  "multisig_script pk1 pk2 pk3 =
   build [AddOp OP_2, AddData pk1, AddData pk2, AddData pk3, AddOp OP_3, AddOp OP_CHECKMULTISIG]"
  by (simp add: multisig_script_def build_def)

lemma push_encoding_33: "length pk = 33 \<Longrightarrow> push_encoding pk = 0x21 # pk"
  by (simp add: push_encoding_def)

lemma multisig_script_length_33:
  assumes "multisig_script pk1 pk2 pk3 = Inr ms" "length pk1 = 33" "length pk2 = 33" "length pk3 = 33"
  shows "length ms = 105"
  using build_Inr(1) [OF assms(1) [unfolded multisig_script_build]] assms(2-4) by (simp add: push_encoding_33)

text \<open>C18. With three 33-byte (compressed) public keys, the script of main.go lines 70-71
  is exactly \<open>OP_2 <pk1> <pk2> <pk3> OP_3 OP_CHECKMULTISIG\<close>, each key behind a one-byte
  push of 33.\<close>

theorem multisig_script_bytes:
  assumes "length pk1 = 33" "length pk2 = 33" "length pk3 = 33"
  shows "multisig_script pk1 pk2 pk3 =
         Inr ([OP_2, 0x21] @ pk1 @ [0x21] @ pk2 @ [0x21] @ pk3 @ [OP_3, OP_CHECKMULTISIG])"
  using assms
  by (simp add: multisig_script_def script_def new_script_builder_def add_op_def add_data_def
      canonical_data_size_def push_encoding_33 MaxScriptSize_def MaxScriptElementSize_def)

text \<open>C11. Whenever the multisig script of main.go lines 70-71 is built, it tokenizes to
  the pushes 2, \<open>pk1\<close>, \<open>pk2\<close>, \<open>pk3\<close>, 3 and one non-push opcode, in that order:
  the keys keep the order the code gives them (they are not sorted).\<close>

theorem multisig_script_key_order:
  assumes "multisig_script pk1 pk2 pk3 = Inr s"
  shows "\<exists>toks. parse_script s = Inr toks \<and> map push_value toks =
         [Some [2], Some (minimal_data pk1), Some (minimal_data pk2), Some (minimal_data pk3),
          Some [3], None]"
proof -
  let ?ops = "[AddOp OP_2, AddData pk1, AddData pk2, AddData pk3, AddOp OP_3, AddOp OP_CHECKMULTISIG]"
  have b: "build ?ops = Inr s" using assms by (simp add: multisig_script_build)
  then have p: "parse_script s = Inr (map builder_token ?ops)"
    by (rule build_tokenizes) simp
  have "length pk1 \<le> MaxScriptElementSize" "length pk2 \<le> MaxScriptElementSize"
    "length pk3 \<le> MaxScriptElementSize"
    using build_Inr(2) [OF b] by simp_all
  then show ?thesis using p by (simp add: push_value_builder_token del: builder_token.simps(2))
qed

lemma pay_to_pubkey_hash_script:
  assumes "length h = 20"
  shows "pay_to_addr_script (AddressPubKeyHash h) = Inr ([OP_DUP, OP_HASH160, 0x14] @ h @ [OP_EQUALVERIFY, OP_CHECKSIG])"
  using assms
  by (simp add: build_def script_def new_script_builder_def add_op_def add_data_def
      canonical_data_size_def push_encoding_def MaxScriptSize_def MaxScriptElementSize_def)

lemma add_data_oversized:
  assumes "MaxScriptElementSize < length d"
  shows "build [AddData d] =
         Inl (if MaxScriptSize < canonical_data_size d then ScriptTooLarge else InvalidPush)"
  using assms by (simp add: build_def script_def new_script_builder_def add_data_def)

lemma build_length: "build ops = Inr s \<Longrightarrow> length s \<le> MaxScriptSize"
  using foldl_builder_inv [of new_script_builder ops]
  by (auto simp: build_def script_def sb_inv_def new_script_builder_def split: option.splits)

lemma build_error_kinds: "build ops = Inl e \<Longrightarrow> e = ScriptTooLarge \<or> e = InvalidPush"
  using foldl_builder_inv [of new_script_builder ops]
  by (auto simp: build_def script_def sb_inv_def new_script_builder_def split: option.splits)

lemma pay_to_addr_script_length: "pay_to_addr_script a = Inr s \<Longrightarrow> length s \<le> MaxScriptSize"
  by (cases a) (auto intro: build_length)

lemma multisig_script_length: "multisig_script pk1 pk2 pk3 = Inr s \<Longrightarrow> length s \<le> MaxScriptSize"
  by (simp add: multisig_script_build build_length)

lemma multisig_script_ok:
  assumes "length pk1 = 33" "length pk2 = 33" "length pk3 = 33"
  shows "\<exists>s. multisig_script pk1 pk2 pk3 = Inr s"
  using assms
  by (simp add: multisig_script_def script_def new_script_builder_def add_op_def add_data_def
      canonical_data_size_def length_push_encoding MaxScriptSize_def MaxScriptElementSize_def)

lemma pkh_script_parses:
  assumes "length a = 20"
  shows "\<exists>toks. pay_to_addr_script (AddressPubKeyHash a) = Inr ([OP_DUP, OP_HASH160, 0x14] @ a @ [OP_EQUALVERIFY, OP_CHECKSIG])
           \<and> parse_script ([OP_DUP, OP_HASH160, 0x14] @ a @ [OP_EQUALVERIFY, OP_CHECKSIG]) = Inr toks"
proof -
  have b: "pay_to_addr_script (AddressPubKeyHash a) = Inr ([OP_DUP, OP_HASH160, 0x14] @ a @ [OP_EQUALVERIFY, OP_CHECKSIG])"
    using assms by (rule pay_to_pubkey_hash_script)
  then have "parse_script ([OP_DUP, OP_HASH160, 0x14] @ a @ [OP_EQUALVERIFY, OP_CHECKSIG])
      = Inr (map builder_token [AddOp OP_DUP, AddOp OP_HASH160, AddData a, AddOp OP_EQUALVERIFY, AddOp OP_CHECKSIG])"
    by (intro build_tokenizes) simp_all
  with b show ?thesis by blast
qed

lemma multisig_script_bytes_witness:
  "multisig_script (replicate 33 2) (replicate 33 3) (replicate 33 4) =
   Inr ([OP_2, 0x21] @ replicate 33 2 @ [0x21] @ replicate 33 3 @ [0x21] @ replicate 33 4 @ [OP_3, OP_CHECKMULTISIG])"
  by (rule multisig_script_bytes) simp_all

lemma multisig_script_key_order_witness:
  "\<exists>s toks. multisig_script (replicate 33 2) (replicate 33 3) (replicate 33 4) = Inr s
     \<and> parse_script s = Inr toks \<and> map push_value toks =
         [Some [2], Some (minimal_data (replicate 33 2)), Some (minimal_data (replicate 33 3)),
          Some (minimal_data (replicate 33 4)), Some [3], None]"
proof -
  obtain s where s: "multisig_script (replicate 33 2) (replicate 33 3) (replicate 33 4) = Inr s"
    using multisig_script_ok [of "replicate 33 2" "replicate 33 3" "replicate 33 4"] by auto
  obtain toks where tk: "parse_script s = Inr toks \<and> map push_value toks =
      [Some [2], Some (minimal_data (replicate 33 2)), Some (minimal_data (replicate 33 3)),
       Some (minimal_data (replicate 33 4)), Some [3], None]"
    using multisig_script_key_order [OF s] by (rule exE)
  show ?thesis by (rule exI [of _ s], rule exI [of _ toks]) (rule conjI [OF s tk])
qed

text \<open>C19. If any of the three keys is longer than \<open>MaxScriptElementSize\<close>, the multisig
  script of main.go lines 70-71 is not built: the builder reports \<open>InvalidPush\<close> or
  \<open>ScriptTooLarge\<close> (and main.go line 73 panics).\<close>

theorem multisig_script_oversized_key:
  assumes "MaxScriptElementSize < length pk1 \<or> MaxScriptElementSize < length pk2
           \<or> MaxScriptElementSize < length pk3"
  shows "multisig_script pk1 pk2 pk3 = Inl InvalidPush \<or> multisig_script pk1 pk2 pk3 = Inl ScriptTooLarge"
proof -
  let ?ops = "[AddOp OP_2, AddData pk1, AddData pk2, AddData pk3, AddOp OP_3, AddOp OP_CHECKMULTISIG]"
  have "AddData pk1 \<in> set ?ops" "AddData pk2 \<in> set ?ops" "AddData pk3 \<in> set ?ops" by simp_all
  with assms have "\<not> (\<forall>d. AddData d \<in> set ?ops \<longrightarrow> length d \<le> MaxScriptElementSize)"
    by (meson not_le)
  then have "build ?ops \<noteq> Inr s" for s using build_Inr(2) by blast
  then obtain e where e: "build ?ops = Inl e" by (cases "build ?ops") auto
  then have "e = ScriptTooLarge \<or> e = InvalidPush" by (rule build_error_kinds)
  with e show ?thesis by (auto simp only: multisig_script_build)
qed

lemma multisig_script_oversized_key_witness:
  "multisig_script (replicate 521 0) [] [] = Inl InvalidPush \<or> multisig_script (replicate 521 0) [] [] = Inl ScriptTooLarge"
  by (rule multisig_script_oversized_key) (simp add: MaxScriptElementSize_def)

text \<open>C16. \<open>getPkScript\<close> (main.go lines 93-100) turns a decoded pay-to-public-key-hash
  address into the standard locking script
  \<open>OP_DUP OP_HASH160 <20-byte hash> OP_EQUALVERIFY OP_CHECKSIG\<close>.\<close>

theorem get_pk_script_p2pkh:
  assumes "decode addr = Inr (AddressPubKeyHash h)" and "length h = 20"
  shows "get_pk_script decode addr = Inr ([OP_DUP, OP_HASH160, 0x14] @ h @ [OP_EQUALVERIFY, OP_CHECKSIG])"
  using assms by (simp add: get_pk_script_def pay_to_pubkey_hash_script del: pay_to_addr_script.simps)

lemma get_pk_script_p2pkh_witness:
  "get_pk_script (\<lambda>_. Inr (AddressPubKeyHash (replicate 20 7))) ''mkYnutdmyXbTMk1QNgp3hcQa1pgGhXVY1S''
   = Inr ([OP_DUP, OP_HASH160, 0x14] @ replicate 20 7 @ [OP_EQUALVERIFY, OP_CHECKSIG])"
  using get_pk_script_p2pkh [of "\<lambda>_. Inr (AddressPubKeyHash (replicate 20 7))"
      "''mkYnutdmyXbTMk1QNgp3hcQa1pgGhXVY1S''" "replicate 20 7"]
  by simp

text \<open>The tokenizer loses nothing: a script that \<open>parseScript\<close> accepts is given back
  byte for byte by \<open>unparseScript\<close> of its operations.\<close>

theorem parse_script_unparse:
  "parse_script s = Inr ops \<Longrightarrow> unparse_script ops = s"
  using parse_script_those [of s ops] by (auto simp: unparse_script_def)

text \<open>The termination measure of the tokenizer loop: every operation \<open>parseScript\<close>
  reads consumes at least one byte of the script.\<close>

theorem parse_one_consumes:
  "parse_one bs = Inr (p, rest) \<Longrightarrow> length rest < length bs"
  using parse_one_Inr unparse_op_nonempty by fastforce

text \<open>C12. Every locking script \<open>getPkScript\<close> returns (main.go lines 93-100, the
  \<open>pkScript\<close> that \<open>sign\<close> passes to the signature hash) tokenizes, and removing
  \<open>OP_CODESEPARATOR\<close> and unparsing it, as \<open>calcSignatureHash\<close> does, gives the script
  back: the signature hash covers exactly the locking script.\<close>

theorem get_pk_script_signed:
  "get_pk_script decode addr = Inr s
   \<Longrightarrow> \<exists>toks. parse_script s = Inr toks \<and> unparse_script (remove_opcode toks OP_CODESEPARATOR) = s"
  using pay_to_addr_script_ops builder_script_signed
  by (fastforce simp: get_pk_script_def ebind_eq_Inr)

lemma get_pk_script_signed_witness:
  "\<exists>toks. parse_script ([OP_DUP, OP_HASH160, 0x14] @ replicate 20 7 @ [OP_EQUALVERIFY, OP_CHECKSIG]) = Inr toks
     \<and> unparse_script (remove_opcode toks OP_CODESEPARATOR)
         = [OP_DUP, OP_HASH160, 0x14] @ replicate 20 7 @ [OP_EQUALVERIFY, OP_CHECKSIG]"
  by (rule get_pk_script_signed [of "\<lambda>_. Inr (AddressPubKeyHash (replicate 20 7))" "''mkYnutdmyXbTMk1QNgp3hcQa1pgGhXVY1S''"])
    (simp add: get_pk_script_def pay_to_pubkey_hash_script del: pay_to_addr_script.simps)

end
