(* ===== verification/Signer.thy ===== *)
theory Signer
  imports Wire Script
begin

unbundle bit_operations_syntax

text \<open>
  The signer (spec section 4.3): btcd's legacy signature hash \<open>calcSignatureHash\<close>
  (over the parsed subscript with \<open>OP_CODESEPARATOR\<close> removed and unparsed,
  \<open>sighash_subscript\<close>) and its checked entry \<open>CalcSignatureHash\<close>, \<open>RawTxInSignature\<close> (hash, sign, append the
  hash-type byte) and \<open>SignatureScript\<close> (push the signature, push the public key), and
  the repository's \<open>sign(tx, amount, pkScript, wif)\<close> that \<open>assembleTx\<close> calls at
  main.go line 119. That function is not under \<open>src/\<close>; it is modelled from the
  specification as the loop that signs every input in turn with \<open>SigHashAll\<close> and writes
  the unlocking script into the input. The hash and the elliptic-curve operations are
  parameters (a record of functions); the only property of them used is that they are
  functions. The lemmas show that the signature hash does not depend on any input's
  current unlocking script, hence that signing the inputs one after another
  (\<open>sign\<close>) refines signing all of them against the unsigned transaction
  (\<open>sign_spec\<close>); that a script built without \<open>OP_CODESEPARATOR\<close>, every payment
  script among them, is hashed as it is; the functional shape of the unlocking script;
  and the error paths.
\<close>

section \<open>Collaborators\<close>

text \<open>The cryptographic primitives: \<open>chainhash.DoubleHashB\<close>, \<open>PrivateKey.Sign\<close>
  followed by \<open>Signature.Serialize\<close> (\<open>None\<close> for a malformed key), and the public
  key serialization (compressed or not).\<close>

record crypto =
  double_sha256 :: "bytes \<Rightarrow> bytes"
  ecdsa_sign :: "bytes \<Rightarrow> bytes \<Rightarrow> bytes option"
  pub_key_of :: "bytes \<Rightarrow> bool \<Rightarrow> bytes"

text \<open>\<open>btcutil.WIF\<close>: the private key and whether its public key is compressed.\<close>

record wif =
  wif_priv_key :: bytes
  wif_compress :: bool

section \<open>Signature hash types\<close>

definition SigHashAll :: u32 where "SigHashAll = 0x1"
definition SigHashNone :: u32 where "SigHashNone = 0x2"
definition SigHashSingle :: u32 where "SigHashSingle = 0x3"
definition SigHashAnyOneCanPay :: u32 where "SigHashAnyOneCanPay = 0x80"
definition sigHashMask :: u32 where "sigHashMask = 0x1f"

section \<open>The signature hash\<close>

text \<open>The copy of the transaction that is hashed: every unlocking script is emptied
  except the signed input's, which becomes the locking script being spent; \<open>NONE\<close>
  drops the outputs, \<open>SINGLE\<close> keeps the outputs up to the input's index with the earlier
  ones blanked (value -1, empty script); both zero the other inputs' sequence numbers;
  \<open>ANYONECANPAY\<close> keeps only the signed input.\<close>

definition sighash_tx_copy :: "bytes \<Rightarrow> u32 \<Rightarrow> msgtx \<Rightarrow> nat \<Rightarrow> msgtx" where
  "sighash_tx_copy subscript hashType tx idx =
     (let ins = map_idx (\<lambda>i ti. ti\<lparr>signature_script := (if i = idx then subscript else [])\<rparr>)
                  (tx_in tx);
          zero_seq = map_idx (\<lambda>i ti. if i = idx then ti else ti\<lparr>sequence := 0\<rparr>);
          tx1 = (if hashType AND sigHashMask = SigHashNone then
                   tx\<lparr>tx_in := zero_seq ins, tx_out := []\<rparr>
                 else if hashType AND sigHashMask = SigHashSingle then
                   tx\<lparr>tx_in := zero_seq ins,
                      tx_out := map_idx (\<lambda>i to. if i < idx then \<lparr>out_value = -1, pk_script = []\<rparr> else to)
                                  (take (Suc idx) (tx_out tx))\<rparr>
                 else tx\<lparr>tx_in := ins\<rparr>)
      in if hashType AND SigHashAnyOneCanPay \<noteq> 0
         then tx1\<lparr>tx_in := take 1 (drop idx (tx_in tx1))\<rparr> else tx1)"

text \<open>\<open>calcSignatureHash\<close>. With \<open>SINGLE\<close> and no output at the input's index the
  consensus rule (a bug of the original client) signs the constant 1 (as a little-endian
  256-bit number) instead of a hash of the transaction.\<close>

text \<open>The first step of \<open>calcSignatureHash\<close>: the parsed subscript with every
  \<open>OP_CODESEPARATOR\<close> removed, unparsed into the bytes that replace the signed input's
  unlocking script.\<close>

definition sighash_subscript :: "parsed_op list \<Rightarrow> bytes" where
  "sighash_subscript pops = unparse_script (remove_opcode pops OP_CODESEPARATOR)"

definition calc_signature_hash_raw :: "crypto \<Rightarrow> bytes \<Rightarrow> u32 \<Rightarrow> msgtx \<Rightarrow> nat \<Rightarrow> bytes" where
  "calc_signature_hash_raw c subscript hashType tx idx =
     (if hashType AND sigHashMask = SigHashSingle \<and> idx \<ge> length (tx_out tx)
      then 1 # replicate 31 0
      else double_sha256 c (serialize (sighash_tx_copy subscript hashType tx idx)
                            @ put_word hashType))"

text \<open>\<open>CalcSignatureHash\<close>: the locking script must tokenize and the input index must be
  in range (\<open>SigningError\<close> otherwise, spec section 4.3); the hash is taken over the
  parsed script.\<close>

definition calc_signature_hash ::
  "crypto \<Rightarrow> bytes \<Rightarrow> u32 \<Rightarrow> msgtx \<Rightarrow> nat \<Rightarrow> error + bytes" where
  "calc_signature_hash c subscript hashType tx idx =
     ebind (parse_script subscript) (\<lambda>pops.
       if idx < length (tx_in tx)
       then Inr (calc_signature_hash_raw c (sighash_subscript pops) hashType tx idx)
       else Inl SigningError)"

definition raw_tx_in_signature ::
  "crypto \<Rightarrow> msgtx \<Rightarrow> nat \<Rightarrow> bytes \<Rightarrow> u32 \<Rightarrow> bytes \<Rightarrow> error + bytes" where
  "raw_tx_in_signature c tx idx subscript hashType key =
     ebind (calc_signature_hash c subscript hashType tx idx) (\<lambda>h.
       case ecdsa_sign c key h of
         None \<Rightarrow> Inl SigningError
       | Some sig \<Rightarrow> Inr (sig @ [ucast hashType]))"

definition SignatureScript ::
  "crypto \<Rightarrow> msgtx \<Rightarrow> nat \<Rightarrow> bytes \<Rightarrow> u32 \<Rightarrow> wif \<Rightarrow> error + bytes" where
  "SignatureScript c tx idx subscript hashType w =
     ebind (raw_tx_in_signature c tx idx subscript hashType (wif_priv_key w)) (\<lambda>sig.
       build [AddData sig, AddData (pub_key_of c (wif_priv_key w) (wif_compress w))])"

section \<open>Signing a transaction\<close>

definition set_sig_script :: "nat \<Rightarrow> bytes \<Rightarrow> msgtx \<Rightarrow> msgtx" where
  "set_sig_script i s tx =
     tx\<lparr>tx_in := (tx_in tx)[i := (tx_in tx ! i)\<lparr>signature_script := s\<rparr>]\<rparr>"

text \<open>The signing loop: \<open>for idx := range tx.TxIn { sigScript, err :=
  txscript.SignatureScript(tx, idx, pkScript, SigHashAll, ...); ...;
  tx.TxIn[idx].SignatureScript = sigScript }\<close>; each step sees the scripts written
  by the earlier ones.\<close>

fun sign_inputs :: "crypto \<Rightarrow> bytes \<Rightarrow> wif \<Rightarrow> nat list \<Rightarrow> msgtx \<Rightarrow> error + msgtx" where
  "sign_inputs c pkScript w [] tx = Inr tx"
| "sign_inputs c pkScript w (i # is) tx =
     ebind (SignatureScript c tx i pkScript SigHashAll w) (\<lambda>ss.
       sign_inputs c pkScript w is (set_sig_script i ss tx))"

text \<open>\<open>sign(tx, amount, pkScript, wif)\<close>: the amount is not used by the legacy hash.\<close>

definition sign :: "crypto \<Rightarrow> msgtx \<Rightarrow> u64 \<Rightarrow> bytes \<Rightarrow> wif \<Rightarrow> error + msgtx" where
  "sign c tx amount pkScript w = sign_inputs c pkScript w [0..<length (tx_in tx)] tx"

text \<open>The specification of signing: every input's unlocking script is computed from the
  transaction as given, and all are written at the end.\<close>

definition sign_spec :: "crypto \<Rightarrow> bytes \<Rightarrow> wif \<Rightarrow> msgtx \<Rightarrow> error + msgtx" where
  "sign_spec c pkScript w tx =
     ebind (all_ok (map (\<lambda>i. SignatureScript c tx i pkScript SigHashAll w) [0..<length (tx_in tx)]))
       (\<lambda>ss. Inr (foldl (\<lambda>t (i, s). set_sig_script i s t) tx (zip [0..<length (tx_in tx)] ss)))"

text \<open>The transaction with every unlocking script emptied: what the signature hash
  depends on.\<close>

definition clear_sig_scripts :: "msgtx \<Rightarrow> msgtx" where
  "clear_sig_scripts tx = tx\<lparr>tx_in := map (\<lambda>ti. ti\<lparr>signature_script := []\<rparr>) (tx_in tx)\<rparr>"

section \<open>Lemmas\<close>

lemma sighash_tx_copy_clear:
  "sighash_tx_copy s h (clear_sig_scripts tx) idx = sighash_tx_copy s h tx idx"
  by (simp add: sighash_tx_copy_def clear_sig_scripts_def map_idx_map Let_def)

lemma clear_sig_scripts_simps [simp]:
  "tx_out (clear_sig_scripts tx) = tx_out tx"
  "length (tx_in (clear_sig_scripts tx)) = length (tx_in tx)"
  by (simp_all add: clear_sig_scripts_def)

lemma calc_signature_hash_raw_clear:
  "calc_signature_hash_raw c s h (clear_sig_scripts tx) idx = calc_signature_hash_raw c s h tx idx"
  by (simp only: calc_signature_hash_raw_def sighash_tx_copy_clear clear_sig_scripts_simps)

lemma calc_signature_hash_clear:
  "calc_signature_hash c s h (clear_sig_scripts tx) idx = calc_signature_hash c s h tx idx"
  by (simp only: calc_signature_hash_def calc_signature_hash_raw_clear clear_sig_scripts_simps)

lemma SignatureScript_clear:
  assumes "clear_sig_scripts t = clear_sig_scripts tx"
  shows "SignatureScript c t i s h w = SignatureScript c tx i s h w"
proof -
  have "calc_signature_hash c s h t i = calc_signature_hash c s h tx i"
    by (metis assms calc_signature_hash_clear)
  then show ?thesis by (simp add: SignatureScript_def raw_tx_in_signature_def)
qed

lemma clear_set_sig_script [simp]:
  "clear_sig_scripts (set_sig_script i s t) = clear_sig_scripts t"
proof (cases "i < length (tx_in t)")
  case True
  let ?f = "\<lambda>ti::txin. ti\<lparr>signature_script := []\<rparr>"
  have "map ?f ((tx_in t)[i := (tx_in t ! i)\<lparr>signature_script := s\<rparr>])
        = (map ?f (tx_in t))[i := ?f (tx_in t ! i)]"
    by (simp add: map_update)
  also have "\<dots> = map ?f (tx_in t)"
    using True by (metis length_map list_update_id nth_map)
  finally show ?thesis
    by (simp add: clear_sig_scripts_def set_sig_script_def)
next
  case False
  then show ?thesis by (simp add: clear_sig_scripts_def set_sig_script_def list_update_beyond)
qed

lemma sign_inputs_spec:
  assumes "clear_sig_scripts t = clear_sig_scripts tx"
  shows "sign_inputs c pk w is t =
         ebind (all_ok (map (\<lambda>i. SignatureScript c tx i pk SigHashAll w) is))
           (\<lambda>ss. Inr (foldl (\<lambda>t (i, s). set_sig_script i s t) t (zip is ss)))"
  using assms
proof (induction "is" arbitrary: t)
  case Nil
  then show ?case by simp
next
  case (Cons i "is")
  show ?case
  proof (cases "SignatureScript c tx i pk SigHashAll w")
    case (Inl e)
    then show ?thesis using SignatureScript_clear [OF Cons.prems] by simp
  next
    case (Inr ss)
    have "clear_sig_scripts (set_sig_script i ss t) = clear_sig_scripts tx"
      using Cons.prems by simp
    note IH = Cons.IH [OF this]
    show ?thesis
      using Inr SignatureScript_clear [OF Cons.prems] IH
      by (cases "all_ok (map (\<lambda>i. SignatureScript c tx i pk SigHashAll w) is)") (simp_all)
  qed
qed

theorem sign_refines_spec: "sign c tx amount pk w = sign_spec c pk w tx"
  by (simp add: sign_def sign_spec_def sign_inputs_spec)

lemma canonical_data_size_le: "canonical_data_size d \<le> length d + 5"
  by (simp add: canonical_data_size_def Let_def)

lemma build_two_pushes:
  assumes "length a \<le> MaxScriptElementSize" "length b \<le> MaxScriptElementSize"
  shows "build [AddData a, AddData b] = Inr (push_encoding a @ push_encoding b)"
proof -
  have "canonical_data_size a \<le> 525" "canonical_data_size b \<le> 525"
    using assms canonical_data_size_le [of a] canonical_data_size_le [of b]
    by (simp_all add: MaxScriptElementSize_def)
  then show ?thesis using assms
    by (simp add: build_def script_def new_script_builder_def add_data_def length_push_encoding
        MaxScriptSize_def MaxScriptElementSize_def)
qed

text \<open>A script built without \<open>OP_CODESEPARATOR\<close> (in particular every script
  \<open>PayToAddrScript\<close> builds) is hashed as it is.\<close>

lemma sighash_subscript_built:
  assumes "build ops = Inr s" "list_all plain_op ops" "AddOp OP_CODESEPARATOR \<notin> set ops"
    and "parse_script s = Inr toks"
  shows "sighash_subscript toks = s"
  using build_tokenizes [OF assms(1,2)] assms(4) build_unparse [OF assms(1,2)] remove_codesep_builder [OF assms(3)]
  by (simp add: sighash_subscript_def)

lemma pay_to_addr_sighash_subscript:
  "pay_to_addr_script a = Inr s \<Longrightarrow> parse_script s = Inr toks \<Longrightarrow> sighash_subscript toks = s"
  by (metis pay_to_addr_script_ops sighash_subscript_built)

lemma SignatureScript_shape:
  assumes "parse_script pk = Inr toks" and "idx < length (tx_in tx)"
    and "ecdsa_sign c (wif_priv_key w) (calc_signature_hash_raw c (sighash_subscript toks) h tx idx) = Some sig"
    and "length sig < MaxScriptElementSize"
    and "length (pub_key_of c (wif_priv_key w) (wif_compress w)) \<le> MaxScriptElementSize"
  shows "SignatureScript c tx idx pk h w =
         Inr (push_encoding (sig @ [ucast h]) @ push_encoding (pub_key_of c (wif_priv_key w) (wif_compress w)))"
  using assms build_two_pushes [of "sig @ [ucast h]" "pub_key_of c (wif_priv_key w) (wif_compress w)"]
  by (simp add: SignatureScript_def raw_tx_in_signature_def calc_signature_hash_def)

theorem SignatureScript_index_error:
  assumes "parse_script pk = Inr toks" and "length (tx_in tx) \<le> idx"
  shows "SignatureScript c tx idx pk h w = Inl SigningError"
  using assms by (simp add: SignatureScript_def raw_tx_in_signature_def calc_signature_hash_def)

lemma SignatureScript_parse_error:
  "parse_script pk = Inl e \<Longrightarrow> SignatureScript c tx idx pk h w = Inl e"
  by (simp add: SignatureScript_def raw_tx_in_signature_def calc_signature_hash_def)

lemma SignatureScript_key_error:
  assumes "parse_script pk = Inr toks" "idx < length (tx_in tx)"
    "ecdsa_sign c (wif_priv_key w) (calc_signature_hash_raw c (sighash_subscript toks) h tx idx) = None"
  shows "SignatureScript c tx idx pk h w = Inl SigningError"
  using assms by (simp add: SignatureScript_def raw_tx_in_signature_def calc_signature_hash_def)

theorem sighash_single_without_output:
  assumes "parse_script pk = Inr toks" and "idx < length (tx_in tx)" and "length (tx_out tx) \<le> idx"
  shows "calc_signature_hash c pk SigHashSingle tx idx = Inr (1 # replicate 31 0)"
  using assms
  by (simp add: calc_signature_hash_def calc_signature_hash_raw_def SigHashSingle_def sigHashMask_def)

lemma SignatureScript_length: "SignatureScript c tx i pk h w = Inr s \<Longrightarrow> length s \<le> MaxScriptSize"
  by (auto simp: SignatureScript_def intro: build_length elim!: ebind_eq_Inr[THEN iffD1, elim_format])

end
