(* ===== verification/Program.thy ===== *)
theory Program
  imports Signer
begin

text \<open>The program itself, \<open>src/main.go\<close>: its constants, the \<open>utxo\<close> struct,
  \<open>assembleTx\<close> and \<open>main\<close>. \<open>main\<close> is a pipeline whose result is one of the three ways
  the process ends: \<open>os.Exit(1)\<close> after printing a message, a \<open>panic\<close>, or the two printed
  lines (transaction hash and raw transaction in hex). The address and WIF decoders
  (\<open>btcutil.DecodeAddress\<close>, \<open>btcutil.DecodeWIF\<close>) and the cryptography are parameters:
  an \<open>env\<close>. Go's \<open>int\<close> is taken to be 64 bits wide (amd64, arm64).\<close>

section \<open>Constants (main.go lines 17-28)\<close>

definition base58Address :: string where
  "base58Address = ''mkYnutdmyXbTMk1QNgp3hcQa1pgGhXVY1S''"

definition privkey :: string where
  "privkey = ''cNRuBb89ZA9UskAp3GsNW8o4PPsRjD5wY1JnQWwe6iL8td2bDXN8''"

definition feeRate :: int where "feeRate = 1"

definition defaultSignatureSize :: int where "defaultSignatureSize = 107"

definition defaultSequence :: u32 where "defaultSequence = 0xffffffff"

section \<open>The unspent output (main.go lines 30-35)\<close>

text \<open>\<open>amount\<close> is an \<open>int64\<close> (read with \<open>sint\<close>), \<open>index\<close> a Go \<open>int\<close>.\<close>

record utxo =
  amount :: "64 word"
  txHash :: bytes
  index :: "64 word"
  pkScript :: bytes

section \<open>Assembling the transaction (main.go lines 102-120)\<close>

text \<open>Lines 107-110: \<open>tx.TxOut = make([]*wire.TxOut, 2)\<close>, the change output of 900000
  back to \<open>pkScript\<close> and 100000 to the multisig script.\<close>

definition assemble_outputs :: "bytes \<Rightarrow> bytes \<Rightarrow> txout list" where
  "assemble_outputs multisig pkS =
     [\<lparr>out_value = 900000, pk_script = pkS\<rparr>, \<lparr>out_value = 100000, pk_script = multisig\<rparr>]"

text \<open>Lines 112-115: the input spending \<open>u.txHash:uint32(u.index)\<close> with the maximal
  sequence number and no unlocking script.\<close>

definition assemble_txin :: "utxo \<Rightarrow> txin" where
  "assemble_txin u =
     \<lparr>previous_out_point = new_out_point (txHash u) (ucast (index u)),
      signature_script = [], sequence = defaultSequence\<rparr>"

text \<open>Lines 103-116: version 1, lock time 0, the outputs, and the input appended to the
  empty input list.\<close>

definition assemble_unsigned :: "utxo \<Rightarrow> bytes \<Rightarrow> bytes \<Rightarrow> msgtx" where
  "assemble_unsigned u multisig pkS =
     (let tx0 = \<lparr>version = 1, tx_in = [], tx_out = assemble_outputs multisig pkS, lock_time = 0\<rparr>
      in tx0\<lparr>tx_in := tx_in tx0 @ [assemble_txin u]\<rparr>)"

text \<open>Line 119: \<open>return sign(&tx, 1100000, pkScript, wif)\<close>.\<close>

definition assemble_tx :: "crypto \<Rightarrow> utxo \<Rightarrow> bytes \<Rightarrow> bytes \<Rightarrow> wif \<Rightarrow> error + msgtx" where
  "assemble_tx c u multisig pkS w = sign c (assemble_unsigned u multisig pkS) 1100000 pkS w"

section \<open>The main function (main.go lines 37-91)\<close>

text \<open>The external decoders and primitives \<open>main\<close> calls.\<close>

record env =
  decode_address :: "string \<Rightarrow> error + address"
  decode_wif :: "string \<Rightarrow> error + wif"
  env_crypto :: crypto

text \<open>How the process ends: \<open>os.Exit(1)\<close> after the printed message prefix and error,
  a \<open>panic\<close> with the error, or normal return after printing the hash and the raw
  transaction. The colouring of \<open>tcolor\<close> is not part of the model.\<close>

datatype outcome = Exit1 string error | Panic error | Printed string string

text \<open>The string literals of lines 45 and 67-69.\<close>

definition utxoHashStr :: string where
  "utxoHashStr = ''1cf2928ba8ad02199cf320af8f6322269cb6ed8057349e2ee91a015f9fb54ab1''"

definition pk1Hex :: string where
  "pk1Hex = ''0334a8eb36d3add6a717cd1cde34f4cadc9e11154edecf2eb6f9bc50eee93ecf4c''"

definition pk2Hex :: string where
  "pk2Hex = ''033a7bbfe0c777f5d3d1d89cd1479add8746df0a010fb80baf192ab2cb247c25a1''"

definition pk3Hex :: string where
  "pk3Hex = ''0386dbc13a9933a37103f1eb479c5a362eec91537c1361d8a34877a5576b3df5eb''"

text \<open>Lines 50-54: the unspent output \<open>main\<close> fills in.\<close>

definition main_utxo :: "bytes \<Rightarrow> bytes \<Rightarrow> utxo" where
  "main_utxo h pkS = \<lparr>amount = 110000, txHash = h, index = 0, pkScript = pkS\<rparr>"

text \<open>Lines 82-87: \<open>tx.Serialize\<close> into a \<open>bytes.Buffer\<close> cannot fail, so the branch of
  lines 84-87 is unreachable and the raw bytes are \<open>serialize tx\<close>.\<close>

definition main :: "env \<Rightarrow> outcome" where
  "main e =
     (case get_pk_script (decode_address e) base58Address of
        Inl err \<Rightarrow> Exit1 ''Please check your bech32 address: '' err
      | Inr pkS \<Rightarrow>
        (case new_hash_from_str utxoHashStr of
           Inl err \<Rightarrow> Panic err
         | Inr h \<Rightarrow>
           (let u = main_utxo h pkS in
            case decode_wif e privkey of
              Inl err \<Rightarrow> Exit1 ''Privkey format error: '' err
            | Inr w \<Rightarrow>
              (let pk1 = hex_decode_prefix pk1Hex;
                   pk2 = hex_decode_prefix pk2Hex;
                   pk3 = hex_decode_prefix pk3Hex
               in case multisig_script pk1 pk2 pk3 of
                    Inl err \<Rightarrow> Panic err
                  | Inr ms \<Rightarrow>
                    (case assemble_tx (env_crypto e) u ms pkS w of
                       Inl err \<Rightarrow> Exit1 ''Assemble transaction or sign error:'' err
                     | Inr tx \<Rightarrow>
                         Printed (hash_string (tx_hash (double_sha256 (env_crypto e)) tx))
                                 (hex_encode (serialize tx)))))))"

section \<open>Sample collaborators\<close>

text \<open>Concrete decoders and primitives at which the theorems below are instantiated:
  a testnet pay-to-public-key-hash address, a compressed key, a constant 71-byte
  signature and a constant hash.\<close>

abbreviation sample_crypto :: crypto where
  "sample_crypto \<equiv> \<lparr>double_sha256 = (\<lambda>_. replicate 32 0), ecdsa_sign = (\<lambda>_ _. Some (replicate 71 0x30)),
                     pub_key_of = (\<lambda>_ _. 2 # replicate 32 0x11)\<rparr>"

abbreviation sample_wif :: wif where
  "sample_wif \<equiv> \<lparr>wif_priv_key = replicate 32 1, wif_compress = True\<rparr>"

abbreviation sample_pkh :: bytes where
  "sample_pkh \<equiv> [OP_DUP, OP_HASH160, 0x14, 7,7,7,7,7,7,7,7,7,7,7,7,7,7,7,7,7,7,7,7, OP_EQUALVERIFY, OP_CHECKSIG]"

abbreviation sample_env :: env where
  "sample_env \<equiv> \<lparr>decode_address = (\<lambda>_. Inr (AddressPubKeyHash (replicate 20 7))),
                  decode_wif = (\<lambda>_. Inr sample_wif), env_crypto = sample_crypto\<rparr>"

section \<open>Lemmas\<close>

lemmas assemble_unsigned_defs = assemble_unsigned_def assemble_outputs_def assemble_txin_def

lemma assemble_tx_sign:
  "assemble_tx c u ms pkS w =
   ebind (SignatureScript c (assemble_unsigned u ms pkS) 0 pkS SigHashAll w)
     (\<lambda>ss. Inr (set_sig_script 0 ss (assemble_unsigned u ms pkS)))"
  by (simp add: assemble_tx_def sign_def assemble_unsigned_defs Let_def)

lemma set_sig_script_assemble_unsigned:
  "set_sig_script 0 ss (assemble_unsigned u ms pkS) =
   \<lparr>version = 1,
    tx_in = [\<lparr>previous_out_point = new_out_point (txHash u) (ucast (index u)),
              signature_script = ss, sequence = defaultSequence\<rparr>],
    tx_out = [\<lparr>out_value = 900000, pk_script = pkS\<rparr>, \<lparr>out_value = 100000, pk_script = ms\<rparr>],
    lock_time = 0\<rparr>"
  by (simp add: set_sig_script_def assemble_unsigned_defs)

text \<open>What a successful \<open>assembleTx\<close> has computed: the locking script tokenized, the
  signature over the signature hash of the unsigned transaction, and the unlocking script
  pushing it with the hash type, then the public key.\<close>

lemma assemble_tx_Inr:
  assumes "assemble_tx c u ms pkS w = Inr tx"
  obtains toks sig where "parse_script pkS = Inr toks"
    "ecdsa_sign c (wif_priv_key w) (calc_signature_hash_raw c (sighash_subscript toks) SigHashAll (assemble_unsigned u ms pkS) 0) = Some sig"
    "length (sig @ [1]) \<le> MaxScriptElementSize"
    "length (pub_key_of c (wif_priv_key w) (wif_compress w)) \<le> MaxScriptElementSize"
    "tx = set_sig_script 0 (push_encoding (sig @ [1]) @ push_encoding (pub_key_of c (wif_priv_key w) (wif_compress w)))
            (assemble_unsigned u ms pkS)"
proof -
  let ?t = "assemble_unsigned u ms pkS"
  let ?pk = "pub_key_of c (wif_priv_key w) (wif_compress w)"
  obtain ss where ss: "SignatureScript c ?t 0 pkS SigHashAll w = Inr ss"
    and tx: "tx = set_sig_script 0 ss ?t"
    using assms by (auto simp: assemble_tx_sign ebind_eq_Inr)
  obtain toks sig where p: "parse_script pkS = Inr toks"
    and sig: "ecdsa_sign c (wif_priv_key w) (calc_signature_hash_raw c (sighash_subscript toks) SigHashAll ?t 0) = Some sig"
    and b: "build [AddData (sig @ [ucast SigHashAll]), AddData ?pk] = Inr ss"
    using ss by (auto simp: SignatureScript_def raw_tx_in_signature_def calc_signature_hash_def
        ebind_eq_Inr assemble_unsigned_defs split: option.splits if_splits)
  have h: "(ucast SigHashAll :: byte) = 1" by (simp add: SigHashAll_def)
  have "length (sig @ [1]) \<le> MaxScriptElementSize" "length ?pk \<le> MaxScriptElementSize"
    using build_Inr(2) [OF b] by (simp_all add: h)
  moreover have "ss = push_encoding (sig @ [1]) @ push_encoding ?pk"
    using build_Inr(1) [OF b] by (simp add: h)
  ultimately show ?thesis using that p sig tx by blast
qed

text \<open>The transaction \<open>assembleTx\<close> returns is within the protocol limits the decoder
  checks.\<close>

lemma assemble_tx_wf:
  assumes "assemble_tx c u ms pkS w = Inr tx" and "length (txHash u) = HashSize"
    and "length pkS \<le> MaxMessagePayload" and "length ms \<le> MaxMessagePayload"
  shows "wf_tx tx"
proof -
  obtain ss where ss: "SignatureScript c (assemble_unsigned u ms pkS) 0 pkS SigHashAll w = Inr ss"
    and tx: "tx = set_sig_script 0 ss (assemble_unsigned u ms pkS)"
    using assms(1) by (auto simp: assemble_tx_sign ebind_eq_Inr)
  have "length ss \<le> MaxScriptSize" using ss by (rule SignatureScript_length)
  then show ?thesis
    using assms(2-4)
    by (simp add: tx set_sig_script_assemble_unsigned wf_tx_def new_out_point_def
        MaxScriptSize_def MaxMessagePayload_def maxTxInPerMessage_def maxTxOutPerMessage_def)
qed

lemma main_tx_wf:
  assumes "get_pk_script dec addr = Inr pkS" and "new_hash_from_str utxoHashStr = Inr hh"
    and "multisig_script pk1 pk2 pk3 = Inr ms" and "assemble_tx c (main_utxo hh pkS) ms pkS w = Inr tx"
  shows "wf_tx tx"
proof (rule assemble_tx_wf [OF assms(4)])
  show "length (txHash (main_utxo hh pkS)) = HashSize"
    using length_new_hash_from_str [OF assms(2)] by (simp add: main_utxo_def)
  show "length pkS \<le> MaxMessagePayload"
    using assms(1) by (auto simp: get_pk_script_def ebind_eq_Inr MaxScriptSize_def MaxMessagePayload_def
        dest!: pay_to_addr_script_length)
  show "length ms \<le> MaxMessagePayload"
    using multisig_script_length [OF assms(3)] by (simp add: MaxScriptSize_def MaxMessagePayload_def)
qed

text \<open>The serialized size of the transaction of lines 103-116 with an unlocking script:
  69 fixed bytes (version, counts, outpoint, sequence, two values, lock time and the
  one-byte lengths) and the three scripts.\<close>

lemma serialize_assembled_size:
  assumes "length (txHash u) = HashSize" "length ss < 0xfd" "length pkS < 0xfd" "length ms < 0xfd"
  shows "length (serialize (set_sig_script 0 ss (assemble_unsigned u ms pkS))) = 69 + length ss + length pkS + length ms"
proof -
  have "var_int_serialize_size 1 = 1" "var_int_serialize_size 2 = 1"
    by (simp_all add: var_int_serialize_size_def)
  then show ?thesis
    using assms
    by (simp add: set_sig_script_assemble_unsigned serialize_def length_write_tx_in length_write_tx_out
        tx_in_serialize_size_def tx_out_serialize_size_def var_int_serialize_size_small new_out_point_def)
qed

lemma clear_assembled:
  "clear_sig_scripts (assemble_unsigned u ms pkS) = set_sig_script 0 [] (assemble_unsigned u ms pkS)"
  by (simp add: set_sig_script_def clear_sig_scripts_def assemble_unsigned_defs)

lemma get_pk_script_sighash_subscript:
  "get_pk_script dec addr = Inr pkS \<Longrightarrow> parse_script pkS = Inr toks \<Longrightarrow> sighash_subscript toks = pkS"
  by (auto simp: get_pk_script_def ebind_eq_Inr intro: pay_to_addr_sighash_subscript)

lemma calc_signature_hash_raw_signed:
  "calc_signature_hash_raw c s h (set_sig_script i ss t) idx = calc_signature_hash_raw c s h t idx"
  using calc_signature_hash_raw_clear [of c s h "set_sig_script i ss t" idx]
    calc_signature_hash_raw_clear [of c s h t idx]
  by simp

lemma sample_pkh_eq: "[OP_DUP, OP_HASH160, 0x14] @ replicate 20 7 @ [OP_EQUALVERIFY, OP_CHECKSIG] = sample_pkh"
  by (simp add: numeral_eq_Suc)

lemma get_pk_script_sample:
  "get_pk_script (\<lambda>_. Inr (AddressPubKeyHash (replicate 20 7))) addr = Inr sample_pkh"
proof -
  have "pay_to_addr_script (AddressPubKeyHash (replicate 20 7)) = Inr sample_pkh"
    using pay_to_pubkey_hash_script [of "replicate 20 (7::byte)"] by (simp only: sample_pkh_eq length_replicate)
  then show ?thesis by (simp add: get_pk_script_def del: pay_to_addr_script.simps)
qed

lemma main_hash_ok: "\<exists>h. new_hash_from_str utxoHashStr = Inr h"
  by (simp add: utxoHashStr_def new_hash_from_str_def hex_decode_def HashSize_def)

lemma main_pubkeys_33:
  "length (hex_decode_prefix pk1Hex) = 33" "length (hex_decode_prefix pk2Hex) = 33"
  "length (hex_decode_prefix pk3Hex) = 33"
  by (simp_all add: pk1Hex_def pk2Hex_def pk3Hex_def)

lemma main_cases:
  assumes "main e = Printed h raw"
  obtains pkS hh w ms tx where "get_pk_script (decode_address e) base58Address = Inr pkS"
    "new_hash_from_str utxoHashStr = Inr hh" "decode_wif e privkey = Inr w"
    "multisig_script (hex_decode_prefix pk1Hex) (hex_decode_prefix pk2Hex) (hex_decode_prefix pk3Hex) = Inr ms"
    "assemble_tx (env_crypto e) (main_utxo hh pkS) ms pkS w = Inr tx"
    "h = hash_string (tx_hash (double_sha256 (env_crypto e)) tx)" "raw = hex_encode (serialize tx)"
  using assms by (auto simp: main_def Let_def split: sum.splits)

lemma tx_in_assemble_unsigned:
  "tx_in (assemble_unsigned u ms pkS) =
   [\<lparr>previous_out_point = new_out_point (txHash u) (ucast (index u)), signature_script = [],
     sequence = defaultSequence\<rparr>]"
  by (simp add: assemble_unsigned_defs)

lemma sighash_all_assemble_unsigned:
  "sighash_tx_copy pkS SigHashAll (assemble_unsigned u ms pkS) 0 = set_sig_script 0 pkS (assemble_unsigned u ms pkS)"
  by (simp add: sighash_tx_copy_def assemble_unsigned_defs set_sig_script_def map_idx_def SigHashAll_def
      sigHashMask_def SigHashNone_def SigHashSingle_def SigHashAnyOneCanPay_def)

text \<open>The transaction \<open>assembleTx\<close> signs for the sample collaborators: the computation
  runs through the tokenizer, the signature hash and the script builder.\<close>

lemma assemble_tx_sample:
  "assemble_tx sample_crypto (main_utxo (replicate 32 0) sample_pkh) [] sample_pkh sample_wif
   = Inr (set_sig_script 0 (0x48 # replicate 71 0x30 @ [1, 0x21, 2] @ replicate 32 0x11)
            (assemble_unsigned (main_utxo (replicate 32 0) sample_pkh) [] sample_pkh))"
  by (simp add: assemble_tx_sign SignatureScript_def raw_tx_in_signature_def calc_signature_hash_def
     parse_script_Nil parse_script_Cons parse_one_def rbind_def read_word_def read_bytes_def malformed_def
     build_def script_def new_script_builder_def add_data_def canonical_data_size_def MaxScriptSize_def
     MaxScriptElementSize_def length_push_encoding SigHashAll_def push_encoding_def
     tx_in_assemble_unsigned)

text \<open>The stages of \<open>main\<close> before \<open>assembleTx\<close> for a decoded pay-to-public-key-hash
  address and a decoded key: the outcome is decided by \<open>assembleTx\<close> alone.\<close>

lemma main_p2pkh_stage:
  assumes "decode_address e base58Address = Inr (AddressPubKeyHash a)" and "length a = 20"
    and "decode_wif e privkey = Inr w"
  obtains toks hh ms where
    "parse_script ([OP_DUP, OP_HASH160, 0x14] @ a @ [OP_EQUALVERIFY, OP_CHECKSIG]) = Inr toks"
    "new_hash_from_str utxoHashStr = Inr hh"
    "multisig_script (hex_decode_prefix pk1Hex) (hex_decode_prefix pk2Hex) (hex_decode_prefix pk3Hex) = Inr ms"
    "main e = (case assemble_tx (env_crypto e) (main_utxo hh ([OP_DUP, OP_HASH160, 0x14] @ a @ [OP_EQUALVERIFY, OP_CHECKSIG])) ms
                      ([OP_DUP, OP_HASH160, 0x14] @ a @ [OP_EQUALVERIFY, OP_CHECKSIG]) w of
                 Inl err \<Rightarrow> Exit1 ''Assemble transaction or sign error:'' err
               | Inr tx \<Rightarrow> Printed (hash_string (tx_hash (double_sha256 (env_crypto e)) tx)) (hex_encode (serialize tx)))"
proof -
  let ?pkS = "[OP_DUP, OP_HASH160, 0x14] @ a @ [OP_EQUALVERIFY, OP_CHECKSIG]"
  obtain toks where p2pkh: "pay_to_addr_script (AddressPubKeyHash a) = Inr ?pkS"
    and toks: "parse_script ?pkS = Inr toks"
    using pkh_script_parses [OF assms(2)] by blast
  obtain hh where hh: "new_hash_from_str utxoHashStr = Inr hh" using main_hash_ok by blast
  obtain ms where ms: "multisig_script (hex_decode_prefix pk1Hex) (hex_decode_prefix pk2Hex)
                       (hex_decode_prefix pk3Hex) = Inr ms"
    using multisig_script_ok [OF main_pubkeys_33] by blast
  have "main e = (case assemble_tx (env_crypto e) (main_utxo hh ?pkS) ms ?pkS w of
                 Inl err \<Rightarrow> Exit1 ''Assemble transaction or sign error:'' err
               | Inr tx \<Rightarrow> Printed (hash_string (tx_hash (double_sha256 (env_crypto e)) tx)) (hex_encode (serialize tx)))"
    using assms(1,3) p2pkh hh ms by (simp add: main_def get_pk_script_def Let_def del: pay_to_addr_script.simps)
  then show ?thesis using that toks hh ms by blast
qed

lemma main_Printed_intro:
  assumes "decode_address e base58Address = Inr (AddressPubKeyHash a)" and "length a = 20"
    and "decode_wif e privkey = Inr w"
    and "\<forall>m. \<exists>sig. ecdsa_sign (env_crypto e) (wif_priv_key w) m = Some sig \<and> length sig < MaxScriptElementSize"
    and "length (pub_key_of (env_crypto e) (wif_priv_key w) (wif_compress w)) \<le> MaxScriptElementSize"
  shows "\<exists>h raw. main e = Printed h raw"
  using assms(1-3)
proof (rule main_p2pkh_stage)
  fix toks hh ms
  let ?pkS = "[OP_DUP, OP_HASH160, 0x14] @ a @ [OP_EQUALVERIFY, OP_CHECKSIG]"
  let ?tx = "assemble_unsigned (main_utxo hh ?pkS) ms ?pkS"
  assume toks: "parse_script ?pkS = Inr toks" and m: "main e = (case assemble_tx (env_crypto e) (main_utxo hh ?pkS) ms ?pkS w of
                 Inl err \<Rightarrow> Exit1 ''Assemble transaction or sign error:'' err
               | Inr tx \<Rightarrow> Printed (hash_string (tx_hash (double_sha256 (env_crypto e)) tx)) (hex_encode (serialize tx)))"
  obtain sig where sig: "ecdsa_sign (env_crypto e) (wif_priv_key w)
      (calc_signature_hash_raw (env_crypto e) (sighash_subscript toks) SigHashAll ?tx 0) = Some sig"
    and len: "length sig < MaxScriptElementSize"
    using assms(4) by blast
  have "SignatureScript (env_crypto e) ?tx 0 ?pkS SigHashAll w = Inr
     (push_encoding (sig @ [ucast SigHashAll]) @ push_encoding (pub_key_of (env_crypto e) (wif_priv_key w) (wif_compress w)))"
    using toks sig len assms(5) by (intro SignatureScript_shape) (simp_all add: assemble_unsigned_defs)
  then show ?thesis using m by (simp add: assemble_tx_sign)
qed

section \<open>Properties of the program\<close>

text \<open>C6. \<open>assembleTx\<close> builds the transaction the code describes: version 1, lock time 0,
  exactly one input spending \<open>u.txHash:uint32(u.index)\<close> with the maximal sequence number,
  the outputs 900000 to \<open>pkScript\<close> and 100000 to the multisig script in that order, and
  the input's unlocking script is the one computed over the unsigned transaction.\<close>

theorem assemble_tx_shape:
  assumes "assemble_tx c u ms pkS w = Inr tx"
  shows "version tx = 1 \<and> lock_time tx = 0
    \<and> tx_out tx = [\<lparr>out_value = 900000, pk_script = pkS\<rparr>, \<lparr>out_value = 100000, pk_script = ms\<rparr>]
    \<and> map previous_out_point (tx_in tx) = [new_out_point (txHash u) (ucast (index u))]
    \<and> map sequence (tx_in tx) = [0xffffffff]
    \<and> (\<exists>ss. SignatureScript c (assemble_unsigned u ms pkS) 0 pkS SigHashAll w = Inr ss
           \<and> map signature_script (tx_in tx) = [ss])"
  using assms
  by (auto simp: assemble_tx_sign set_sig_script_assemble_unsigned defaultSequence_def ebind_eq_Inr)

lemma assemble_tx_shape_witness:
  "\<exists>tx. assemble_tx sample_crypto (main_utxo (replicate 32 0) sample_pkh) [] sample_pkh sample_wif = Inr tx
     \<and> version tx = 1 \<and> map sequence (tx_in tx) = [0xffffffff]"
proof -
  obtain tx where t: "assemble_tx sample_crypto (main_utxo (replicate 32 0) sample_pkh) [] sample_pkh sample_wif = Inr tx"
    using assemble_tx_sample by blast
  moreover have "version tx = 1 \<and> map sequence (tx_in tx) = [0xffffffff]"
    using assemble_tx_shape [OF t] by (elim conjE) (intro conjI)
  ultimately show ?thesis by (intro exI [of _ tx] conjI) simp_all
qed

text \<open>C15. \<open>main\<close> never panics, whatever the decoders and primitives do: the hash literal of
  line 45 is valid and the three public keys of lines 67-69 make a script within the
  builder's limits.\<close>

theorem main_never_panics: "main e \<noteq> Panic err"
proof -
  obtain h where h: "new_hash_from_str utxoHashStr = Inr h" using main_hash_ok by blast
  obtain s where s: "multisig_script (hex_decode_prefix pk1Hex) (hex_decode_prefix pk2Hex)
                       (hex_decode_prefix pk3Hex) = Inr s"
    using multisig_script_ok [OF main_pubkeys_33] by blast
  show ?thesis
    by (simp add: main_def h s Let_def split: sum.split)
qed

text \<open>C17. With a compressed public key and a DER signature of 69 to 72 bytes, the
  unlocking script is within two bytes of \<open>defaultSignatureSize\<close> (107).\<close>

theorem signature_size_near_default:
  assumes "parse_script pk = Inr toks" and "idx < length (tx_in tx)"
    and "ecdsa_sign c (wif_priv_key w) (calc_signature_hash_raw c (sighash_subscript toks) h tx idx) = Some sig"
    and "69 \<le> length sig" and "length sig \<le> 72"
    and "length (pub_key_of c (wif_priv_key w) (wif_compress w)) = 33"
  shows "\<exists>ss. SignatureScript c tx idx pk h w = Inr ss
              \<and> \<bar>int (length ss) - defaultSignatureSize\<bar> \<le> 2"
proof -
  have "build [AddData (sig @ [ucast h]), AddData (pub_key_of c (wif_priv_key w) (wif_compress w))]
        = Inr (push_encoding (sig @ [ucast h]) @ push_encoding (pub_key_of c (wif_priv_key w) (wif_compress w)))"
    using assms(4-6) by (intro build_two_pushes) (simp_all add: MaxScriptElementSize_def)
  moreover have "sig \<noteq> []" using assms(4) by auto
  ultimately show ?thesis
    using assms
    by (simp add: SignatureScript_def raw_tx_in_signature_def calc_signature_hash_def
        length_push_encoding canonical_data_size_def defaultSignatureSize_def)
qed

lemma signature_size_near_default_witness:
  "\<exists>ss. SignatureScript sample_crypto (assemble_unsigned (main_utxo (replicate 32 0) []) [] []) 0 []
          SigHashAll sample_wif = Inr ss
     \<and> \<bar>int (length ss) - defaultSignatureSize\<bar> \<le> 2"
  using signature_size_near_default [of "[]" "[]" 0 "assemble_unsigned (main_utxo (replicate 32 0) []) [] []"
      sample_crypto sample_wif SigHashAll "replicate 71 0x30"]
  by (simp add: parse_script_Nil assemble_unsigned_defs)

text \<open>C20. Every \<open>os.Exit(1)\<close> of \<open>main\<close> reports the stage that failed with that stage's
  error: address and payment script, private key, or assembling and signing.\<close>

theorem main_exit_stage:
  assumes "main e = Exit1 msg err"
  shows "(msg = ''Please check your bech32 address: ''
          \<and> get_pk_script (decode_address e) base58Address = Inl err)
       \<or> (msg = ''Privkey format error: '' \<and> decode_wif e privkey = Inl err)
       \<or> (msg = ''Assemble transaction or sign error:''
          \<and> (\<exists>u ms pkS w. assemble_tx (env_crypto e) u ms pkS w = Inl err))"
  using assms by (auto simp: main_def Let_def split: sum.splits)

lemma main_exit_stage_witness:
  "main (sample_env\<lparr>decode_wif := (\<lambda>_. Inl InvalidKeyFormat)\<rparr>) = Exit1 ''Privkey format error: '' InvalidKeyFormat
   \<and> decode_wif (sample_env\<lparr>decode_wif := (\<lambda>_. Inl InvalidKeyFormat)\<rparr>) privkey = Inl InvalidKeyFormat"
proof -
  obtain toks where p: "pay_to_addr_script (AddressPubKeyHash (replicate 20 7))
      = Inr ([OP_DUP, OP_HASH160, 0x14] @ replicate 20 7 @ [OP_EQUALVERIFY, OP_CHECKSIG])"
    using pkh_script_parses [of "replicate 20 7"] by auto
  obtain h where h: "new_hash_from_str utxoHashStr = Inr h" using main_hash_ok by blast
  have m: "main (sample_env\<lparr>decode_wif := (\<lambda>_. Inl InvalidKeyFormat)\<rparr>) = Exit1 ''Privkey format error: '' InvalidKeyFormat"
    by (simp add: main_def get_pk_script_def p h del: pay_to_addr_script.simps)
  from main_exit_stage [OF m] m show ?thesis by simp
qed

text \<open>C23. A key the signer cannot use (\<open>ecdsa_sign\<close> fails, a malformed private key)
  with a valid address makes \<open>main\<close> exit at the \<open>assembleTx\<close> stage (main.go lines
  76-80) with \<open>SigningError\<close>: no transaction is printed.\<close>

theorem main_signing_error:
  assumes "decode_address e base58Address = Inr (AddressPubKeyHash a)" and "length a = 20"
    and "decode_wif e privkey = Inr w"
    and "\<forall>m. ecdsa_sign (env_crypto e) (wif_priv_key w) m = None"
  shows "main e = Exit1 ''Assemble transaction or sign error:'' SigningError"
  using assms(1-3)
proof (rule main_p2pkh_stage)
  fix toks hh ms
  let ?pkS = "[OP_DUP, OP_HASH160, 0x14] @ a @ [OP_EQUALVERIFY, OP_CHECKSIG]"
  let ?tx = "assemble_unsigned (main_utxo hh ?pkS) ms ?pkS"
  assume toks: "parse_script ?pkS = Inr toks" and m: "main e = (case assemble_tx (env_crypto e) (main_utxo hh ?pkS) ms ?pkS w of
                 Inl err \<Rightarrow> Exit1 ''Assemble transaction or sign error:'' err
               | Inr tx \<Rightarrow> Printed (hash_string (tx_hash (double_sha256 (env_crypto e)) tx)) (hex_encode (serialize tx)))"
  have "SignatureScript (env_crypto e) ?tx 0 ?pkS SigHashAll w = Inl SigningError"
    using toks assms(4) by (intro SignatureScript_key_error) (simp_all add: assemble_unsigned_defs)
  then show ?thesis using m by (simp add: assemble_tx_sign)
qed

lemma main_signing_error_witness:
  "main (sample_env\<lparr>env_crypto := sample_crypto\<lparr>ecdsa_sign := (\<lambda>_ _. None)\<rparr>\<rparr>)
   = Exit1 ''Assemble transaction or sign error:'' SigningError"
  by (rule main_signing_error [of _ "replicate 20 7" sample_wif]) simp_all

text \<open>C5. The transaction \<open>assembleTx\<close> returns decodes back from its serialization, when
  the spent transaction's hash has 32 bytes and the two locking scripts fit in a message.\<close>

theorem assembled_tx_roundtrip:
  assumes "assemble_tx c u ms pkS w = Inr tx" and "length (txHash u) = HashSize"
    and "length pkS \<le> MaxMessagePayload" and "length ms \<le> MaxMessagePayload"
  shows "deserialize_no_witness (serialize tx) = Inr (tx, [])"
  using assemble_tx_wf [OF assms] deserialize_serialize [of tx "[]"] by simp

lemma assembled_tx_roundtrip_witness:
  "\<exists>tx. assemble_tx sample_crypto (main_utxo (replicate 32 0) sample_pkh) [] sample_pkh sample_wif = Inr tx
     \<and> deserialize_no_witness (serialize tx) = Inr (tx, [])"
proof -
  obtain tx where t: "assemble_tx sample_crypto (main_utxo (replicate 32 0) sample_pkh) [] sample_pkh sample_wif = Inr tx"
    using assemble_tx_sample by blast
  have "deserialize_no_witness (serialize tx) = Inr (tx, [])"
    by (rule assembled_tx_roundtrip [OF t]) (simp_all add: main_utxo_def HashSize_def MaxMessagePayload_def)
  with t show ?thesis by blast
qed

text \<open>C7. The message the input of \<open>assembleTx\<close>'s transaction is signed over is the double
  hash of the unsigned transaction with the spent locking script in the input, followed by
  the four bytes of \<open>SIGHASH_ALL\<close>; the unlocking script pushes the signature with the
  hash-type byte 1 appended, then the public key.\<close>

theorem assemble_tx_signs_sighash:
  assumes "assemble_tx c u ms pkS w = Inr tx" and "get_pk_script dec addr = Inr pkS"
  shows "\<exists>sig. ecdsa_sign c (wif_priv_key w)
      (double_sha256 c (serialize (set_sig_script 0 pkS (assemble_unsigned u ms pkS)) @ [1, 0, 0, 0])) = Some sig
    \<and> map signature_script (tx_in tx)
      = [push_encoding (sig @ [1]) @ push_encoding (pub_key_of c (wif_priv_key w) (wif_compress w))]"
proof -
  let ?t = "assemble_unsigned u ms pkS"
  obtain toks sig where toks: "parse_script pkS = Inr toks"
    and sig: "ecdsa_sign c (wif_priv_key w) (calc_signature_hash_raw c (sighash_subscript toks) SigHashAll ?t 0) = Some sig"
    and tx: "tx = set_sig_script 0 (push_encoding (sig @ [1]) @ push_encoding (pub_key_of c (wif_priv_key w) (wif_compress w))) ?t"
    using assms(1) by (rule assemble_tx_Inr)
  have sub: "sighash_subscript toks = pkS" using assms(2) toks by (rule get_pk_script_sighash_subscript)
  have "\<not> (SigHashAll AND sigHashMask = SigHashSingle)" and "put_word SigHashAll = [1, 0, 0, 0]"
    by (simp_all add: SigHashAll_def sigHashMask_def SigHashSingle_def put_word_def le_enc_numeral)
  then have "calc_signature_hash_raw c pkS SigHashAll ?t 0
        = double_sha256 c (serialize (set_sig_script 0 pkS ?t) @ [1, 0, 0, 0])"
    by (simp add: calc_signature_hash_raw_def sighash_all_assemble_unsigned)
  then show ?thesis using sig by (simp add: sub tx set_sig_script_assemble_unsigned)
qed

lemma assemble_tx_signs_sighash_witness:
  "\<exists>tx sig. assemble_tx sample_crypto (main_utxo (replicate 32 0) sample_pkh) [] sample_pkh sample_wif = Inr tx
     \<and> map signature_script (tx_in tx) = [push_encoding (sig @ [1]) @ push_encoding (2 # replicate 32 0x11)]"
proof -
  obtain tx where t: "assemble_tx sample_crypto (main_utxo (replicate 32 0) sample_pkh) [] sample_pkh sample_wif = Inr tx"
    using assemble_tx_sample by blast
  from assemble_tx_signs_sighash [OF t get_pk_script_sample] t show ?thesis by auto
qed

text \<open>C21. An address that decodes to a kind \<open>PayToAddrScript\<close> does not support ends the
  program at main.go line 41 with \<open>UnsupportedAddress\<close>.\<close>

theorem main_unsupported_address:
  assumes "decode_address e base58Address = Inr AddressOther"
  shows "main e = Exit1 ''Please check your bech32 address: '' UnsupportedAddress"
  using assms by (simp add: main_def get_pk_script_def)

lemma main_unsupported_address_witness:
  "main (sample_env\<lparr>decode_address := (\<lambda>_. Inr AddressOther)\<rparr>)
   = Exit1 ''Please check your bech32 address: '' UnsupportedAddress"
  using main_unsupported_address [of "sample_env\<lparr>decode_address := (\<lambda>_. Inr AddressOther)\<rparr>"] by simp

text \<open>C22. With scripts shorter than 253 bytes the assembled transaction takes
  \<open>69 + |unlocking| + |pkScript| + |multisig|\<close> bytes, and the fee the code intends
  (1100000 minus the outputs) pays more than \<open>feeRate\<close> per byte.\<close>

theorem assembled_tx_fee:
  assumes "assemble_tx c u ms pkS w = Inr tx" and "length (txHash u) = HashSize"
    and "map signature_script (tx_in tx) = [ss]"
    and "length ss < 0xfd" and "length pkS < 0xfd" and "length ms < 0xfd"
  shows "length (serialize tx) = 69 + length ss + length pkS + length ms
    \<and> feeRate * int (length (serialize tx)) < 1100000 - (\<Sum>to\<leftarrow>tx_out tx. sint (out_value to))"
proof -
  obtain ss' where tx: "tx = set_sig_script 0 ss' (assemble_unsigned u ms pkS)"
    using assms(1) by (auto simp: assemble_tx_sign ebind_eq_Inr)
  then have ss: "ss' = ss" using assms(3) by (simp add: set_sig_script_assemble_unsigned)
  have "length (serialize tx) = 69 + length ss + length pkS + length ms"
    using serialize_assembled_size [OF assms(2,4-6)] by (simp add: tx ss)
  moreover have "(\<Sum>to\<leftarrow>tx_out tx. sint (out_value to)) = 1000000"
    by (simp add: tx set_sig_script_assemble_unsigned)
  ultimately show ?thesis using assms(4-6) by (simp add: feeRate_def)
qed

lemma assembled_tx_fee_witness:
  "\<exists>tx. assemble_tx sample_crypto (main_utxo (replicate 32 0) sample_pkh) [] sample_pkh sample_wif = Inr tx
     \<and> length (serialize tx) = 201"
proof -
  let ?ss = "0x48 # replicate 71 0x30 @ [1, 0x21, 2] @ replicate 32 0x11"
  have t: "assemble_tx sample_crypto (main_utxo (replicate 32 0) sample_pkh) [] sample_pkh sample_wif
     = Inr (set_sig_script 0 ?ss (assemble_unsigned (main_utxo (replicate 32 0) sample_pkh) [] sample_pkh))"
    by (rule assemble_tx_sample)
  have "length (serialize (set_sig_script 0 ?ss (assemble_unsigned (main_utxo (replicate 32 0) sample_pkh) [] sample_pkh)))
        = 69 + length ?ss + length sample_pkh + length ([] :: bytes)"
    using assembled_tx_fee [OF t] by (simp add: main_utxo_def HashSize_def set_sig_script_assemble_unsigned)
  with t show ?thesis by simp
qed

end
