(* ===== verification/Interp.thy ===== *)
theory Interp
  imports Signer "HOL-Library.Sublist"
begin

text \<open>The part of btcd's script engine (\<open>txscript.Engine\<close>) that decides whether an
  unlocking script satisfies the locking scripts the program builds: data pushes and small
  numbers, \<open>OP_DUP\<close>, \<open>OP_HASH160\<close>, \<open>OP_EQUAL\<close>, \<open>OP_EQUALVERIFY\<close>, \<open>OP_CHECKSIG\<close> and
  \<open>OP_CHECKMULTISIG\<close> (with the extra stack element and the strict null-dummy rule),
  under btcd's standard flags that matter for these scripts: minimal data pushes and
  numbers, the strict null dummy, null-fail and the clean stack, with the unlocking
  script push-only as the mempool requires of standard transactions. The stack is a list with its top at
  the head. The signed subscript is the parsed script being run with the signatures
  removed (\<open>removeOpcodeByData\<close>) and, inside the signature hash, \<open>OP_CODESEPARATOR\<close>
  removed. Every other opcode, \<open>OP_CODESEPARATOR\<close> among them, stops the model with
  \<open>ErrUnmodelledOpcode\<close>; the operation count limit is not modelled. The hash and the
  signature check are parameters; the strict-encoding checks of signatures and keys are
  part of that check, so a malformed signature or key counts as a failed check here where
  btcd stops with an encoding error.\<close>

section \<open>Collaborators\<close>

text \<open>\<open>btcutil.Hash160\<close> (RIPEMD-160 of SHA-256) and the ECDSA check of a DER signature
  against a public key and a message hash (\<open>ecdsa.Signature.Verify\<close> after parsing).\<close>

record verifier =
  hash160 :: "bytes \<Rightarrow> bytes"
  ecdsa_verify :: "bytes \<Rightarrow> bytes \<Rightarrow> bytes \<Rightarrow> bool"

section \<open>Stack values\<close>

text \<open>\<open>asBool\<close>: any non-zero byte makes the value true, except a sign bit alone in the
  last byte (negative zero).\<close>

fun as_bool :: "bytes \<Rightarrow> bool" where
  "as_bool [] = False"
| "as_bool [b] = (b \<noteq> 0 \<and> b \<noteq> 0x80)"
| "as_bool (b # b' # bs) = (b \<noteq> 0 \<or> as_bool (b' # bs))"

text \<open>\<open>MakeScriptNum\<close> with the minimal-encoding check and the 4-byte limit: little-endian
  magnitude, sign in the top bit of the last byte.\<close>

definition script_num :: "bytes \<Rightarrow> error + int" where
  "script_num v =
     (if length v > 4 then Inl ErrNumberTooBig
      else if v \<noteq> [] \<and> last v AND 0x7f = 0
              \<and> (length v = 1 \<or> v ! (length v - 2) AND 0x80 = 0) then Inl ErrMinimalData
      else if v = [] then Inr 0
      else (let mag = int (le_dec (butlast v @ [last v AND 0x7f])) in
            Inr (if last v AND 0x80 \<noteq> 0 then - mag else mag)))"

text \<open>\<open>PushBool\<close>.\<close>

definition push_bool :: "bool \<Rightarrow> bytes" where
  "push_bool b = (if b then [1] else [])"

definition pop_num :: "bytes list \<Rightarrow> error + (int \<times> bytes list)" where
  "pop_num st =
     (case st of [] \<Rightarrow> Inl ErrInvalidStackOperation
      | x # s \<Rightarrow> ebind (script_num x) (\<lambda>n. Inr (n, s)))"

section \<open>Signature checks\<close>

text \<open>The end of \<open>opcodeCheckSig\<close> once the subscript is prepared: the last byte of
  the signature is the hash type, the rest is checked against the legacy signature hash
  of the transaction for the subscript (an empty signature fails).\<close>

definition sig_verifies ::
  "verifier \<Rightarrow> crypto \<Rightarrow> msgtx \<Rightarrow> nat \<Rightarrow> bytes \<Rightarrow> bytes \<Rightarrow> bytes \<Rightarrow> bool" where
  "sig_verifies v c tx idx subscript sig pk =
     (sig \<noteq> [] \<and>
      ecdsa_verify v pk (calc_signature_hash_raw c subscript (ucast (last sig)) tx idx) (butlast sig))"

text \<open>\<open>opcodeCheckSig\<close>: \<open>removeOpcodeByData(subScript, fullSigBytes)\<close>, then
  \<open>calcSignatureHash\<close> of what is left: a signature never signs itself.\<close>

definition check_sig ::
  "verifier \<Rightarrow> crypto \<Rightarrow> msgtx \<Rightarrow> nat \<Rightarrow> parsed_op list \<Rightarrow> bytes \<Rightarrow> bytes \<Rightarrow> bool" where
  "check_sig v c tx idx sub sig pk =
     sig_verifies v c tx idx (sighash_subscript (remove_opcode_by_data sub sig)) sig pk"

text \<open>The matching loop of \<open>opcodeCheckMultiSig\<close>: signatures and keys both in the order
  they are popped; a key that does not verify the current signature is dropped, and the
  check fails as soon as fewer keys than signatures remain.\<close>

fun check_multisig :: "(bytes \<Rightarrow> bytes \<Rightarrow> bool) \<Rightarrow> bytes list \<Rightarrow> bytes list \<Rightarrow> bool" where
  "check_multisig chk [] pks = True"
| "check_multisig chk (s # ss) [] = False"
| "check_multisig chk (s # ss) (pk # pks) =
     (if length (s # ss) > length (pk # pks) then False
      else if chk s pk then check_multisig chk ss pks
      else check_multisig chk (s # ss) pks)"

text \<open>\<open>opcodeCheckMultiSig\<close>: the key count (at most 20), the keys, the signature count (at
  most the key count), the signatures, and the extra element, which must be empty
  (\<open>ScriptStrictMultiSig\<close>); every signature is removed from the subscript before the
  matching loop hashes it; a failed check with a non-empty signature is \<open>ErrNullFail\<close>
  (\<open>ScriptVerifyNullFail\<close>).\<close>

definition op_checkmultisig ::
  "verifier \<Rightarrow> crypto \<Rightarrow> msgtx \<Rightarrow> nat \<Rightarrow> parsed_op list \<Rightarrow> bytes list \<Rightarrow> error + bytes list" where
  "op_checkmultisig v c tx idx sub st =
     ebind (pop_num st) (\<lambda>(n, s1).
       if n < 0 \<or> n > 20 then Inl ErrInvalidPubKeyCount
       else if length s1 < nat n then Inl ErrInvalidStackOperation
       else ebind (pop_num (drop (nat n) s1)) (\<lambda>(m, s2).
         if m < 0 \<or> m > n then Inl ErrInvalidSignatureCount
         else if length s2 < nat m then Inl ErrInvalidStackOperation
         else (case drop (nat m) s2 of
                 [] \<Rightarrow> Inl ErrInvalidStackOperation
               | dummy # s3 \<Rightarrow>
                   if dummy \<noteq> [] then Inl ErrSigNullDummy
                   else
                     (let script = sighash_subscript (foldl remove_opcode_by_data sub (take (nat m) s2));
                          success = check_multisig (sig_verifies v c tx idx script)
                                      (take (nat m) s2) (take (nat n) s1)
                      in if \<not> success \<and> list_ex (\<lambda>sig. sig \<noteq> []) (take (nat m) s2)
                         then Inl ErrNullFail
                         else Inr (push_bool success # s3)))))"

section \<open>Execution\<close>

text \<open>\<open>parsedOpcode.checkMinimalDataPush\<close>, which the engine applies (\<open>ScriptVerifyMinimalData\<close>)
  to every executed opcode up to \<open>OP_PUSHDATA4\<close>: the data must be pushed with the
  smallest opcode for it.\<close>

fun is_push_data :: "parsed_op \<Rightarrow> bool" where
  "is_push_data (ParsedOp opcode _) = (opcode \<le> OP_PUSHDATA4)"

fun minimal_push :: "parsed_op \<Rightarrow> bool" where
  "minimal_push (ParsedOp opcode d) =
     (let dataLen = length d in
      if dataLen = 0 then opcode = OP_0
      else if dataLen = 1 \<and> 1 \<le> d ! 0 \<and> d ! 0 \<le> 16 then opcode = OP_1 + d ! 0 - 1
      else if dataLen = 1 \<and> d ! 0 = 0x81 then opcode = OP_1NEGATE
      else if dataLen \<le> 75 then unat opcode = dataLen
      else if dataLen \<le> 255 then opcode = OP_PUSHDATA1
      else if dataLen \<le> 65535 then opcode = OP_PUSHDATA2
      else True)"

text \<open>One opcode. \<open>sub\<close> is the parsed script being run (\<open>vm.subScript()\<close>: with
  \<open>OP_CODESEPARATOR\<close> not executed, the whole script). \<open>OP_CHECKSIG\<close> pushes the result
  of the check, except that a failed check with a signature that is not empty once its
  hash-type byte is dropped is \<open>ErrNullFail\<close>.\<close>

definition exec_op ::
  "verifier \<Rightarrow> crypto \<Rightarrow> msgtx \<Rightarrow> nat \<Rightarrow> parsed_op list \<Rightarrow> parsed_op \<Rightarrow> bytes list \<Rightarrow> error + bytes list" where
  "exec_op v c tx idx sub p st =
     (case push_value p of
        Some d \<Rightarrow> if is_push_data p \<and> \<not> minimal_push p then Inl ErrMinimalData else Inr (d # st)
      | None \<Rightarrow>
        (case p of ParsedOp opcode _ \<Rightarrow>
          if opcode = OP_DUP then
            (case st of x # s \<Rightarrow> Inr (x # x # s) | _ \<Rightarrow> Inl ErrInvalidStackOperation)
          else if opcode = OP_HASH160 then
            (case st of x # s \<Rightarrow> Inr (hash160 v x # s) | _ \<Rightarrow> Inl ErrInvalidStackOperation)
          else if opcode = OP_EQUAL then
            (case st of a # b # s \<Rightarrow> Inr (push_bool (a = b) # s) | _ \<Rightarrow> Inl ErrInvalidStackOperation)
          else if opcode = OP_EQUALVERIFY then
            (case st of a # b # s \<Rightarrow> if a = b then Inr s else Inl ErrEqualVerify
             | _ \<Rightarrow> Inl ErrInvalidStackOperation)
          else if opcode = OP_CHECKSIG then
            (case st of
               pk # sig # s \<Rightarrow>
                 if \<not> check_sig v c tx idx sub sig pk \<and> butlast sig \<noteq> [] then Inl ErrNullFail
                 else Inr (push_bool (check_sig v c tx idx sub sig pk) # s)
             | _ \<Rightarrow> Inl ErrInvalidStackOperation)
          else if opcode = OP_CHECKMULTISIG then op_checkmultisig v c tx idx sub st
          else Inl ErrUnmodelledOpcode))"

fun exec_ops ::
  "verifier \<Rightarrow> crypto \<Rightarrow> msgtx \<Rightarrow> nat \<Rightarrow> parsed_op list \<Rightarrow> parsed_op list \<Rightarrow> bytes list \<Rightarrow> error + bytes list" where
  "exec_ops v c tx idx sub [] st = Inr st"
| "exec_ops v c tx idx sub (p # ps) st =
     ebind (exec_op v c tx idx sub p st) (exec_ops v c tx idx sub ps)"

text \<open>\<open>isPushOnly\<close>: every opcode is at most \<open>OP_16\<close>.\<close>

fun push_only :: "parsed_op \<Rightarrow> bool" where
  "push_only (ParsedOp opcode _) = (opcode \<le> OP_16)"

text \<open>\<open>NewEngine\<close> followed by \<open>Execute\<close> for input \<open>idx\<close> of \<open>tx\<close> under btcd's
  \<open>StandardVerifyFlags\<close>: the unlocking script must be push-only (the mempool's
  \<open>IsPushOnlyScript\<close> policy for standard transactions, \<open>ErrNotPushOnly\<close>), runs on an
  empty stack; the locking script runs on the stack it leaves; \<open>CheckErrorCondition\<close>
  with \<open>ScriptVerifyCleanStack\<close> then requires exactly one element (\<open>ErrCleanStack\<close>),
  which must be true (\<open>ErrEvalFalse\<close>).\<close>

definition verify_script ::
  "verifier \<Rightarrow> crypto \<Rightarrow> msgtx \<Rightarrow> nat \<Rightarrow> bytes \<Rightarrow> bytes \<Rightarrow> error + unit" where
  "verify_script v c tx idx sigScript pkScript =
     ebind (parse_script sigScript) (\<lambda>sops.
     if \<not> list_all push_only sops then Inl ErrNotPushOnly else
     ebind (parse_script pkScript) (\<lambda>pops.
     ebind (exec_ops v c tx idx sops sops []) (\<lambda>st.
     ebind (exec_ops v c tx idx pops pops st) (\<lambda>st'.
       case st' of
         [x] \<Rightarrow> if as_bool x then Inr () else Inl ErrEvalFalse
       | _ \<Rightarrow> Inl ErrCleanStack))))"

section \<open>Lemmas\<close>

lemma exec_ops_append:
  "exec_ops v c tx idx sub (ps @ qs) st = ebind (exec_ops v c tx idx sub ps st) (exec_ops v c tx idx sub qs)"
proof (induction ps arbitrary: st)
  case Nil
  then show ?case by simp
next
  case (Cons p ps)
  have "exec_ops v c tx idx sub (ps @ qs) = (\<lambda>x. ebind (exec_ops v c tx idx sub ps x) (exec_ops v c tx idx sub qs))"
    by (rule ext) (rule Cons.IH)
  then show ?case by (simp add: ebind_assoc)
qed

lemma exec_ops_Nil_fun [simp]: "exec_ops v c tx idx sub [] = Inr"
  by (rule ext) simp

text \<open>The builder's pushes pass the engine's minimal-push check.\<close>

lemma builder_token_minimal [simp]:
  "(is_push_data (builder_token (AddData d)) \<and> \<not> minimal_push (builder_token (AddData d))) = False"
proof -
  have small: "OP_PUSHDATA4 < 80 + b" if "b \<noteq> 0" "b \<le> 16" for b :: byte
  proof -
    have "unat b \<le> 16" using that by (simp add: word_le_nat_alt)
    then have "unat (80 + b) = 80 + unat b" by (simp add: unat_word_ariths)
    then show ?thesis using that by (simp add: word_less_nat_alt)
  qed
  have u: "unat (word_of_nat (length d) :: byte) = length d" if "length d < 76"
    using that by (simp add: unat_of_nat)
  show ?thesis
    using small [of "d ! 0"] u by (auto simp: Let_def not_le split: if_splits)
qed

lemma exec_op_push:
  "push_value p = Some d \<Longrightarrow> \<not> (is_push_data p \<and> \<not> minimal_push p) \<Longrightarrow> exec_op v c tx idx sub p st = Inr (d # st)"
  by (simp add: exec_op_def)

lemma exec_ops_pushes:
  assumes "list_all (\<lambda>d. length d \<le> MaxScriptElementSize) ds"
  shows "exec_ops v c tx idx sub (map (builder_token \<circ> AddData) ds) st = Inr (rev (map minimal_data ds) @ st)"
  using assms
  by (induction ds arbitrary: st) (simp_all add: exec_op_push push_value_builder_token del: builder_token.simps)

lemma push_only_builder_token: "push_only (builder_token (AddData d))"
  by (cases "builder_token (AddData d)") (simp add: builder_token_data_opcode)

text \<open>Signatures longer than every push of a built script remove nothing from it.\<close>

lemma remove_sigs_built:
  assumes "\<forall>d. AddData d \<in> set ops \<longrightarrow> length d \<le> n" and "\<forall>sig\<in>set sigs. n < length sig"
  shows "foldl remove_opcode_by_data (map builder_token ops) sigs = map builder_token ops"
  using assms(2)
proof (induction sigs)
  case (Cons sig sigs)
  have "length (pop_data (builder_token x)) < length sig" if "x \<in> set ops" for x
  proof (cases x)
    case (AddData d)
    then show ?thesis using that assms(1) Cons.prems pop_data_builder_token [of d] by force
  qed (use Cons.prems in force)
  then have "remove_opcode_by_data (map builder_token ops) sig = map builder_token ops"
    by (intro remove_opcode_by_data_short) auto
  then show ?case using Cons by simp
qed simp

lemma as_bool_push_bool [simp]: "as_bool (push_bool b) = b"
  by (simp add: push_bool_def)

lemma parse_two_pushes:
  assumes "length a \<le> MaxScriptElementSize" "length b \<le> MaxScriptElementSize"
  shows "parse_script (push_encoding a @ push_encoding b) = Inr [builder_token (AddData a), builder_token (AddData b)]"
  using build_tokenizes [OF build_two_pushes [OF assms]] by simp


lemma build_op_two_pushes:
  assumes "length a \<le> MaxScriptElementSize" "length b \<le> MaxScriptElementSize"
  shows "build [AddOp x, AddData a, AddData b] = Inr (x # push_encoding a @ push_encoding b)"
proof -
  have "canonical_data_size a \<le> 525" "canonical_data_size b \<le> 525"
    using assms canonical_data_size_le [of a] canonical_data_size_le [of b]
    by (simp_all add: MaxScriptElementSize_def)
  then show ?thesis using assms
    by (simp add: build_def script_def new_script_builder_def add_op_def add_data_def length_push_encoding
        MaxScriptSize_def MaxScriptElementSize_def)
qed

lemma multisig_script_tokens:
  assumes "multisig_script pk1 pk2 pk3 = Inr ms"
  shows "parse_script ms = Inr [ParsedOp OP_2 [], builder_token (AddData pk1), builder_token (AddData pk2),
           builder_token (AddData pk3), ParsedOp OP_3 [], ParsedOp OP_CHECKMULTISIG []]"
  using build_tokenizes [of "[AddOp OP_2, AddData pk1, AddData pk2, AddData pk3, AddOp OP_3, AddOp OP_CHECKMULTISIG]" ms]
    assms by (simp add: multisig_script_build del: builder_token.simps(2))

lemma op_checkmultisig_2of3:
  "op_checkmultisig v c tx idx sub ([3] # pk3 # pk2 # pk1 # [2] # a # b # d # s)
   = (if d \<noteq> [] then Inl ErrSigNullDummy
      else if check_multisig (sig_verifies v c tx idx (sighash_subscript (foldl remove_opcode_by_data sub [a, b])))
                [a, b] [pk3, pk2, pk1] then Inr (push_bool True # s)
      else if a \<noteq> [] \<or> b \<noteq> [] then Inl ErrNullFail
      else Inr (push_bool False # s))"
  by (simp add: op_checkmultisig_def pop_num_def script_num_def Let_def)

lemma exec_multisig_lock:
  assumes "length pk1 = 33" "length pk2 = 33" "length pk3 = 33"
  shows "exec_ops v c tx idx sub [ParsedOp OP_2 [], builder_token (AddData pk1), builder_token (AddData pk2),
           builder_token (AddData pk3), ParsedOp OP_3 [], ParsedOp OP_CHECKMULTISIG []] st
         = op_checkmultisig v c tx idx sub ([3] # pk3 # pk2 # pk1 # [2] # st)"
proof -
  have "minimal_data pk1 = pk1" "minimal_data pk2 = pk2" "minimal_data pk3 = pk3"
    using assms by (auto simp: minimal_data_def)
  with assms show ?thesis
    by (simp add: exec_op_def push_value_builder_token MaxScriptElementSize_def del: builder_token.simps(2))
qed

lemma exec_dummy_two_pushes:
  assumes "length a \<le> MaxScriptElementSize" "length b \<le> MaxScriptElementSize" "a \<noteq> [0]" "b \<noteq> [0]"
    and "plain_op (AddOp x)" "push_value (ParsedOp x []) = Some d"
  shows "exec_ops v c tx idx sub [ParsedOp x [], builder_token (AddData a), builder_token (AddData b)] []
         = Inr [b, a, d]"
proof -
  have "\<not> (is_push_data (ParsedOp x []) \<and> \<not> minimal_push (ParsedOp x []))"
    using assms(5) by (auto simp: not_le)
  then show ?thesis using assms
    by (simp add: exec_op_def push_value_builder_token minimal_data_def del: builder_token.simps(2))
qed

text \<open>The matching loop with its early exit is the ordered embedding of the signatures
  into the keys (\<open>list_emb\<close> of \<open>HOL-Library.Sublist\<close>): the exit only cuts off searches
  that cannot succeed.\<close>

lemma check_multisig_list_emb: "check_multisig chk ss pks = list_emb chk ss pks"
proof (induction chk ss pks rule: check_multisig.induct)
  case (3 chk s ss pk pks)
  show ?case
  proof (cases "length (s # ss) > length (pk # pks)")
    case True
    then show ?thesis by (auto dest: list_emb_length)
  next
    case False
    then show ?thesis using 3 by (cases "chk s pk") simp_all
  qed
qed simp_all

text \<open>The multisig script of main.go lines 70-71 signed by two signatures longer than its
  keys: nothing is removed, and the hash covers the script itself.\<close>

lemma multisig_subscript:
  assumes "multisig_script pk1 pk2 pk3 = Inr ms"
    and "length pk1 = 33" "length pk2 = 33" "length pk3 = 33" "33 < length a" "33 < length b"
  shows "sighash_subscript (foldl remove_opcode_by_data [ParsedOp OP_2 [], builder_token (AddData pk1),
           builder_token (AddData pk2), builder_token (AddData pk3), ParsedOp OP_3 [], ParsedOp OP_CHECKMULTISIG []]
           [b, a]) = ms"
proof -
  let ?ops = "[AddOp OP_2, AddData pk1, AddData pk2, AddData pk3, AddOp OP_3, AddOp OP_CHECKMULTISIG]"
  have "foldl remove_opcode_by_data (map builder_token ?ops) [b, a] = map builder_token ?ops"
    using assms(2-6) by (intro remove_sigs_built [where n = 33]) auto
  moreover have "sighash_subscript (map builder_token ?ops) = ms"
    using assms(1) multisig_script_tokens [OF assms(1)]
    by (intro sighash_subscript_built [where ops = ?ops]) (simp_all add: multisig_script_build del: builder_token.simps(2))
  ultimately show ?thesis by (simp del: builder_token.simps(2))
qed

text \<open>An opcode pushing the dummy element, then two signatures, against the script of
  main.go lines 70-71: a dummy that is not empty is an error, otherwise the matching loop
  decides.\<close>

lemma verify_multisig_dummy:
  assumes "multisig_script pk1 pk2 pk3 = Inr ms"
    and "length pk1 = 33" "length pk2 = 33" "length pk3 = 33"
    and "length a \<le> MaxScriptElementSize" "length b \<le> MaxScriptElementSize" "33 < length a" "33 < length b"
    and "plain_op (AddOp x)" "x \<le> OP_16" "push_value (ParsedOp x []) = Some d"
  shows "verify_script v c stx idx (x # push_encoding a @ push_encoding b) ms
         = (if d \<noteq> [] then Inl ErrSigNullDummy
            else if check_multisig (sig_verifies v c stx idx ms) [b, a] [pk3, pk2, pk1] then Inr ()
            else Inl ErrNullFail)"
proof -
  let ?u = "x # push_encoding a @ push_encoding b"
  let ?us = "[ParsedOp x [], builder_token (AddData a), builder_token (AddData b)]"
  have pu: "parse_script ?u = Inr ?us"
    using build_tokenizes [OF build_op_two_pushes [OF assms(5,6)]] assms(9) by (simp del: builder_token.simps(2))
  have po: "list_all push_only ?us"
    using assms(10) by (simp add: push_only_builder_token del: builder_token.simps(2))
  have "a \<noteq> [0]" "b \<noteq> [0]" using assms(7,8) by auto
  then have eu: "exec_ops v c stx idx ?us ?us [] = Inr [b, a, d]"
    using assms(5,6,9,11) by (intro exec_dummy_two_pushes)
  have ne: "a \<noteq> []" "b \<noteq> []" using assms(7,8) by auto
  show ?thesis
    using multisig_script_tokens [OF assms(1)] pu po eu multisig_subscript [OF assms(1-4,7,8)] ne
    by (simp add: verify_script_def exec_multisig_lock [OF assms(2-4)] op_checkmultisig_2of3 push_bool_def
        del: builder_token.simps(2) exec_ops.simps(2))
qed

lemma verify_multisig_two:
  assumes "multisig_script pk1 pk2 pk3 = Inr ms"
    and "length pk1 = 33" "length pk2 = 33" "length pk3 = 33"
    and "length a \<le> MaxScriptElementSize" "length b \<le> MaxScriptElementSize" "33 < length a" "33 < length b"
  shows "verify_script v c stx idx (OP_0 # push_encoding a @ push_encoding b) ms
         = (if check_multisig (sig_verifies v c stx idx ms) [b, a] [pk3, pk2, pk1] then Inr () else Inl ErrNullFail)"
  using verify_multisig_dummy [OF assms, of OP_0 "[]"] by simp

text \<open>The pay-to-public-key-hash script of \<open>PayToAddrScript\<close>.\<close>

lemma p2pkh_tokens:
  assumes "length h = 20"
  shows "parse_script ([OP_DUP, OP_HASH160, 0x14] @ h @ [OP_EQUALVERIFY, OP_CHECKSIG]) =
         Inr [ParsedOp OP_DUP [], ParsedOp OP_HASH160 [], builder_token (AddData h),
              ParsedOp OP_EQUALVERIFY [], ParsedOp OP_CHECKSIG []]"
  using build_tokenizes [of "[AddOp OP_DUP, AddOp OP_HASH160, AddData h, AddOp OP_EQUALVERIFY, AddOp OP_CHECKSIG]"]
    pay_to_pubkey_hash_script [OF assms]
  by (simp del: builder_token.simps(2))

lemma exec_two_pushes:
  assumes "length a \<le> MaxScriptElementSize" "length b \<le> MaxScriptElementSize" "a \<noteq> [0]" "b \<noteq> [0]"
  shows "exec_ops v c tx idx sub [builder_token (AddData a), builder_token (AddData b)] [] = Inr [b, a]"
  using assms
  by (simp add: exec_op_def push_value_builder_token minimal_data_def del: builder_token.simps(2))

lemma exec_p2pkh_lock:
  assumes "length h = 20"
  shows "exec_ops v c tx idx sub [ParsedOp OP_DUP [], ParsedOp OP_HASH160 [], builder_token (AddData h),
              ParsedOp OP_EQUALVERIFY [], ParsedOp OP_CHECKSIG []] (pk # sig # st)
         = (if h = hash160 v pk then
              (if \<not> check_sig v c tx idx sub sig pk \<and> butlast sig \<noteq> [] then Inl ErrNullFail
               else Inr (push_bool (check_sig v c tx idx sub sig pk) # st))
            else Inl ErrEqualVerify)"
proof -
  have "push_value (builder_token (AddData h)) = Some h"
    using assms push_value_builder_token [of h] by (simp add: minimal_data_def MaxScriptElementSize_def)
  then show ?thesis by (simp add: exec_op_def del: builder_token.simps(2))
qed

text \<open>A signature longer than the 20-byte hash removes nothing from the
  pay-to-public-key-hash script, which is hashed as it is.\<close>

lemma p2pkh_check_sig:
  assumes "length h = 20" "20 < length a"
  shows "check_sig v c tx idx [ParsedOp OP_DUP [], ParsedOp OP_HASH160 [], builder_token (AddData h),
           ParsedOp OP_EQUALVERIFY [], ParsedOp OP_CHECKSIG []] a pk
         = sig_verifies v c tx idx ([OP_DUP, OP_HASH160, 0x14] @ h @ [OP_EQUALVERIFY, OP_CHECKSIG]) a pk"
proof -
  let ?ops = "[AddOp OP_DUP, AddOp OP_HASH160, AddData h, AddOp OP_EQUALVERIFY, AddOp OP_CHECKSIG]"
  have "foldl remove_opcode_by_data (map builder_token ?ops) [a] = map builder_token ?ops"
    using assms by (intro remove_sigs_built [where n = 20]) auto
  moreover have "sighash_subscript (map builder_token ?ops) = [OP_DUP, OP_HASH160, 0x14] @ h @ [OP_EQUALVERIFY, OP_CHECKSIG]"
    using pay_to_pubkey_hash_script [OF assms(1)] p2pkh_tokens [OF assms(1)]
    by (intro sighash_subscript_built [where ops = ?ops]) (simp_all del: builder_token.simps(2))
  ultimately show ?thesis by (simp add: check_sig_def del: builder_token.simps(2))
qed

lemma verify_p2pkh:
  assumes "length h = 20" "length a \<le> MaxScriptElementSize" "length pk \<le> MaxScriptElementSize"
    "20 < length a" "pk \<noteq> [0]"
  shows "verify_script v c tx idx (push_encoding a @ push_encoding pk)
           ([OP_DUP, OP_HASH160, 0x14] @ h @ [OP_EQUALVERIFY, OP_CHECKSIG])
         = (if h \<noteq> hash160 v pk then Inl ErrEqualVerify
            else if sig_verifies v c tx idx ([OP_DUP, OP_HASH160, 0x14] @ h @ [OP_EQUALVERIFY, OP_CHECKSIG]) a pk
            then Inr () else Inl ErrNullFail)"
proof -
  let ?us = "[builder_token (AddData a), builder_token (AddData pk)]"
  have po: "list_all push_only ?us"
    by (simp add: push_only_builder_token del: builder_token.simps(2))
  have "a \<noteq> [0]" using assms(4) by auto
  then have eu: "exec_ops v c tx idx ?us ?us [] = Inr [pk, a]"
    using assms(2,3,5) by (intro exec_two_pushes)
  let ?ps = "[ParsedOp OP_DUP [], ParsedOp OP_HASH160 [], builder_token (AddData h),
              ParsedOp OP_EQUALVERIFY [], ParsedOp OP_CHECKSIG []]"
  have bl: "butlast a \<noteq> []" using assms(4) by (cases a rule: rev_cases) auto
  have lock: "exec_ops v c tx idx ?ps ?ps [pk, a]
      = (if h = hash160 v pk
         then (if \<not> sig_verifies v c tx idx ([OP_DUP, OP_HASH160, 0x14] @ h @ [OP_EQUALVERIFY, OP_CHECKSIG]) a pk
                  \<and> butlast a \<noteq> [] then Inl ErrNullFail
               else Inr [push_bool (sig_verifies v c tx idx ([OP_DUP, OP_HASH160, 0x14] @ h @ [OP_EQUALVERIFY, OP_CHECKSIG]) a pk)])
         else Inl ErrEqualVerify)"
    by (simp only: exec_p2pkh_lock [OF assms(1)] p2pkh_check_sig [OF assms(1,4)])
  show ?thesis
    using parse_two_pushes [OF assms(2,3)] p2pkh_tokens [OF assms(1)] po eu lock bl
    by (simp add: verify_script_def push_bool_def del: builder_token.simps(2) exec_ops.simps(2))
qed

section \<open>Properties of the multisig script\<close>

text \<open>C8. The 2-of-3 script of main.go lines 70-71 is satisfied by the unlocking script
  \<open>OP_0 <sig1> <sig3>\<close> with signatures (hash type ALL) of the first and the third key over
  the signature hash of the spending transaction for that script. The signatures are
  longer than the keys (DER signatures are 70 to 72 bytes), so none of them is removed
  from the signed script.\<close>

theorem multisig_2of3_verifies:
  assumes "multisig_script pk1 pk2 pk3 = Inr ms"
    and "length pk1 = 33" "length pk2 = 33" "length pk3 = 33"
    and "33 \<le> length s1" "33 \<le> length s3"
    and "length s1 < MaxScriptElementSize" "length s3 < MaxScriptElementSize"
    and "ecdsa_verify v pk1 (calc_signature_hash_raw c ms SigHashAll stx idx) s1"
    and "ecdsa_verify v pk3 (calc_signature_hash_raw c ms SigHashAll stx idx) s3"
  shows "verify_script v c stx idx (OP_0 # push_encoding (s1 @ [1]) @ push_encoding (s3 @ [1])) ms = Inr ()"
proof -
  have "check_multisig (sig_verifies v c stx idx ms) [s3 @ [1], s1 @ [1]] [pk3, pk2, pk1]"
    using assms(9,10) by (simp add: sig_verifies_def SigHashAll_def)
  then show ?thesis using assms(5-8) by (simp add: verify_multisig_two [OF assms(1-4)])
qed

lemma multisig_2of3_verifies_witness:
  "\<exists>ms. multisig_script (replicate 33 2) (replicate 33 3) (replicate 33 4) = Inr ms
     \<and> verify_script \<lparr>hash160 = (\<lambda>_. []), ecdsa_verify = (\<lambda>pk m s. take 1 s = take 1 pk)\<rparr> \<lparr>double_sha256 = (\<lambda>_. []), ecdsa_sign = (\<lambda>_ _. None), pub_key_of = (\<lambda>_ _. [])\<rparr> \<lparr>version = 1, tx_in = [], tx_out = [], lock_time = 0\<rparr> 0 (OP_0 # push_encoding (replicate 40 2 @ [1]) @ push_encoding (replicate 40 4 @ [1])) ms = Inr ()"
proof -
  obtain ms where ms: "multisig_script (replicate 33 2) (replicate 33 3) (replicate 33 4) = Inr ms"
    using multisig_script_ok [of "replicate 33 2" "replicate 33 3" "replicate 33 4"] by auto
  have "verify_script \<lparr>hash160 = (\<lambda>_. []), ecdsa_verify = (\<lambda>pk m s. take 1 s = take 1 pk)\<rparr> \<lparr>double_sha256 = (\<lambda>_. []), ecdsa_sign = (\<lambda>_ _. None), pub_key_of = (\<lambda>_ _. [])\<rparr> \<lparr>version = 1, tx_in = [], tx_out = [], lock_time = 0\<rparr> 0 (OP_0 # push_encoding (replicate 40 2 @ [1]) @ push_encoding (replicate 40 4 @ [1])) ms = Inr ()"
    by (rule multisig_2of3_verifies [OF ms]) (simp_all add: MaxScriptElementSize_def)
  with ms show ?thesis by blast
qed

text \<open>C9. The order of the signatures matters: \<open>OP_0 <sig3> <sig1>\<close> fails against the
  same script when the first key's signature verifies under neither the second nor the
  third key; since the failed signatures are not empty, btcd's null-fail rule (a standard
  flag) turns the failure into \<open>ErrNullFail\<close>.\<close>

theorem multisig_swapped_fails:
  assumes "multisig_script pk1 pk2 pk3 = Inr ms"
    and "length pk1 = 33" "length pk2 = 33" "length pk3 = 33"
    and "33 \<le> length s1" "33 \<le> length s3"
    and "length s1 < MaxScriptElementSize" "length s3 < MaxScriptElementSize"
    and "\<not> ecdsa_verify v pk3 (calc_signature_hash_raw c ms SigHashAll stx idx) s1"
    and "\<not> ecdsa_verify v pk2 (calc_signature_hash_raw c ms SigHashAll stx idx) s1"
  shows "verify_script v c stx idx (OP_0 # push_encoding (s3 @ [1]) @ push_encoding (s1 @ [1])) ms = Inl ErrNullFail"
proof -
  have "\<not> check_multisig (sig_verifies v c stx idx ms) [s1 @ [1], s3 @ [1]] [pk3, pk2, pk1]"
    using assms(9,10) by (simp add: sig_verifies_def SigHashAll_def)
  then show ?thesis using assms(5-8) by (simp add: verify_multisig_two [OF assms(1-4)])
qed

lemma multisig_swapped_fails_witness:
  "\<exists>ms. multisig_script (replicate 33 2) (replicate 33 3) (replicate 33 4) = Inr ms
     \<and> verify_script \<lparr>hash160 = (\<lambda>_. []), ecdsa_verify = (\<lambda>pk m s. take 1 s = take 1 pk)\<rparr> \<lparr>double_sha256 = (\<lambda>_. []), ecdsa_sign = (\<lambda>_ _. None), pub_key_of = (\<lambda>_ _. [])\<rparr> \<lparr>version = 1, tx_in = [], tx_out = [], lock_time = 0\<rparr> 0 (OP_0 # push_encoding (replicate 40 4 @ [1]) @ push_encoding (replicate 40 2 @ [1])) ms = Inl ErrNullFail"
proof -
  obtain ms where ms: "multisig_script (replicate 33 2) (replicate 33 3) (replicate 33 4) = Inr ms"
    using multisig_script_ok [of "replicate 33 2" "replicate 33 3" "replicate 33 4"] by auto
  have "verify_script \<lparr>hash160 = (\<lambda>_. []), ecdsa_verify = (\<lambda>pk m s. take 1 s = take 1 pk)\<rparr> \<lparr>double_sha256 = (\<lambda>_. []), ecdsa_sign = (\<lambda>_ _. None), pub_key_of = (\<lambda>_ _. [])\<rparr> \<lparr>version = 1, tx_in = [], tx_out = [], lock_time = 0\<rparr> 0 (OP_0 # push_encoding (replicate 40 4 @ [1]) @ push_encoding (replicate 40 2 @ [1])) ms = Inl ErrNullFail"
    by (rule multisig_swapped_fails [OF ms]) (simp_all add: MaxScriptElementSize_def)
  with ms show ?thesis by blast
qed

text \<open>C10. Against the script of main.go lines 70-71, an unlocking script
  \<open>OP_0 <a> <b>\<close> with pushes longer than the keys succeeds exactly when \<open>a\<close> and \<open>b\<close>
  are signatures of two of the keys, over the hash for the script, taken in the keys'
  order: the engine's greedy matching loop decides the ordered embedding of the
  signatures into the keys.\<close>

theorem multisig_verify_iff:
  assumes "multisig_script pk1 pk2 pk3 = Inr ms"
    and "length pk1 = 33" "length pk2 = 33" "length pk3 = 33"
    and "length a \<le> MaxScriptElementSize" "length b \<le> MaxScriptElementSize" "33 < length a" "33 < length b"
  shows "verify_script v c stx idx (OP_0 # push_encoding a @ push_encoding b) ms = Inr ()
         \<longleftrightarrow> list_emb (sig_verifies v c stx idx ms) [a, b] [pk1, pk2, pk3]"
proof -
  have "list_emb chk [b, a] [pk3, pk2, pk1] = list_emb chk [a, b] [pk1, pk2, pk3]" for chk
    by (auto simp: list_emb_code)
  then show ?thesis
    by (simp add: verify_multisig_two [OF assms] check_multisig_list_emb)
qed

lemma multisig_verify_iff_witness:
  "\<exists>ms. multisig_script (replicate 33 2) (replicate 33 3) (replicate 33 4) = Inr ms
     \<and> (verify_script \<lparr>hash160 = (\<lambda>_. []), ecdsa_verify = (\<lambda>pk m s. take 1 s = take 1 pk)\<rparr> \<lparr>double_sha256 = (\<lambda>_. []), ecdsa_sign = (\<lambda>_ _. None), pub_key_of = (\<lambda>_ _. [])\<rparr> \<lparr>version = 1, tx_in = [], tx_out = [], lock_time = 0\<rparr> 0 (OP_0 # push_encoding (replicate 40 3) @ push_encoding (replicate 40 4)) ms = Inr ()
        \<longleftrightarrow> list_emb (sig_verifies \<lparr>hash160 = (\<lambda>_. []), ecdsa_verify = (\<lambda>pk m s. take 1 s = take 1 pk)\<rparr> \<lparr>double_sha256 = (\<lambda>_. []), ecdsa_sign = (\<lambda>_ _. None), pub_key_of = (\<lambda>_ _. [])\<rparr> \<lparr>version = 1, tx_in = [], tx_out = [], lock_time = 0\<rparr> 0 ms) [replicate 40 3, replicate 40 4] [replicate 33 2, replicate 33 3, replicate 33 4])"
proof -
  obtain ms where ms: "multisig_script (replicate 33 2) (replicate 33 3) (replicate 33 4) = Inr ms"
    using multisig_script_ok [of "replicate 33 2" "replicate 33 3" "replicate 33 4"] by auto
  have "verify_script \<lparr>hash160 = (\<lambda>_. []), ecdsa_verify = (\<lambda>pk m s. take 1 s = take 1 pk)\<rparr> \<lparr>double_sha256 = (\<lambda>_. []), ecdsa_sign = (\<lambda>_ _. None), pub_key_of = (\<lambda>_ _. [])\<rparr> \<lparr>version = 1, tx_in = [], tx_out = [], lock_time = 0\<rparr> 0 (OP_0 # push_encoding (replicate 40 3) @ push_encoding (replicate 40 4)) ms = Inr ()
        \<longleftrightarrow> list_emb (sig_verifies \<lparr>hash160 = (\<lambda>_. []), ecdsa_verify = (\<lambda>pk m s. take 1 s = take 1 pk)\<rparr> \<lparr>double_sha256 = (\<lambda>_. []), ecdsa_sign = (\<lambda>_ _. None), pub_key_of = (\<lambda>_ _. [])\<rparr> \<lparr>version = 1, tx_in = [], tx_out = [], lock_time = 0\<rparr> 0 ms) [replicate 40 3, replicate 40 4] [replicate 33 2, replicate 33 3, replicate 33 4]"
    by (rule multisig_verify_iff [OF ms]) (simp_all add: MaxScriptElementSize_def)
  with ms show ?thesis by blast
qed

text \<open>C13. The extra element \<open>OP_CHECKMULTISIG\<close> pops must be empty (btcd's
  \<open>ScriptStrictMultiSig\<close>, a standard flag): against the script of main.go lines 70-71,
  an unlocking script \<open>OP_1 <a> <b>\<close> fails with \<open>ErrSigNullDummy\<close> before any
  signature is checked.\<close>

theorem multisig_nonnull_dummy:
  assumes "multisig_script pk1 pk2 pk3 = Inr ms"
    and "length pk1 = 33" "length pk2 = 33" "length pk3 = 33"
    and "length a \<le> MaxScriptElementSize" "length b \<le> MaxScriptElementSize" "33 < length a" "33 < length b"
  shows "verify_script v c stx idx (OP_1 # push_encoding a @ push_encoding b) ms = Inl ErrSigNullDummy"
  using verify_multisig_dummy [OF assms, of OP_1 "[1]"] by simp

lemma multisig_nonnull_dummy_witness:
  "\<exists>ms. multisig_script (replicate 33 2) (replicate 33 3) (replicate 33 4) = Inr ms
     \<and> verify_script \<lparr>hash160 = (\<lambda>_. []), ecdsa_verify = (\<lambda>pk m s. take 1 s = take 1 pk)\<rparr> \<lparr>double_sha256 = (\<lambda>_. []), ecdsa_sign = (\<lambda>_ _. None), pub_key_of = (\<lambda>_ _. [])\<rparr> \<lparr>version = 1, tx_in = [], tx_out = [], lock_time = 0\<rparr> 0 (OP_1 # push_encoding (replicate 40 2) @ push_encoding (replicate 40 4)) ms
         = Inl ErrSigNullDummy"
proof -
  obtain ms where ms: "multisig_script (replicate 33 2) (replicate 33 3) (replicate 33 4) = Inr ms"
    using multisig_script_ok [of "replicate 33 2" "replicate 33 3" "replicate 33 4"] by auto
  have "verify_script \<lparr>hash160 = (\<lambda>_. []), ecdsa_verify = (\<lambda>pk m s. take 1 s = take 1 pk)\<rparr> \<lparr>double_sha256 = (\<lambda>_. []), ecdsa_sign = (\<lambda>_ _. None), pub_key_of = (\<lambda>_ _. [])\<rparr> \<lparr>version = 1, tx_in = [], tx_out = [], lock_time = 0\<rparr> 0 (OP_1 # push_encoding (replicate 40 2) @ push_encoding (replicate 40 4)) ms
         = Inl ErrSigNullDummy"
    by (rule multisig_nonnull_dummy [OF ms]) (simp_all add: MaxScriptElementSize_def)
  with ms show ?thesis by blast
qed

text \<open>C14. One signature after the dummy is too few for the 2-of-3 script of main.go lines
  70-71: \<open>OP_CHECKMULTISIG\<close> takes the dummy as the second signature and then finds no
  extra element, and the engine stops with \<open>ErrInvalidStackOperation\<close>.\<close>

theorem multisig_one_signature_error:
  assumes "multisig_script pk1 pk2 pk3 = Inr ms"
    and "length pk1 = 33" "length pk2 = 33" "length pk3 = 33"
    and "length a \<le> MaxScriptElementSize" "33 < length a"
  shows "verify_script v c stx idx (OP_0 # push_encoding a) ms = Inl ErrInvalidStackOperation"
proof -
  let ?us = "[ParsedOp OP_0 [], builder_token (AddData a)]"
  have "canonical_data_size a \<le> 525"
    using assms(5) canonical_data_size_le [of a] by (simp add: MaxScriptElementSize_def)
  then have "build [AddOp OP_0, AddData a] = Inr (OP_0 # push_encoding a)"
    using assms(5) by (simp add: build_def script_def new_script_builder_def add_op_def add_data_def
        length_push_encoding MaxScriptSize_def MaxScriptElementSize_def)
  then have pu: "parse_script (OP_0 # push_encoding a) = Inr ?us"
    using build_tokenizes by (fastforce simp del: builder_token.simps(2))
  have po: "list_all push_only ?us" by (simp add: push_only_builder_token del: builder_token.simps(2))
  have "a \<noteq> [0]" using assms(6) by auto
  then have eu: "exec_ops v c stx idx ?us ?us [] = Inr [a, []]"
    using assms(5) by (simp add: exec_op_def push_value_builder_token minimal_data_def del: builder_token.simps(2))
  have "op_checkmultisig v c stx idx sub ([3] # pk3 # pk2 # pk1 # [2] # [a, []]) = Inl ErrInvalidStackOperation" for sub
    by (simp add: op_checkmultisig_def pop_num_def script_num_def)
  then show ?thesis
    using multisig_script_tokens [OF assms(1)] pu po eu
    by (simp add: verify_script_def exec_multisig_lock [OF assms(2-4)] del: builder_token.simps(2) exec_ops.simps(2))
qed

lemma multisig_one_signature_error_witness:
  "\<exists>ms. multisig_script (replicate 33 2) (replicate 33 3) (replicate 33 4) = Inr ms
     \<and> verify_script \<lparr>hash160 = (\<lambda>_. []), ecdsa_verify = (\<lambda>pk m s. take 1 s = take 1 pk)\<rparr> \<lparr>double_sha256 = (\<lambda>_. []), ecdsa_sign = (\<lambda>_ _. None), pub_key_of = (\<lambda>_ _. [])\<rparr> \<lparr>version = 1, tx_in = [], tx_out = [], lock_time = 0\<rparr> 0 (OP_0 # push_encoding (replicate 40 2)) ms = Inl ErrInvalidStackOperation"
proof -
  obtain ms where ms: "multisig_script (replicate 33 2) (replicate 33 3) (replicate 33 4) = Inr ms"
    using multisig_script_ok [of "replicate 33 2" "replicate 33 3" "replicate 33 4"] by auto
  have "verify_script \<lparr>hash160 = (\<lambda>_. []), ecdsa_verify = (\<lambda>pk m s. take 1 s = take 1 pk)\<rparr> \<lparr>double_sha256 = (\<lambda>_. []), ecdsa_sign = (\<lambda>_ _. None), pub_key_of = (\<lambda>_ _. [])\<rparr> \<lparr>version = 1, tx_in = [], tx_out = [], lock_time = 0\<rparr> 0 (OP_0 # push_encoding (replicate 40 2)) ms = Inl ErrInvalidStackOperation"
    by (rule multisig_one_signature_error [OF ms]) (simp_all add: MaxScriptElementSize_def)
  with ms show ?thesis by blast
qed

end
