(* ===== verification/Spec2Isabelle.thy ===== *)
theory Spec2Isabelle
  imports Program Interp
begin

text \<open>
  \<^bold>\<open>A verification development of qshuai/btakl.\<close>

  The program (\<open>src/main.go\<close>) builds, signs and prints one Bitcoin testnet
  transaction: it decodes a base58 address into a pay-to-public-key-hash locking script
  (\<open>getPkScript\<close>), parses the hash of the output it spends, decodes a WIF private key,
  builds a 2-of-3 multisig locking script from three hex-encoded public keys, assembles a
  transaction with one input and two outputs (\<open>assembleTx\<close>), signs its input with the
  legacy \<open>SIGHASH_ALL\<close> algorithm (\<open>sign\<close>), serializes it and prints its hash and its
  raw bytes in hex. Everything but \<open>main\<close>, \<open>getPkScript\<close> and \<open>assembleTx\<close> is btcd and
  btcutil library code; the parts of it the program depends on are modelled from their
  documented behaviour (the \<open>spec_modelled\<close> rows of the manifest), the cryptography and the
  two decoders are parameters.

  \<^bold>\<open>Theories.\<close>
  \<^item> \<open>Prelude\<close>: bytes and fixed-width words (\<open>8/16/32/64 word\<close>), the \<open>error\<close> type of
    all failures and the result type \<open>error + 'a\<close> with its bind \<open>ebind\<close>; byte readers
    \<open>bytes \<Rightarrow> error + ('a \<times> bytes)\<close> returning the rest of the input; little-endian
    words (\<open>put_word\<close>, \<open>read_word\<close>), hex (\<open>hex_encode\<close>, \<open>hex_decode\<close>, and
    \<open>hex_decode_prefix\<close>, the bytes \<open>hex.DecodeString\<close> returns with an error). Lemmas: the
    codec round trips.
  \<^item> \<open>Wire\<close>: \<open>wire.MsgTx\<close> as the records \<open>outpoint\<close>, \<open>txin\<close>, \<open>txout\<close>, \<open>msgtx\<close>;
    compact integers with btcd's canonical-encoding check; \<open>serialize\<close> (\<open>BtcEncode\<close>
    without witness), \<open>deserialize_no_witness\<close> with the \<open>MaxMessagePayload\<close> limits,
    \<open>serialize_size\<close>, \<open>tx_hash\<close> and the hash string of \<open>chainhash\<close>. Lemmas: the round
    trip \<open>deserialize (serialize tx) = tx\<close> for every transaction within the protocol
    limits (\<open>wf_tx\<close>), the size formula, the hash-string round trip, the rejection of
    non-canonical compact integers.
  \<^item> \<open>Script\<close>: \<open>txscript.ScriptBuilder\<close> as a record with a sticky error and one
    function per method (\<open>add_op\<close>, \<open>add_data\<close> with the minimal push encoding and both
    size checks, \<open>script\<close>); a chain of calls is a \<open>builder_op list\<close> folded by
    \<open>builder_step\<close>; the tokenizer \<open>parse_script\<close> (btcd's \<open>parseScript\<close>) and its
    inverse \<open>unparse_script\<close> (\<open>unparseScript\<close>, \<open>parsedOpcode.bytes\<close>);
    \<open>removeOpcode\<close>, \<open>canonicalPush\<close> and \<open>removeOpcodeByData\<close>, which prepare the
    signed subscript; \<open>PayToAddrScript\<close>, \<open>getPkScript\<close> (main.go 93-100) and the
    multisig script of main.go 70-71. Lemmas: the size invariant of every reachable builder,
    the sticky error, that a built script tokenizes back to the pushes and opcodes it was
    built from, the round trip \<open>unparse_script (parse_script s) = s\<close>, that each step of
    the tokenizer consumes input (its termination measure), that every payment script is
    signed as it is, the exact bytes and key order of the multisig script.
  \<^item> \<open>Signer\<close>: the legacy signature hash (\<open>calcSignatureHash\<close> over the parsed
    subscript with \<open>OP_CODESEPARATOR\<close> removed and unparsed, \<open>sighash_subscript\<close>, with
    ALL, NONE, SINGLE and ANYONECANPAY, and the SINGLE-without-output rule), \<open>RawTxInSignature\<close>,
    \<open>SignatureScript\<close>, and the program's \<open>sign\<close> loop over the inputs. Lemmas: the
    refinement of the sequential loop (each input signed over a transaction that already
    holds the earlier inputs' scripts) by the specification that signs every input over the
    unsigned transaction, the shape and errors of the unlocking script.
  \<^item> \<open>Interp\<close>: the part of btcd's script engine that checks the scripts the program
    builds: pushes, \<open>OP_DUP\<close>, \<open>OP_HASH160\<close>, \<open>OP_EQUAL(VERIFY)\<close>, \<open>OP_CHECKSIG\<close>
    (the signature removed from the parsed subscript before hashing),
    \<open>OP_CHECKMULTISIG\<close> (every signature removed, btcd's matching loop, the null
    dummy), \<open>verify_script\<close> running the unlocking script and then the locking
    script under btcd's standard verification flags as far as they bear on these scripts:
    \<open>ScriptVerifyMinimalData\<close> (every push in its shortest form, else
    \<open>ErrMinimalData\<close>), \<open>ScriptVerifyNullFail\<close> (a failed \<open>OP_CHECKSIG\<close> or
    \<open>OP_CHECKMULTISIG\<close> with a non-empty signature is \<open>ErrNullFail\<close>, not a pushed false),
    \<open>ScriptVerifyStrictMultiSig\<close> (the null dummy) and \<open>ScriptVerifyCleanStack\<close> (the
    final stack holds exactly one element, else \<open>ErrCleanStack\<close>, also when it is empty).
    The push-only rule for the unlocking script is the mempool policy
    \<open>IsPushOnlyScript\<close> of btcd's \<open>mempool\<close> package, checked before the engine runs
    (\<open>ErrNotPushOnly\<close>). hash160 and the ECDSA check are the parameters of \<open>verifier\<close>. Lemmas: the
    stack effect of each script shape, that signatures longer than a script's pushes
    remove nothing from it, the matching loop equal to the ordered embedding
    \<open>list_emb\<close> of \<open>HOL-Library.Sublist\<close>, that a 2-of-3 unlocking script verifies
    against the program's multisig script exactly when its signatures follow the keys'
    order, and the errors of a non-empty dummy and of a single signature.
  \<^item> \<open>Program\<close>: main.go itself: its constants, \<open>utxo\<close>, \<open>assembleTx\<close> (the outputs
    of lines 107-110, the input of lines 112-115, the unsigned transaction of lines
    103-116, then \<open>sign\<close>), and \<open>main\<close> (lines 37-91) as a function
    from the collaborators (\<open>env\<close>) to how the process ends (\<open>outcome\<close>: exit with a
    message, panic, or the two printed lines). Lemmas: the transaction's shape, that
    \<open>main\<close> never panics, the error reported at each exit (a key the signer cannot use
    ends it at the \<open>assembleTx\<close> stage with \<open>SigningError\<close>), the size of the
    unlocking script against \<open>defaultSignatureSize\<close>, the signed message, the round trip
    of the assembled transaction through its serialization, and the fee.
  \<^item> This theory: the properties of the whole program: what \<open>main\<close> prints is a
    well-formed signed transaction and its hash, and, end to end, decodes to a
    transaction whose input passes the engine's check against the locking script of the
    spent output; \<open>main\<close> ends normally under valid collaborators, the signed size is within
    two bytes of the unsigned size plus \<open>defaultSignatureSize\<close> (which the code declares
    but never uses, like \<open>feeRate\<close>), and the input \<open>assembleTx\<close> signs passes the engine's check
    against the locking script of \<open>getPkScript\<close>.

  \<^bold>\<open>Assumptions on the collaborators.\<close> The script-check theorems assume that
  signatures are longer than the pushes of the locking script (20 bytes for the
  public-key hash, 33 for the multisig keys): a shorter signature could be a substring
  of a push, which btcd's \<open>removeOpcodeByData\<close> (a \<open>bytes.Contains\<close> test, not an exact
  match) would then delete from the signed script. DER signatures have 70 to 72 bytes.

  \<^bold>\<open>Not modelled.\<close> Address and WIF decoding (base58check, bech32) are parameters of
  \<open>env\<close>; SHA-256, RIPEMD-160 and ECDSA are parameters of \<open>crypto\<close>; \<open>tcolor\<close>
  colouring and the printing itself are the strings of \<open>outcome\<close>. Of the script engine
  only the opcodes of the program's scripts are executed (others stop with
  \<open>ErrUnmodelledOpcode\<close>), without the operation-count limit (at most 201, far above
  the program's scripts) and flow control. The encoding checks of signatures and keys
  (\<open>ScriptVerifyStrictEncoding\<close>, \<open>ScriptVerifyLowS\<close>, DER) are part of the
  \<open>ecdsa_verify\<close> parameter: btcd makes a malformed signature or key an error where the
  model makes it a failed check, and the theorems assume signatures and keys that pass
  them;
  executing \<open>OP_CODESEPARATOR\<close> stops the model (the signature hash removes it, so the
  signed subscript is right for scripts in which it is never executed), and
  segregated-witness encoding is not modelled (neither occurs in the scripts the program
  builds). No loop needs fuel: \<open>src/main.go\<close> has no loop, the signing loop runs over
  the list of input indices, and the only recursion that is not structural is the
  tokenizer \<open>parse_script\<close>, whose termination measure is the lemma
  \<open>parse_one_consumes\<close> (every step consumes a byte). For that reason the development
  has no termination claim about the program's own code. Of \<open>main.go\<close>, the package
  clause, the imports and the blank lines are the only lines no definition translates.
\<close>

section \<open>Composition\<close>

text \<open>\<open>assembleTx\<close>, the signature hash and the script engine together: the unlocking
  script written by the signing loop satisfies the pay-to-public-key-hash script that
  \<open>getPkScript\<close> builds.\<close>

lemma assemble_tx_p2pkh_verifies:
  assumes "assemble_tx c u ms pkS w = Inr tx"
    and "get_pk_script dec addr = Inr pkS" and "dec addr = Inr (AddressPubKeyHash h)" and "length h = 20"
    and "length (pub_key_of c (wif_priv_key w) (wif_compress w)) \<in> {33, 65}"
    and "hash160 v (pub_key_of c (wif_priv_key w) (wif_compress w)) = h"
    and "\<forall>m s. ecdsa_sign c (wif_priv_key w) m = Some s
              \<longrightarrow> 20 \<le> length s \<and> ecdsa_verify v (pub_key_of c (wif_priv_key w) (wif_compress w)) m s"
  shows "map (\<lambda>ti. verify_script v c tx 0 (signature_script ti) pkS) (tx_in tx) = [Inr ()]"
proof -
  let ?pk = "pub_key_of c (wif_priv_key w) (wif_compress w)"
  let ?t = "assemble_unsigned u ms pkS"
  have pkS: "pkS = [OP_DUP, OP_HASH160, 0x14] @ h @ [OP_EQUALVERIFY, OP_CHECKSIG]"
    using assms(2-4) pay_to_pubkey_hash_script [OF assms(4)]
    by (simp add: get_pk_script_def del: pay_to_addr_script.simps)
  obtain toks sig where toks: "parse_script pkS = Inr toks"
    and sig: "ecdsa_sign c (wif_priv_key w) (calc_signature_hash_raw c (sighash_subscript toks) SigHashAll ?t 0) = Some sig"
    and l: "length (sig @ [1]) \<le> MaxScriptElementSize" "length ?pk \<le> MaxScriptElementSize"
    and tx: "tx = set_sig_script 0 (push_encoding (sig @ [1]) @ push_encoding ?pk) ?t"
    using assms(1) by (rule assemble_tx_Inr)
  have sub: "sighash_subscript toks = pkS" using assms(2) toks by (rule get_pk_script_sighash_subscript)
  have "sig_verifies v c tx 0 pkS (sig @ [1]) ?pk"
    using sig assms(7)
    by (simp add: sig_verifies_def sub tx calc_signature_hash_raw_signed SigHashAll_def)
  moreover have "20 < length (sig @ [1])" using assms(7) [rule_format, OF sig] by simp
  moreover have "?pk \<noteq> [0]" using assms(5) by auto
  ultimately have "verify_script v c tx 0 (push_encoding (sig @ [1]) @ push_encoding ?pk) pkS = Inr ()"
    using verify_p2pkh [OF assms(4) l] assms(6) by (simp add: pkS)
  then show ?thesis by (simp add: tx set_sig_script_assemble_unsigned)
qed

section \<open>Properties of the whole program\<close>

text \<open>C1. Whenever \<open>main\<close> prints, the raw transaction it prints is the hex of the
  serialization of a transaction within the protocol limits (so that, by the round trip of
  \<open>Wire\<close>, it decodes back to that transaction), the hash it prints is the double hash of
  those bytes in display order, and the transaction has version 1, lock time 0, one input
  and the outputs 900000 and 100000.\<close>

theorem main_prints_signed_tx:
  assumes "main e = Printed h raw"
  shows "\<exists>tx. hex_decode raw = Inr (serialize tx)
     \<and> h = hash_string (double_sha256 (env_crypto e) (serialize tx)) \<and> wf_tx tx
     \<and> version tx = 1 \<and> lock_time tx = 0 \<and> length (tx_in tx) = 1
     \<and> map out_value (tx_out tx) = [900000, 100000]"
proof -
  obtain pkS hh w ms tx where
    pk: "get_pk_script (decode_address e) base58Address = Inr pkS" and
    hh: "new_hash_from_str utxoHashStr = Inr hh" and
    ms: "multisig_script (hex_decode_prefix pk1Hex) (hex_decode_prefix pk2Hex) (hex_decode_prefix pk3Hex) = Inr ms" and
    tx: "assemble_tx (env_crypto e) (main_utxo hh pkS) ms pkS w = Inr tx" and
    out: "h = hash_string (tx_hash (double_sha256 (env_crypto e)) tx)" "raw = hex_encode (serialize tx)"
    using assms by (rule main_cases)
  obtain ss where tx_eq: "tx = set_sig_script 0 ss (assemble_unsigned (main_utxo hh pkS) ms pkS)"
    using tx by (auto simp: assemble_tx_sign ebind_eq_Inr)
  have wf: "wf_tx tx" using pk hh ms tx by (rule main_tx_wf)
  have "version tx = 1 \<and> lock_time tx = 0 \<and> length (tx_in tx) = 1
        \<and> map out_value (tx_out tx) = [900000, 100000]"
    by (simp add: tx_eq set_sig_script_assemble_unsigned)
  with wf show ?thesis
    by (intro exI [of _ tx]) (simp add: out hex_decode_hex_encode tx_hash_def)
qed

lemma main_prints_signed_tx_witness:
  "\<exists>h raw tx. main sample_env = Printed h raw \<and> hex_decode raw = Inr (serialize tx) \<and> wf_tx tx
     \<and> length (tx_in tx) = 1"
proof -
  obtain h raw where m: "main sample_env = Printed h raw"
    using main_Printed_intro [of sample_env "replicate 20 7"] by (auto simp: MaxScriptElementSize_def)
  from main_prints_signed_tx [OF m] m show ?thesis by blast
qed

text \<open>C2. End to end: when the address decodes to the hash of the WIF key's public key
  and the ECDSA check accepts what the signer produces, the raw transaction \<open>main\<close>
  prints decodes (hex, then \<open>wire\<close>) to a transaction whose input passes btcd's script
  check against the locking script of the spent output, \<open>getPkScript(base58Address)\<close>.\<close>

theorem main_prints_spendable_tx:
  assumes "main e = Printed h raw"
    and "decode_address e base58Address = Inr (AddressPubKeyHash a)" and "length a = 20"
    and "decode_wif e privkey = Inr w"
    and "length (pub_key_of (env_crypto e) (wif_priv_key w) (wif_compress w)) \<in> {33, 65}"
    and "hash160 v (pub_key_of (env_crypto e) (wif_priv_key w) (wif_compress w)) = a"
    and "\<forall>m s. ecdsa_sign (env_crypto e) (wif_priv_key w) m = Some s
              \<longrightarrow> 20 \<le> length s \<and> ecdsa_verify v (pub_key_of (env_crypto e) (wif_priv_key w) (wif_compress w)) m s"
  shows "\<exists>tx pkS. get_pk_script (decode_address e) base58Address = Inr pkS
     \<and> hex_decode raw = Inr (serialize tx) \<and> deserialize_no_witness (serialize tx) = Inr (tx, [])
     \<and> map (\<lambda>ti. verify_script v (env_crypto e) tx 0 (signature_script ti) pkS) (tx_in tx) = [Inr ()]"
  using assms(1)
proof (rule main_cases)
  fix pkS hh w' ms tx
  assume pk: "get_pk_script (decode_address e) base58Address = Inr pkS"
    and hh: "new_hash_from_str utxoHashStr = Inr hh" and w': "decode_wif e privkey = Inr w'"
    and ms: "multisig_script (hex_decode_prefix pk1Hex) (hex_decode_prefix pk2Hex) (hex_decode_prefix pk3Hex) = Inr ms"
    and tx: "assemble_tx (env_crypto e) (main_utxo hh pkS) ms pkS w' = Inr tx"
    and raw: "raw = hex_encode (serialize tx)"
  have w: "w' = w" using w' assms(4) by simp
  have "deserialize_no_witness (serialize tx) = Inr (tx, [])"
    using main_tx_wf [OF pk hh ms tx] deserialize_serialize [of tx "[]"] by simp
  moreover have "map (\<lambda>ti. verify_script v (env_crypto e) tx 0 (signature_script ti) pkS) (tx_in tx) = [Inr ()]"
    using tx pk assms(2,3,5-7) unfolding w by (rule assemble_tx_p2pkh_verifies)
  ultimately show ?thesis using pk by (intro exI [of _ tx] exI [of _ pkS]) (simp add: raw hex_decode_hex_encode)
qed

lemma main_prints_spendable_tx_witness:
  "\<exists>h raw tx pkS. main sample_env = Printed h raw \<and> hex_decode raw = Inr (serialize tx)
     \<and> map (\<lambda>ti. verify_script \<lparr>hash160 = (\<lambda>_. replicate 20 7), ecdsa_verify = (\<lambda>pk m s. s = replicate 71 0x30)\<rparr> sample_crypto tx 0 (signature_script ti) pkS) (tx_in tx) = [Inr ()]"
proof -
  obtain h raw where m: "main sample_env = Printed h raw"
    using main_Printed_intro [of sample_env "replicate 20 7"] by (auto simp: MaxScriptElementSize_def)
  have "\<exists>tx pkS. get_pk_script (decode_address sample_env) base58Address = Inr pkS
     \<and> hex_decode raw = Inr (serialize tx) \<and> deserialize_no_witness (serialize tx) = Inr (tx, [])
     \<and> map (\<lambda>ti. verify_script \<lparr>hash160 = (\<lambda>_. replicate 20 7), ecdsa_verify = (\<lambda>pk m s. s = replicate 71 0x30)\<rparr> (env_crypto sample_env) tx 0 (signature_script ti) pkS) (tx_in tx) = [Inr ()]"
    by (rule main_prints_spendable_tx [OF m, of "replicate 20 7" sample_wif]) auto
  then obtain tx pkS where t: "hex_decode raw = Inr (serialize tx)"
    and v: "map (\<lambda>ti. verify_script \<lparr>hash160 = (\<lambda>_. replicate 20 7), ecdsa_verify = (\<lambda>pk m s. s = replicate 71 0x30)\<rparr>
                 sample_crypto tx 0 (signature_script ti) pkS) (tx_in tx) = [Inr ()]"
    by auto
  show ?thesis
    by (rule exI [of _ h], rule exI [of _ raw], rule exI [of _ tx], rule exI [of _ pkS]) (intro conjI m t v)
qed

text \<open>C3. With decoders that succeed on the program's constants (a pay-to-public-key-hash
  address) and a signer that signs every message with a push-sized signature, \<open>main\<close>
  terminates normally and prints the hash and the hex of one serialized transaction.\<close>

theorem main_succeeds:
  assumes "decode_address e base58Address = Inr (AddressPubKeyHash a)" and "length a = 20"
    and "decode_wif e privkey = Inr w"
    and "\<forall>m. \<exists>sig. ecdsa_sign (env_crypto e) (wif_priv_key w) m = Some sig \<and> length sig < MaxScriptElementSize"
    and "length (pub_key_of (env_crypto e) (wif_priv_key w) (wif_compress w)) \<le> MaxScriptElementSize"
  shows "\<exists>tx. main e = Printed (hash_string (double_sha256 (env_crypto e) (serialize tx))) (hex_encode (serialize tx))"
proof -
  obtain h raw where m: "main e = Printed h raw" using main_Printed_intro [OF assms] by blast
  then show ?thesis
  proof (rule main_cases)
    fix pkS hh w ms tx
    assume "h = hash_string (tx_hash (double_sha256 (env_crypto e)) tx)" "raw = hex_encode (serialize tx)"
    with m show ?thesis by (auto simp: tx_hash_def)
  qed
qed

lemma main_succeeds_witness:
  "\<exists>tx. main sample_env = Printed (hash_string (replicate 32 0)) (hex_encode (serialize tx))"
  using main_succeeds [of sample_env "replicate 20 7"]
  by (simp add: MaxScriptElementSize_def)

text \<open>C4. The input of the transaction \<open>assembleTx\<close> signs passes btcd's script check against
  the locking script \<open>getPkScript\<close> made from a pay-to-public-key-hash address, whenever
  the address is the hash of the WIF key's public key and the ECDSA check accepts what the
  signer produces for that key.\<close>

theorem assembled_input_verifies:
  assumes "assemble_tx c u ms pkS w = Inr tx"
    and "get_pk_script dec addr = Inr pkS" and "dec addr = Inr (AddressPubKeyHash h)" and "length h = 20"
    and "length (pub_key_of c (wif_priv_key w) (wif_compress w)) \<in> {33, 65}"
    and "hash160 v (pub_key_of c (wif_priv_key w) (wif_compress w)) = h"
    and "\<forall>m s. ecdsa_sign c (wif_priv_key w) m = Some s
              \<longrightarrow> 20 \<le> length s \<and> ecdsa_verify v (pub_key_of c (wif_priv_key w) (wif_compress w)) m s"
  shows "map (\<lambda>ti. verify_script v c tx 0 (signature_script ti) pkS) (tx_in tx) = [Inr ()]"
  using assms by (rule assemble_tx_p2pkh_verifies)

lemma assembled_input_verifies_witness:
  "\<exists>tx. assemble_tx sample_crypto (main_utxo (replicate 32 0) sample_pkh) [] sample_pkh sample_wif = Inr tx
     \<and> map (\<lambda>ti. verify_script \<lparr>hash160 = (\<lambda>_. replicate 20 7), ecdsa_verify = (\<lambda>pk m s. s = replicate 71 0x30)\<rparr>
                  sample_crypto tx 0 (signature_script ti) sample_pkh) (tx_in tx) = [Inr ()]"
proof -
  obtain tx where t: "assemble_tx sample_crypto (main_utxo (replicate 32 0) sample_pkh) [] sample_pkh sample_wif = Inr tx"
    using assemble_tx_sample by blast
  note g = get_pk_script_sample [of base58Address]
  have "map (\<lambda>ti. verify_script \<lparr>hash160 = (\<lambda>_. replicate 20 7), ecdsa_verify = (\<lambda>pk m s. s = replicate 71 0x30)\<rparr>
                  sample_crypto tx 0 (signature_script ti) sample_pkh) (tx_in tx) = [Inr ()]"
    by (rule assembled_input_verifies [OF t g]) auto
  with t show ?thesis by (rule exI [of _ tx, OF conjI])
qed

text \<open>C24. The size of what \<open>main\<close> prints, against \<open>defaultSignatureSize\<close>: with a
  compressed public key and DER signatures of 69 to 72 bytes, the raw hex has 608 to 614
  digits, and the signed transaction is within two bytes of the unsigned one plus the
  estimate of 107 bytes for the unlocking script (the tolerance spec section 8 asks
  for).\<close>

theorem main_raw_size_near_estimate:
  assumes "main e = Printed h raw"
    and "decode_address e base58Address = Inr (AddressPubKeyHash a)" and "length a = 20"
    and "decode_wif e privkey = Inr w"
    and "length (pub_key_of (env_crypto e) (wif_priv_key w) (wif_compress w)) = 33"
    and "\<forall>m s. ecdsa_sign (env_crypto e) (wif_priv_key w) m = Some s \<longrightarrow> 69 \<le> length s \<and> length s \<le> 72"
  shows "\<exists>tx. raw = hex_encode (serialize tx) \<and> 608 \<le> length raw \<and> length raw \<le> 614
     \<and> \<bar>int (length (serialize tx)) - (int (length (serialize (clear_sig_scripts tx))) + defaultSignatureSize)\<bar> \<le> 2"
  using assms(2-4)
proof (rule main_p2pkh_stage)
  fix toks hh ms
  let ?pkS = "[OP_DUP, OP_HASH160, 0x14] @ a @ [OP_EQUALVERIFY, OP_CHECKSIG]"
  let ?pk = "pub_key_of (env_crypto e) (wif_priv_key w) (wif_compress w)"
  let ?u = "main_utxo hh ?pkS"
  assume hh: "new_hash_from_str utxoHashStr = Inr hh"
    and ms: "multisig_script (hex_decode_prefix pk1Hex) (hex_decode_prefix pk2Hex) (hex_decode_prefix pk3Hex) = Inr ms"
    and m: "main e = (case assemble_tx (env_crypto e) ?u ms ?pkS w of
                 Inl err \<Rightarrow> Exit1 ''Assemble transaction or sign error:'' err
               | Inr tx \<Rightarrow> Printed (hash_string (tx_hash (double_sha256 (env_crypto e)) tx)) (hex_encode (serialize tx)))"
  obtain tx where tx: "assemble_tx (env_crypto e) ?u ms ?pkS w = Inr tx" and raw: "raw = hex_encode (serialize tx)"
    using assms(1) m by (auto split: sum.splits)
  obtain toks' sig where sig: "ecdsa_sign (env_crypto e) (wif_priv_key w)
      (calc_signature_hash_raw (env_crypto e) (sighash_subscript toks') SigHashAll (assemble_unsigned ?u ms ?pkS) 0) = Some sig"
    and tx_eq: "tx = set_sig_script 0 (push_encoding (sig @ [1]) @ push_encoding ?pk) (assemble_unsigned ?u ms ?pkS)"
    using tx by (rule assemble_tx_Inr)
  have l: "69 \<le> length sig" "length sig \<le> 72" using assms(6) [rule_format, OF sig] by simp_all
  have lss: "length (push_encoding (sig @ [1]) @ push_encoding ?pk) = length sig + 36"
    using l assms(5) by (auto simp: length_push_encoding canonical_data_size_def)
  have lpk: "length ?pkS = 25" using assms(3) by simp
  have lms: "length ms = 105" using ms main_pubkeys_33 by (rule multisig_script_length_33)
  have lh: "length (txHash ?u) = HashSize" using length_new_hash_from_str [OF hh] by (simp add: main_utxo_def)
  have "length (serialize tx) = 69 + (length sig + 36) + 25 + 105"
    using serialize_assembled_size [OF lh, of "push_encoding (sig @ [1]) @ push_encoding ?pk" ?pkS ms] l lss lpk lms
    by (simp add: tx_eq)
  moreover have "length (serialize (clear_sig_scripts tx)) = 69 + 0 + 25 + 105"
    using serialize_assembled_size [OF lh, of "[]" ?pkS ms] lpk lms by (simp add: tx_eq clear_assembled)
  ultimately show ?thesis
    using l by (intro exI [of _ tx]) (simp add: raw defaultSignatureSize_def)
qed

lemma main_raw_size_near_estimate_witness:
  "\<exists>h raw tx. main sample_env = Printed h raw \<and> raw = hex_encode (serialize tx) \<and> 608 \<le> length raw \<and> length raw \<le> 614"
proof -
  obtain h raw where m: "main sample_env = Printed h raw"
    using main_Printed_intro [of sample_env "replicate 20 7"] by (auto simp: MaxScriptElementSize_def)
  have "\<exists>tx. raw = hex_encode (serialize tx) \<and> 608 \<le> length raw \<and> length raw \<le> 614
     \<and> \<bar>int (length (serialize tx)) - (int (length (serialize (clear_sig_scripts tx))) + defaultSignatureSize)\<bar> \<le> 2"
    by (rule main_raw_size_near_estimate [OF m, of "replicate 20 7" sample_wif]) auto
  with m show ?thesis by blast
qed

end
